theory Spec2Isabelle
  imports Complex_Main "HOL-Library.Word"
begin

unbundle bit_operations_syntax

section \<open>Bytes, buffers and strings\<close>

text \<open>
  A Node \<open>Buffer\<close> is a list of bytes. The strings of the client all come from
  \<open>toString("latin1")\<close> of received bytes or from ASCII literals, so a string is a list
  of 8-bit characters and \<open>charCodeAt\<close> is \<open>of_char\<close>.
\<close>

type_synonym byte = "8 word"
type_synonym bytes = "byte list"

definition latin1 :: "bytes \<Rightarrow> string" where
  "latin1 bs = map (\<lambda>b. char_of (unat b)) bs"

definition ascii_bytes :: "string \<Rightarrow> bytes" where
  \<comment> \<open>\<open>Buffer.from(str, "ascii")\<close>: one byte per character\<close>
  "ascii_bytes s = map (\<lambda>c. of_nat (of_char c)) s"

text \<open>\<open>buffer.slice(a)\<close> and \<open>buffer.slice(a, b)\<close> for non-negative bounds.\<close>

definition slice_from :: "'a list \<Rightarrow> nat \<Rightarrow> 'a list" where
  "slice_from xs a = drop a xs"

definition slice :: "'a list \<Rightarrow> nat \<Rightarrow> nat \<Rightarrow> 'a list" where
  "slice xs a b = take (b - a) (drop a xs)"

text \<open>
  \<open>buffer[i]\<close> is \<open>undefined\<close> out of range; \<open>buffer[i] || 0\<close> reads 0 there.
\<close>

definition byte_at :: "bytes \<Rightarrow> nat \<Rightarrow> byte option" where
  "byte_at data i = (if i < length data then Some (data ! i) else None)"

definition byte_or0 :: "bytes \<Rightarrow> nat \<Rightarrow> int" where
  "byte_or0 data i = (case byte_at data i of Some b \<Rightarrow> uint b | None \<Rightarrow> 0)"

text \<open>
  The little-endian values at an offset. They are read only under the range check of
  the \<open>read...LE\<close> functions below, which throw a RangeError (here \<open>None\<close>) when the
  field does not fit in the buffer.
\<close>

definition u16_at :: "bytes \<Rightarrow> nat \<Rightarrow> 16 word" where
  "u16_at data i = ucast (data ! i) OR push_bit 8 (ucast (data ! (i + 1)))"

definition u32_at :: "bytes \<Rightarrow> nat \<Rightarrow> 32 word" where
  "u32_at data i = ucast (data ! i) OR push_bit 8 (ucast (data ! (i + 1)))
     OR push_bit 16 (ucast (data ! (i + 2))) OR push_bit 24 (ucast (data ! (i + 3)))"

definition readUInt16LE :: "bytes \<Rightarrow> nat \<Rightarrow> 16 word option" where
  "readUInt16LE data i = (if i + 2 \<le> length data then Some (u16_at data i) else None)"

definition readUInt32LE :: "bytes \<Rightarrow> nat \<Rightarrow> 32 word option" where
  "readUInt32LE data i = (if i + 4 \<le> length data then Some (u32_at data i) else None)"

subsection \<open>String operations of the language\<close>

text \<open>
  White space as \<open>trim\<close> and the regular expression class \<open>\s\<close> see it, among the
  characters a latin-1 string can hold: TAB, LF, VT, FF, CR, space and NBSP.
\<close>

definition js_ws :: "char \<Rightarrow> bool" where
  "js_ws c = (let n = (of_char c :: nat) in (9 \<le> n \<and> n \<le> 13) \<or> n = 32 \<or> n = 160)"

definition trim :: "string \<Rightarrow> string" where
  "trim s = rev (dropWhile js_ws (rev (dropWhile js_ws s)))"

definition startsWith :: "string \<Rightarrow> string \<Rightarrow> bool" where
  "startsWith s p = (take (length p) s = p)"

definition substring :: "string \<Rightarrow> nat \<Rightarrow> string" where
  "substring s n = drop n s"

fun str_includes :: "string \<Rightarrow> string \<Rightarrow> bool" where
  "str_includes [] p = (p = [])"
| "str_includes (c # cs) p = (startsWith (c # cs) p \<or> str_includes cs p)"

text \<open>\<open>s.split(sep)\<close> for a one-character separator: never the empty array.\<close>

fun split_on :: "char \<Rightarrow> string \<Rightarrow> string list" where
  "split_on sep [] = [[]]"
| "split_on sep (c # cs) =
     (if c = sep then [] # split_on sep cs
      else (c # hd (split_on sep cs)) # tl (split_on sep cs))"

text \<open>
  \<open>s.split(/\s+/)\<close>: every maximal run of white space is one separator; a string
  that starts or ends with white space yields an empty first or last piece.
\<close>

function split_ws :: "string \<Rightarrow> string list" where
  "split_ws [] = [[]]"
| "split_ws (c # cs) =
     (if js_ws c then [] # split_ws (dropWhile js_ws cs)
      else (c # hd (split_ws cs)) # tl (split_ws cs))"
  by pat_completeness auto
termination
  by (relation "measure length") (auto simp: length_dropWhile_le less_Suc_eq_le)

text \<open>
  \<open>parseInt(s)\<close> without a radix: leading white space is skipped, then an optional
  sign, then an optional \<open>0x\<close> prefix selecting radix 16, then the longest run of
  digits. No digit gives \<open>NaN\<close>, here \<open>None\<close>. The value is the exact integer; the
  rounding of numbers beyond 2^53 to a double is not modelled.
\<close>

definition digit_val :: "char \<Rightarrow> nat option" where
  "digit_val c = (let n = (of_char c :: nat) in
     if 48 \<le> n \<and> n \<le> 57 then Some (n - 48)
     else if 97 \<le> n \<and> n \<le> 122 then Some (n - 87)
     else if 65 \<le> n \<and> n \<le> 90 then Some (n - 55)
     else None)"

definition is_digit_in :: "nat \<Rightarrow> char \<Rightarrow> bool" where
  "is_digit_in radix c = (case digit_val c of Some d \<Rightarrow> d < radix | None \<Rightarrow> False)"

definition digits_value :: "nat \<Rightarrow> string \<Rightarrow> nat" where
  "digits_value radix ds = foldl (\<lambda>acc c. acc * radix + the (digit_val c)) 0 ds"

definition parseInt :: "string \<Rightarrow> int option" where
  "parseInt str =
     (let s = dropWhile js_ws str;
          neg = startsWith s ''-'';
          s = (if startsWith s ''-'' \<or> startsWith s ''+'' then drop 1 s else s);
          hex = (startsWith s ''0x'' \<or> startsWith s ''0X'');
          radix = (if hex then 16 else 10);
          s = (if hex then drop 2 s else s);
          z = takeWhile (is_digit_in radix) s
      in if z = [] then None
         else Some ((if neg then - 1 else 1) * int (digits_value radix z)))"

text \<open>
  Decimal rendering of an integer, as a template literal does for the integers the
  client holds.
\<close>

fun show_nat :: "nat \<Rightarrow> string" where
  "show_nat n = (if n < 10 then [char_of (48 + n)]
                 else show_nat (n div 10) @ [char_of (48 + n mod 10)])"

definition show_int :: "int \<Rightarrow> string" where
  "show_int i = (if i < 0 then CHR ''-'' # show_nat (nat (- i)) else show_nat (nat i))"

subsection \<open>cleanQuakeString\<close>

text \<open>
  Characters with the high bit set lose it; printable ASCII is kept, LF and CR become a
  newline, everything else is dropped; the result is trimmed.
\<close>

definition clean_char :: "char \<Rightarrow> string" where
  "clean_char ch =
     (let c = (of_char ch :: nat);
          c = (if c \<ge> 128 then c - 128 else c)
      in if c \<ge> 32 \<and> c < 127 then [char_of c]
         else if c = 10 \<or> c = 13 then [CHR 0x0A]
         else [])"

definition cleanQuakeString :: "string \<Rightarrow> string" where
  "cleanQuakeString str = trim (concat (map clean_char str))"

section \<open>Packet classification\<close>

definition REL_BIT :: "32 word" where "REL_BIT = 0x80000000"
definition FRG_BIT :: "32 word" where "FRG_BIT = 0x40000000"
definition NEW_MASK :: "32 word" where "NEW_MASK = FRG_BIT - 1"

text \<open>
  The record \<open>parseSequencedPacket\<close> returns. \<open>pdata\<close> is \<open>None\<close> for \<open>null\<close>;
  \<open>hasData\<close> is the truth value of \<open>data && data.length > 0\<close>.
\<close>

record seqpkt =
  sequence :: nat
  reliable :: bool
  fragmented :: bool
  fragmentOffset :: nat
  moreFragments :: bool
  ack :: nat
  reliableAck :: bool
  hasData :: bool
  pdata :: "bytes option"

datatype parsed =
    Challenge "int option" "int option list"
  | PrintOOB string
  | ClientConnect "(string \<times> string) list" string
  | DisconnectOOB string
  | AckOOB
  | StatusResponse string
  | InfoOOB string
  | UnknownOOB string
  | SequencedError
  | Sequenced seqpkt

text \<open>
  Exceptions are values: \<open>None\<close> is a thrown RangeError. The two header reads and the
  fragment-header read can throw; the length checks before them are the source's.
\<close>

definition parseSequencedPacket :: "bytes \<Rightarrow> parsed option" where
  "parseSequencedPacket buffer =
     (if length buffer < 8 then Some SequencedError
      else case readUInt32LE buffer 0 of None \<Rightarrow> None | Some sequenceRaw \<Rightarrow>
        (case readUInt32LE buffer 4 of None \<Rightarrow> None | Some ackRaw \<Rightarrow>
          (let rel = (sequenceRaw AND REL_BIT \<noteq> 0);
               frg = (sequenceRaw AND FRG_BIT \<noteq> 0);
               relAck = (ackRaw AND REL_BIT \<noteq> 0);
               seqn = unat (sequenceRaw AND NEW_MASK);
               ackn = unat (ackRaw AND NEW_MASK)
           in case (if frg \<and> length buffer \<ge> 10
                    then map_option (\<lambda>fragHeader.
                           (10, unat (fragHeader AND 0x7fff), fragHeader AND 0x8000 \<noteq> 0))
                           (readUInt16LE buffer 8)
                    else Some (8, 0, False)) of
                None \<Rightarrow> None
              | Some (dataOffset, fragOff, moreFrags) \<Rightarrow>
                  (let d = (if length buffer > dataOffset
                            then Some (slice_from buffer dataOffset) else None)
                   in Some (Sequenced \<lparr>sequence = seqn, reliable = rel,
                        fragmented = frg, fragmentOffset = fragOff,
                        moreFragments = moreFrags, ack = ackn, reliableAck = relAck,
                        hasData = (case d of None \<Rightarrow> False | Some b \<Rightarrow> length b > 0),
                        pdata = d\<rparr>)))))"

text \<open>The \<open>p=\<close> scan of the challenge line: the last \<open>p=\<close> token wins.\<close>

definition scan_protocols :: "string list \<Rightarrow> int option list" where
  "scan_protocols parts =
     foldl (\<lambda>supported part.
              if startsWith part ''p=''
              then map parseInt (split_on CHR '','' (substring part 2))
              else supported) [] (drop 2 parts)"

text \<open>
  The \<open>key=value\<close> scan of the client_connect line. \<open>const [key, value] =
  part.split("=")\<close> takes the first two pieces; an empty or missing piece is falsy.
  The \<open>params\<close> object is the list of its assignments, the latest first, so that
  \<open>map_of\<close> reads a property.
\<close>

definition scan_params :: "string list \<Rightarrow> (string \<times> string) list" where
  "scan_params parts =
     foldl (\<lambda>params part.
              (case split_on CHR ''='' part of
                 key # value # _ \<Rightarrow>
                   if key \<noteq> [] \<and> value \<noteq> [] then (key, value) # params else params
               | _ \<Rightarrow> params)) [] (drop 1 parts)"

definition isOOB :: "bytes \<Rightarrow> bool" where
  "isOOB buffer = (length buffer \<ge> 4 \<and> buffer ! 0 = 0xff \<and> buffer ! 1 = 0xff
                    \<and> buffer ! 2 = 0xff \<and> buffer ! 3 = 0xff)"

text \<open>
  \<open>parts[1]\<close> is \<open>undefined\<close> when the line has one token, and \<open>parseInt(undefined)\<close>
  is \<open>NaN\<close>.
\<close>

definition classifyOOB :: "string \<Rightarrow> parsed" where
  "classifyOOB content =
     (let lines = split_on CHR 0x0A content;
          firstLine = trim (hd lines)
      in if startsWith firstLine ''challenge'' then
           (let parts = split_ws firstLine;
                challengeId = (if length parts > 1 then parseInt (parts ! 1) else None)
            in Challenge challengeId (scan_protocols parts))
         else if startsWith firstLine ''print'' then
           PrintOOB (cleanQuakeString (trim (substring content 6)))
         else if startsWith firstLine ''client_connect'' then
           ClientConnect (scan_params (split_ws firstLine)) content
         else if startsWith firstLine ''disconnect'' then
           DisconnectOOB (trim (substring content 10))
         else if firstLine = ''ack'' then AckOOB
         else if startsWith firstLine ''statusResponse'' then StatusResponse content
         else if startsWith firstLine ''info'' then InfoOOB content
         else UnknownOOB content)"

text \<open>
  \<open>parseOOBPacket\<close>: the whole body is inside \<open>try\<close>, and the \<open>catch\<close> returns
  \<open>null\<close>. The result \<open>None\<close> is that \<open>null\<close>.
\<close>

definition parseOOBPacket :: "bytes \<Rightarrow> parsed option" where
  "parseOOBPacket buffer =
     (if \<not> isOOB buffer then parseSequencedPacket buffer
      else Some (classifyOOB (latin1 (slice_from buffer 4))))"

section \<open>Entity tracker\<close>

definition MAX_EDICTS :: nat where "MAX_EDICTS = 1024"

definition U_ORIGIN1 :: "32 word" where "U_ORIGIN1 = push_bit 0 1"
definition U_ORIGIN2 :: "32 word" where "U_ORIGIN2 = push_bit 1 1"
definition U_ANGLE2 :: "32 word" where "U_ANGLE2 = push_bit 2 1"
definition U_ANGLE3 :: "32 word" where "U_ANGLE3 = push_bit 3 1"
definition U_FRAME8 :: "32 word" where "U_FRAME8 = push_bit 4 1"
definition U_EVENT :: "32 word" where "U_EVENT = push_bit 5 1"
definition U_REMOVE :: "32 word" where "U_REMOVE = push_bit 6 1"
definition U_MOREBITS1 :: "32 word" where "U_MOREBITS1 = push_bit 7 1"
definition U_NUMBER16 :: "32 word" where "U_NUMBER16 = push_bit 8 1"
definition U_ORIGIN3 :: "32 word" where "U_ORIGIN3 = push_bit 9 1"
definition U_ANGLE1 :: "32 word" where "U_ANGLE1 = push_bit 10 1"
definition U_MODEL :: "32 word" where "U_MODEL = push_bit 11 1"
definition U_RENDERFX8 :: "32 word" where "U_RENDERFX8 = push_bit 12 1"
definition U_EFFECTS8 :: "32 word" where "U_EFFECTS8 = push_bit 14 1"
definition U_MOREBITS2 :: "32 word" where "U_MOREBITS2 = push_bit 15 1"
definition U_SKIN8 :: "32 word" where "U_SKIN8 = push_bit 16 1"
definition U_FRAME16 :: "32 word" where "U_FRAME16 = push_bit 17 1"
definition U_RENDERFX16 :: "32 word" where "U_RENDERFX16 = push_bit 18 1"
definition U_EFFECTS16 :: "32 word" where "U_EFFECTS16 = push_bit 19 1"
definition U_MODEL2 :: "32 word" where "U_MODEL2 = push_bit 20 1"
definition U_MODEL3 :: "32 word" where "U_MODEL3 = push_bit 21 1"
definition U_MODEL4 :: "32 word" where "U_MODEL4 = push_bit 22 1"
definition U_MOREBITS3 :: "32 word" where "U_MOREBITS3 = push_bit 23 1"
definition U_OLDORIGIN :: "32 word" where "U_OLDORIGIN = push_bit 24 1"
definition U_SKIN16 :: "32 word" where "U_SKIN16 = push_bit 25 1"
definition U_SOUND :: "32 word" where "U_SOUND = push_bit 26 1"
definition U_SOLID :: "32 word" where "U_SOLID = push_bit 27 1"

text \<open>
  An entity object holds numbers and three references to nested objects: \<open>origin\<close>
  and \<open>old_origin\<close> of shape \<open>{x, y, z}\<close> and \<open>angles\<close> of shape \<open>{pitch, yaw,
  roll}\<close>. The spread copy \<open>{ ...baseline }\<close> is shallow, so the copy shares the nested
  objects with the original, and an assignment \<open>state.origin.x = v\<close> is seen through
  every entity object that holds the same reference. The nested objects therefore live
  in a store of cells addressed by numbers; a cell holds the three components in the
  order x, y, z or pitch, yaw, roll. Coordinates and angles are exact dyadic fractions
  of 16-bit and 8-bit integers, so they are rationals.

  \<open>removed\<close> is a property an entity object has (with value \<open>true\<close>) or lacks.
\<close>

type_synonym addr = nat

record vec3 =
  vx :: rat
  vy :: rat
  vz :: rat

record entity =
  number :: int
  modelindex :: int
  modelindex2 :: int
  modelindex3 :: int
  modelindex4 :: int
  frame :: int
  skinnum :: int
  effects :: int
  renderfx :: int
  origin :: addr
  angles :: addr
  old_origin :: addr
  sound :: int
  event :: int
  solid :: int
  active :: bool
  removed :: bool

record tracker =
  baselines :: "entity list"
  entities :: "entity list"
  cells :: "addr \<Rightarrow> vec3"
  fresh :: addr

definition zero_vec :: vec3 where
  "zero_vec = \<lparr>vx = 0, vy = 0, vz = 0\<rparr>"

definition alloc :: "vec3 \<Rightarrow> tracker \<Rightarrow> addr \<times> tracker" where
  "alloc v t = (fresh t, t\<lparr>cells := (cells t)(fresh t := v), fresh := Suc (fresh t)\<rparr>)"

definition createEmptyEntity :: "tracker \<Rightarrow> entity \<times> tracker" where
  "createEmptyEntity t =
     (let (o1, t) = alloc zero_vec t;
          (a1, t) = alloc zero_vec t;
          (o2, t) = alloc zero_vec t
      in (\<lparr>number = 0, modelindex = 0, modelindex2 = 0, modelindex3 = 0, modelindex4 = 0,
           frame = 0, skinnum = 0, effects = 0, renderfx = 0,
           origin = o1, angles = a1, old_origin = o2,
           sound = 0, event = 0, solid = 0, active = False, removed = False\<rparr>, t))"

text \<open>
  \<open>new Array(MAX_EDICTS).fill(null).map(() => this.createEmptyEntity())\<close>: a table of
  \<open>n\<close> fresh entities.
\<close>

fun fresh_table :: "nat \<Rightarrow> tracker \<Rightarrow> entity list \<times> tracker" where
  "fresh_table 0 t = ([], t)"
| "fresh_table (Suc n) t =
     (let (e, t) = createEmptyEntity t; (es, t) = fresh_table n t in (e # es, t))"

definition tracker_reset :: "tracker \<Rightarrow> tracker" where
  "tracker_reset t =
     (let (bs, t) = fresh_table MAX_EDICTS t;
          t = t\<lparr>baselines := bs\<rparr>;
          (es, t) = fresh_table MAX_EDICTS t
      in t\<lparr>entities := es\<rparr>)"

definition new_tracker :: tracker where
  "new_tracker = tracker_reset \<lparr>baselines = [], entities = [], cells = (\<lambda>_. zero_vec), fresh = 0\<rparr>"

definition setBaseline :: "int \<Rightarrow> entity \<Rightarrow> tracker \<Rightarrow> tracker" where
  "setBaseline entityNum state t =
     (if entityNum \<ge> 0 \<and> entityNum < int MAX_EDICTS
      then t\<lparr>baselines := (baselines t)[nat entityNum := state]\<rparr> else t)"

text \<open>
  \<open>updateEntity\<close>: \<open>Object.assign(entity, deltaState)\<close> overwrites every property the
  delta state has, which is every field of the record and \<open>removed\<close> when the delta
  state has it; then \<open>number\<close> and \<open>active\<close> are set. The result \<open>None\<close> is \<open>null\<close>;
  otherwise the entity object of the slot is returned, which the model identifies by the
  slot number.
\<close>

definition updateEntity :: "int \<Rightarrow> entity \<Rightarrow> tracker \<Rightarrow> nat option \<times> tracker" where
  "updateEntity entityNum deltaState t =
     (if entityNum < 0 \<or> entityNum \<ge> int MAX_EDICTS then (None, t)
      else
        (let ent = entities t ! nat entityNum;
             ent' = deltaState\<lparr>removed := (removed deltaState \<or> removed ent),
                               number := entityNum, active := (\<not> removed deltaState)\<rparr>
         in (Some (nat entityNum), t\<lparr>entities := (entities t)[nat entityNum := ent']\<rparr>)))"

text \<open>
  \<open>getEntity\<close> on the array of the tracker: \<open>array[i]\<close> beyond the array is
  \<open>undefined\<close>.
\<close>

datatype 'a jsval = Null | Undefined | Object 'a

definition getEntity :: "tracker \<Rightarrow> int \<Rightarrow> entity jsval" where
  "getEntity t entityNum =
     (if entityNum \<ge> 0 \<and> entityNum < int MAX_EDICTS
      then (if nat entityNum < length (entities t) then Object (entities t ! nat entityNum)
            else Undefined)
      else Null)"

subsection \<open>Guarded readers\<close>

text \<open>
  Each reader checks the range itself and returns the value 0 and the end of the buffer
  as next index when the field does not fit.
\<close>

definition readInt16 :: "bytes \<Rightarrow> nat \<Rightarrow> int \<times> nat" where
  "readInt16 buffer idx =
     (if idx + 2 > length buffer then (0, length buffer) else (sint (u16_at buffer idx), idx + 2))"

definition readUInt16 :: "bytes \<Rightarrow> nat \<Rightarrow> int \<times> nat" where
  "readUInt16 buffer idx =
     (if idx + 2 > length buffer then (0, length buffer) else (uint (u16_at buffer idx), idx + 2))"

definition readInt32 :: "bytes \<Rightarrow> nat \<Rightarrow> int \<times> nat" where
  "readInt32 buffer idx =
     (if idx + 4 > length buffer then (0, length buffer) else (sint (u32_at buffer idx), idx + 4))"

definition readCoord :: "bytes \<Rightarrow> nat \<Rightarrow> rat \<times> nat" where
  "readCoord buffer idx =
     (if idx + 2 > length buffer then (0, length buffer)
      else (of_int (sint (u16_at buffer idx)) * (1 / 8), idx + 2))"

definition readAngle :: "bytes \<Rightarrow> nat \<Rightarrow> rat \<times> nat" where
  "readAngle buffer idx =
     (if idx \<ge> length buffer then (0, length buffer)
      else (of_int (uint (buffer ! idx)) * 360 / 256, idx + 1))"

text \<open>
  \<open>readCString\<close>: the text up to the first NUL at or after the start (or to the end of
  the buffer), and the index after that NUL.
\<close>

definition readCString :: "bytes \<Rightarrow> nat \<Rightarrow> string \<times> nat" where
  "readCString buffer startIndex =
     (let run = takeWhile (\<lambda>b. b \<noteq> 0) (drop startIndex buffer);
          endIndex = startIndex + length run
      in (latin1 (slice buffer startIndex endIndex), endIndex + 1))"

subsection \<open>Entity delta parsing\<close>

definition parseEntityBits :: "bytes \<Rightarrow> nat \<Rightarrow> 32 word \<times> nat" where
  "parseEntityBits data idx =
     (if idx \<ge> length data then (0, idx)
      else
        let bits = (ucast (data ! idx) :: 32 word); idx = idx + 1 in
        if bits AND U_MOREBITS1 \<noteq> 0 \<and> idx \<ge> length data then (bits, idx)
        else
          let (bits, idx) = (if bits AND U_MOREBITS1 \<noteq> 0
                             then (bits OR push_bit 8 (ucast (data ! idx)), idx + 1)
                             else (bits, idx)) in
          if bits AND U_MOREBITS2 \<noteq> 0 \<and> idx \<ge> length data then (bits, idx)
          else
            let (bits, idx) = (if bits AND U_MOREBITS2 \<noteq> 0
                               then (bits OR push_bit 16 (ucast (data ! idx)), idx + 1)
                               else (bits, idx)) in
            if bits AND U_MOREBITS3 \<noteq> 0 \<and> idx \<ge> length data then (bits, idx)
            else
              (if bits AND U_MOREBITS3 \<noteq> 0
               then (bits OR push_bit 24 (ucast (data ! idx)), idx + 1)
               else (bits, idx)))"

text \<open>
  The state of \<open>parseEntityStateFromBits\<close> while it runs: the entity object under
  construction, the cursor, and the tracker whose store the nested objects live in.
\<close>

record pstate =
  ent :: entity
  pos :: nat
  trk :: tracker

text \<open>\<open>state.f = data[idx++] || 0\<close>, and the same through a guarded reader.\<close>

definition set_byte :: "(int \<Rightarrow> entity \<Rightarrow> entity) \<Rightarrow> bytes \<Rightarrow> pstate \<Rightarrow> pstate" where
  "set_byte upd data s = s\<lparr>ent := upd (byte_or0 data (pos s)) (ent s), pos := pos s + 1\<rparr>"

definition set_read :: "(bytes \<Rightarrow> nat \<Rightarrow> int \<times> nat) \<Rightarrow> (int \<Rightarrow> entity \<Rightarrow> entity)
    \<Rightarrow> bytes \<Rightarrow> pstate \<Rightarrow> pstate" where
  "set_read rd upd data s =
     (let (v, nextIndex) = rd data (pos s) in s\<lparr>ent := upd v (ent s), pos := nextIndex\<rparr>)"

text \<open>
  \<open>state.origin.x = coord.value\<close> and its like: a write through the reference, into
  the cell the entity's field points to.
\<close>

definition set_cell :: "(bytes \<Rightarrow> nat \<Rightarrow> rat \<times> nat) \<Rightarrow> (entity \<Rightarrow> addr)
    \<Rightarrow> (rat \<Rightarrow> vec3 \<Rightarrow> vec3) \<Rightarrow> bytes \<Rightarrow> pstate \<Rightarrow> pstate" where
  "set_cell rd ref upd data s =
     (let (v, nextIndex) = rd data (pos s); a = ref (ent s); t = trk s
      in s\<lparr>trk := t\<lparr>cells := (cells t)(a := upd v (cells t a))\<rparr>, pos := nextIndex\<rparr>)"

definition es_model :: "32 word \<Rightarrow> bytes \<Rightarrow> pstate \<Rightarrow> pstate" where
  "es_model bits data s =
     (let s = (if bits AND U_MODEL \<noteq> 0
               then set_byte (\<lambda>v e. e\<lparr>modelindex := v\<rparr>) data s else s);
          s = (if bits AND U_MODEL2 \<noteq> 0
               then set_byte (\<lambda>v e. e\<lparr>modelindex2 := v\<rparr>) data s else s);
          s = (if bits AND U_MODEL3 \<noteq> 0
               then set_byte (\<lambda>v e. e\<lparr>modelindex3 := v\<rparr>) data s else s);
          s = (if bits AND U_MODEL4 \<noteq> 0
               then set_byte (\<lambda>v e. e\<lparr>modelindex4 := v\<rparr>) data s else s)
      in s)"

definition es_frame :: "32 word \<Rightarrow> bytes \<Rightarrow> pstate \<Rightarrow> pstate" where
  "es_frame bits data s =
     (let s = (if bits AND U_FRAME8 \<noteq> 0
               then set_byte (\<lambda>v e. e\<lparr>frame := v\<rparr>) data s else s);
          s = (if bits AND U_FRAME16 \<noteq> 0
               then set_read readUInt16 (\<lambda>v e. e\<lparr>frame := v\<rparr>) data s else s)
      in s)"

definition es_skin :: "32 word \<Rightarrow> bytes \<Rightarrow> pstate \<Rightarrow> pstate" where
  "es_skin bits data s =
     (if bits AND U_SKIN8 \<noteq> 0 \<and> bits AND U_SKIN16 \<noteq> 0
      then set_read readInt32 (\<lambda>v e. e\<lparr>skinnum := v\<rparr>) data s
      else if bits AND U_SKIN8 \<noteq> 0 then set_byte (\<lambda>v e. e\<lparr>skinnum := v\<rparr>) data s
      else if bits AND U_SKIN16 \<noteq> 0
      then set_read readUInt16 (\<lambda>v e. e\<lparr>skinnum := v\<rparr>) data s
      else s)"

definition es_effects :: "32 word \<Rightarrow> bytes \<Rightarrow> pstate \<Rightarrow> pstate" where
  "es_effects bits data s =
     (if bits AND U_EFFECTS8 \<noteq> 0 \<and> bits AND U_EFFECTS16 \<noteq> 0
      then set_read readInt32 (\<lambda>v e. e\<lparr>effects := v\<rparr>) data s
      else if bits AND U_EFFECTS8 \<noteq> 0 then set_byte (\<lambda>v e. e\<lparr>effects := v\<rparr>) data s
      else if bits AND U_EFFECTS16 \<noteq> 0
      then set_read readUInt16 (\<lambda>v e. e\<lparr>effects := v\<rparr>) data s
      else s)"

definition es_renderfx :: "32 word \<Rightarrow> bytes \<Rightarrow> pstate \<Rightarrow> pstate" where
  "es_renderfx bits data s =
     (if bits AND U_RENDERFX8 \<noteq> 0 \<and> bits AND U_RENDERFX16 \<noteq> 0
      then set_read readInt32 (\<lambda>v e. e\<lparr>renderfx := v\<rparr>) data s
      else if bits AND U_RENDERFX8 \<noteq> 0 then set_byte (\<lambda>v e. e\<lparr>renderfx := v\<rparr>) data s
      else if bits AND U_RENDERFX16 \<noteq> 0
      then set_read readUInt16 (\<lambda>v e. e\<lparr>renderfx := v\<rparr>) data s
      else s)"

definition es_origin :: "32 word \<Rightarrow> bytes \<Rightarrow> pstate \<Rightarrow> pstate" where
  "es_origin bits data s =
     (let s = (if bits AND U_ORIGIN1 \<noteq> 0
               then set_cell readCoord origin (\<lambda>v c. c\<lparr>vx := v\<rparr>) data s else s);
          s = (if bits AND U_ORIGIN2 \<noteq> 0
               then set_cell readCoord origin (\<lambda>v c. c\<lparr>vy := v\<rparr>) data s else s);
          s = (if bits AND U_ORIGIN3 \<noteq> 0
               then set_cell readCoord origin (\<lambda>v c. c\<lparr>vz := v\<rparr>) data s else s)
      in s)"

definition es_angles :: "32 word \<Rightarrow> bytes \<Rightarrow> pstate \<Rightarrow> pstate" where
  "es_angles bits data s =
     (let s = (if bits AND U_ANGLE1 \<noteq> 0
               then set_cell readAngle angles (\<lambda>v c. c\<lparr>vx := v\<rparr>) data s else s);
          s = (if bits AND U_ANGLE2 \<noteq> 0
               then set_cell readAngle angles (\<lambda>v c. c\<lparr>vy := v\<rparr>) data s else s);
          s = (if bits AND U_ANGLE3 \<noteq> 0
               then set_cell readAngle angles (\<lambda>v c. c\<lparr>vz := v\<rparr>) data s else s)
      in s)"

text \<open>\<open>state.old_origin = { x: ..., y: ..., z: ... }\<close> makes a new object.\<close>

definition es_old_origin :: "32 word \<Rightarrow> bytes \<Rightarrow> pstate \<Rightarrow> pstate" where
  "es_old_origin bits data s =
     (if bits AND U_OLDORIGIN \<noteq> 0
      then
        (let (x, i) = readCoord data (pos s);
             (y, i) = readCoord data i;
             (z, i) = readCoord data i;
             (a, t) = alloc \<lparr>vx = x, vy = y, vz = z\<rparr> (trk s)
         in s\<lparr>ent := (ent s)\<lparr>old_origin := a\<rparr>, pos := i, trk := t\<rparr>)
      else s)"

definition es_tail :: "32 word \<Rightarrow> bytes \<Rightarrow> pstate \<Rightarrow> pstate" where
  "es_tail bits data s =
     (let s = (if bits AND U_SOUND \<noteq> 0
               then set_byte (\<lambda>v e. e\<lparr>sound := v\<rparr>) data s else s);
          s = (if bits AND U_EVENT \<noteq> 0
               then set_byte (\<lambda>v e. e\<lparr>event := v\<rparr>) data s else s);
          s = (if bits AND U_SOLID \<noteq> 0
               then set_read readUInt16 (\<lambda>v e. e\<lparr>solid := v\<rparr>) data s else s)
      in s)"

text \<open>
  \<open>parseEntityStateFromBits\<close>: the state starts as the shallow copy of the baseline
  object, so it holds the baseline's references.
\<close>

definition parseEntityStateFromBits ::
    "bytes \<Rightarrow> nat \<Rightarrow> 32 word \<Rightarrow> entity \<Rightarrow> int \<Rightarrow> tracker \<Rightarrow> pstate" where
  "parseEntityStateFromBits data idx bits baseline entityNum t =
     (let state = baseline\<lparr>number := entityNum\<rparr> in
      if bits AND U_REMOVE \<noteq> 0
      then \<lparr>ent = state\<lparr>removed := True, active := False\<rparr>, pos = idx, trk = t\<rparr>
      else
        (let s = \<lparr>ent = state, pos = idx, trk = t\<rparr>;
             s = es_model bits data s;
             s = es_frame bits data s;
             s = es_skin bits data s;
             s = es_effects bits data s;
             s = es_renderfx bits data s;
             s = es_origin bits data s;
             s = es_angles bits data s;
             s = es_old_origin bits data s;
             s = es_tail bits data s
         in s\<lparr>ent := (ent s)\<lparr>active := True\<rparr>\<rparr>))"

text \<open>
  The entity number after the bits: a u16 when \<open>U_NUMBER16\<close> is set, else one byte.
\<close>

definition readEntityNum :: "bytes \<Rightarrow> nat \<Rightarrow> 32 word \<Rightarrow> int \<times> nat" where
  "readEntityNum data idx bits =
     (if bits AND U_NUMBER16 \<noteq> 0 then readUInt16 data idx else (byte_or0 data idx, idx + 1))"

text \<open>
  One round of the loop of \<open>parsePacketEntities\<close>; \<open>Inl\<close> is a \<open>break\<close> with the
  cursor reached. The update list holds the entity objects pushed, as slot numbers.
\<close>

definition packetEntity :: "bytes \<Rightarrow> nat \<Rightarrow> nat list \<Rightarrow> tracker
    \<Rightarrow> (nat + nat \<times> nat list \<times> tracker)" where
  "packetEntity data idx updates t =
     (let (bits, idx) = parseEntityBits data idx in
      if bits = 0 then Inl idx
      else
        let (entityNum, idx) = readEntityNum data idx bits in
        if entityNum = 0 \<or> entityNum \<ge> int MAX_EDICTS then Inl idx
        else
          let (baseline, t) = (if nat entityNum < length (baselines t)
                               then (baselines t ! nat entityNum, t)
                               else createEmptyEntity t);
              s = parseEntityStateFromBits data idx bits baseline entityNum t;
              (r, t) = updateEntity entityNum (ent s) (trk s)
          in Inr (pos s, (case r of Some n \<Rightarrow> updates @ [n] | None \<Rightarrow> updates), t))"

text \<open>
  No reader and no stage of the entity parser moves the cursor below a bound that is
  within the buffer. The loops below terminate by this.
\<close>

lemma readUInt16_mono: "k \<le> idx \<Longrightarrow> k \<le> length b \<Longrightarrow> k \<le> snd (readUInt16 b idx)"
  by (simp add: readUInt16_def)
lemma readInt16_mono: "k \<le> idx \<Longrightarrow> k \<le> length b \<Longrightarrow> k \<le> snd (readInt16 b idx)"
  by (simp add: readInt16_def)
lemma readInt32_mono: "k \<le> idx \<Longrightarrow> k \<le> length b \<Longrightarrow> k \<le> snd (readInt32 b idx)"
  by (simp add: readInt32_def)
lemma readCoord_mono: "k \<le> idx \<Longrightarrow> k \<le> length b \<Longrightarrow> k \<le> snd (readCoord b idx)"
  by (simp add: readCoord_def)
lemma readAngle_mono: "k \<le> idx \<Longrightarrow> k \<le> length b \<Longrightarrow> k \<le> snd (readAngle b idx)"
  by (simp add: readAngle_def)

lemmas reader_mono = readUInt16_mono readInt16_mono readInt32_mono readCoord_mono readAngle_mono

lemma set_byte_mono: "k \<le> pos s \<Longrightarrow> k \<le> pos (set_byte u d s)"
  by (simp add: set_byte_def)

lemma set_read_mono:
  "(\<And>i. k \<le> i \<Longrightarrow> k \<le> snd (rd d i)) \<Longrightarrow> k \<le> pos s \<Longrightarrow> k \<le> pos (set_read rd u d s)"
  by (simp add: set_read_def split: prod.splits) (metis snd_conv)

lemma set_cell_mono:
  "(\<And>i. k \<le> i \<Longrightarrow> k \<le> snd (rd d i)) \<Longrightarrow> k \<le> pos s \<Longrightarrow> k \<le> pos (set_cell rd r u d s)"
  by (simp add: set_cell_def Let_def split: prod.splits) (metis snd_conv)

lemma es_model_mono: "k \<le> pos s \<Longrightarrow> k \<le> pos (es_model bits d s)"
  by (simp add: es_model_def Let_def set_byte_mono)

lemma es_frame_mono: "k \<le> length d \<Longrightarrow> k \<le> pos s \<Longrightarrow> k \<le> pos (es_frame bits d s)"
  by (simp add: es_frame_def Let_def set_byte_mono set_read_mono reader_mono)

lemma es_skin_mono: "k \<le> length d \<Longrightarrow> k \<le> pos s \<Longrightarrow> k \<le> pos (es_skin bits d s)"
  by (simp add: es_skin_def set_byte_mono set_read_mono reader_mono)

lemma es_effects_mono: "k \<le> length d \<Longrightarrow> k \<le> pos s \<Longrightarrow> k \<le> pos (es_effects bits d s)"
  by (simp add: es_effects_def set_byte_mono set_read_mono reader_mono)

lemma es_renderfx_mono: "k \<le> length d \<Longrightarrow> k \<le> pos s \<Longrightarrow> k \<le> pos (es_renderfx bits d s)"
  by (simp add: es_renderfx_def set_byte_mono set_read_mono reader_mono)

lemma es_origin_mono: "k \<le> length d \<Longrightarrow> k \<le> pos s \<Longrightarrow> k \<le> pos (es_origin bits d s)"
  by (simp add: es_origin_def Let_def set_cell_mono reader_mono)

lemma es_angles_mono: "k \<le> length d \<Longrightarrow> k \<le> pos s \<Longrightarrow> k \<le> pos (es_angles bits d s)"
  by (simp add: es_angles_def Let_def set_cell_mono reader_mono)

lemma es_old_origin_mono: "k \<le> length d \<Longrightarrow> k \<le> pos s \<Longrightarrow> k \<le> pos (es_old_origin bits d s)"
  by (auto simp: es_old_origin_def Let_def alloc_def split: prod.splits)
     (metis readCoord_mono snd_conv)

lemma es_tail_mono: "k \<le> length d \<Longrightarrow> k \<le> pos s \<Longrightarrow> k \<le> pos (es_tail bits d s)"
  by (simp add: es_tail_def Let_def set_byte_mono set_read_mono reader_mono)

lemma parseEntityStateFromBits_mono:
  "k \<le> length d \<Longrightarrow> k \<le> idx \<Longrightarrow> k \<le> pos (parseEntityStateFromBits d idx bits b n t)"
  by (simp add: parseEntityStateFromBits_def Let_def es_model_mono es_frame_mono es_skin_mono
      es_effects_mono es_renderfx_mono es_origin_mono es_angles_mono es_old_origin_mono es_tail_mono)

lemma parseEntityBits_progress:
  "idx < length d \<Longrightarrow> idx < snd (parseEntityBits d idx) \<and> snd (parseEntityBits d idx) \<le> length d"
  by (auto simp: parseEntityBits_def Let_def split: prod.splits if_splits)

lemma readEntityNum_mono:
  "k \<le> length d \<Longrightarrow> k \<le> idx \<Longrightarrow> k \<le> snd (readEntityNum d idx bits)"
  by (simp add: readEntityNum_def reader_mono)

lemma packetEntity_progress:
  "idx < length d \<Longrightarrow> packetEntity d idx ups t = Inr (idx', ups', t') \<Longrightarrow> idx < idx'"
proof -
  assume lt: "idx < length d" and eq: "packetEntity d idx ups t = Inr (idx', ups', t')"
  obtain bits i1 where b: "parseEntityBits d idx = (bits, i1)" by (cases "parseEntityBits d idx")
  obtain n i2 where n: "readEntityNum d i1 bits = (n, i2)" by (cases "readEntityNum d i1 bits")
  from parseEntityBits_progress [OF lt] b have i1: "Suc idx \<le> i1" "i1 \<le> length d" by auto
  have k: "Suc idx \<le> length d" using lt by simp
  from readEntityNum_mono [OF k i1(1), of bits] n have i2: "Suc idx \<le> i2" by simp
  from eq b n have "\<exists>bl tt. idx' = pos (parseEntityStateFromBits d i2 bits bl n tt)"
    by (auto simp: packetEntity_def Let_def split: if_splits prod.splits)
  then show ?thesis using parseEntityStateFromBits_mono [OF k i2] by (auto simp: Suc_le_eq)
qed

function packetEntities_loop :: "bytes \<Rightarrow> nat \<Rightarrow> nat list \<Rightarrow> tracker
    \<Rightarrow> nat list \<times> nat \<times> tracker" where
  "packetEntities_loop data idx updates t =
     (if idx < length data
      then (case packetEntity data idx updates t of
              Inl i \<Rightarrow> (updates, i, t)
            | Inr (i, ups, t') \<Rightarrow> packetEntities_loop data i ups t')
      else (updates, idx, t))"
  by pat_completeness auto
termination
  by (relation "measure (\<lambda>(data, idx, updates, t). length data - idx)")
     (auto dest: packetEntity_progress intro!: diff_less_mono2)

definition parsePacketEntities :: "bytes \<Rightarrow> nat \<Rightarrow> tracker \<Rightarrow> nat list \<times> nat \<times> tracker" where
  "parsePacketEntities data idx t = packetEntities_loop data idx [] t"

subsection \<open>Player state\<close>

definition PS_M_TYPE :: "16 word" where "PS_M_TYPE = push_bit 0 1"
definition PS_M_ORIGIN :: "16 word" where "PS_M_ORIGIN = push_bit 1 1"
definition PS_M_VELOCITY :: "16 word" where "PS_M_VELOCITY = push_bit 2 1"
definition PS_M_TIME :: "16 word" where "PS_M_TIME = push_bit 3 1"
definition PS_M_FLAGS :: "16 word" where "PS_M_FLAGS = push_bit 4 1"
definition PS_M_GRAVITY :: "16 word" where "PS_M_GRAVITY = push_bit 5 1"
definition PS_M_DELTA_ANGLES :: "16 word" where "PS_M_DELTA_ANGLES = push_bit 6 1"
definition PS_VIEWOFFSET :: "16 word" where "PS_VIEWOFFSET = push_bit 7 1"
definition PS_VIEWANGLES :: "16 word" where "PS_VIEWANGLES = push_bit 8 1"
definition PS_KICKANGLES :: "16 word" where "PS_KICKANGLES = push_bit 9 1"
definition PS_BLEND :: "16 word" where "PS_BLEND = push_bit 10 1"
definition PS_FOV :: "16 word" where "PS_FOV = push_bit 11 1"
definition PS_WEAPONINDEX :: "16 word" where "PS_WEAPONINDEX = push_bit 12 1"
definition PS_WEAPONFRAME :: "16 word" where "PS_WEAPONFRAME = push_bit 13 1"
definition PS_RDFLAGS :: "16 word" where "PS_RDFLAGS = push_bit 14 1"

text \<open>
  \<open>parsePlayerState\<close> is modelled by its cursor: the index after the player-state
  block. The values it decodes go to the player-state object of the tracker and into the
  \<open>player_state\<close> message, which no handler reads; they are outside this model.
  \<open>skip16\<close> is the move of \<open>readInt16\<close> and of \<open>readAngle16\<close>, which share
  the range check.
\<close>

definition skip16 :: "bytes \<Rightarrow> nat \<Rightarrow> nat" where
  "skip16 data idx = snd (readInt16 data idx)"

definition parsePlayerState :: "bytes \<Rightarrow> nat \<Rightarrow> 16 word \<Rightarrow> nat" where
  "parsePlayerState data idx flags =
     (let idx = (if flags AND PS_M_TYPE \<noteq> 0 then idx + 1 else idx);
          idx = (if flags AND PS_M_ORIGIN \<noteq> 0
                 then skip16 data (skip16 data (skip16 data idx)) else idx);
          idx = (if flags AND PS_M_VELOCITY \<noteq> 0
                 then skip16 data (skip16 data (skip16 data idx)) else idx);
          idx = (if flags AND PS_M_TIME \<noteq> 0 then idx + 1 else idx);
          idx = (if flags AND PS_M_FLAGS \<noteq> 0 then idx + 1 else idx);
          idx = (if flags AND PS_M_GRAVITY \<noteq> 0 then skip16 data idx else idx);
          idx = (if flags AND PS_M_DELTA_ANGLES \<noteq> 0
                 then skip16 data (skip16 data (skip16 data idx)) else idx);
          idx = (if flags AND PS_VIEWOFFSET \<noteq> 0 then idx + 3 else idx);
          idx = (if flags AND PS_VIEWANGLES \<noteq> 0
                 then skip16 data (skip16 data (skip16 data idx)) else idx);
          idx = (if flags AND PS_KICKANGLES \<noteq> 0 then idx + 3 else idx);
          idx = (if flags AND PS_WEAPONINDEX \<noteq> 0 then idx + 1 else idx);
          idx = (if flags AND PS_WEAPONFRAME \<noteq> 0 then idx + 1 else idx);
          idx = (if flags AND PS_BLEND \<noteq> 0 then idx + 4 else idx);
          idx = (if flags AND PS_FOV \<noteq> 0 then idx + 1 else idx);
          idx = (if flags AND PS_RDFLAGS \<noteq> 0 then idx + 1 else idx)
      in idx)"

lemma skip16_mono: "k \<le> length d \<Longrightarrow> k \<le> idx \<Longrightarrow> k \<le> skip16 d idx"
  by (simp add: skip16_def readInt16_mono)

lemma le_Let_intro: "k \<le> e \<Longrightarrow> (\<And>i. k \<le> i \<Longrightarrow> k \<le> f i) \<Longrightarrow> k \<le> Let e f"
  for k :: nat
  by simp

lemma le_if_intro: "k \<le> a \<Longrightarrow> k \<le> b \<Longrightarrow> k \<le> (if c then a else b)"
  for k :: nat
  by simp

lemma parsePlayerState_mono:
  "k \<le> length d \<Longrightarrow> k \<le> idx \<Longrightarrow> k \<le> parsePlayerState d idx flags"
  unfolding parsePlayerState_def
  by (intro le_Let_intro le_if_intro skip16_mono trans_le_add1) assumption+

section \<open>Game-message decoder\<close>

definition VERSION_DEFAULT :: int where "VERSION_DEFAULT = 34"
definition VERSION_R1Q2 :: int where "VERSION_R1Q2 = 35"
definition VERSION_Q2PRO :: int where "VERSION_Q2PRO = 36"
definition VERSION_AQTION :: int where "VERSION_AQTION = 38"

definition SVC_MUZZLEFLASH :: nat where "SVC_MUZZLEFLASH = 1"
definition SVC_MUZZLEFLASH2 :: nat where "SVC_MUZZLEFLASH2 = 2"
definition SVC_TEMP_ENTITY :: nat where "SVC_TEMP_ENTITY = 3"
definition SVC_LAYOUT :: nat where "SVC_LAYOUT = 4"
definition SVC_INVENTORY :: nat where "SVC_INVENTORY = 5"
definition SVC_NOP :: nat where "SVC_NOP = 6"
definition SVC_DISCONNECT :: nat where "SVC_DISCONNECT = 7"
definition SVC_RECONNECT :: nat where "SVC_RECONNECT = 8"
definition SVC_SOUND :: nat where "SVC_SOUND = 9"
definition SVC_PRINT :: nat where "SVC_PRINT = 10"
definition SVC_STUFFTEXT :: nat where "SVC_STUFFTEXT = 11"
definition SVC_SERVERDATA :: nat where "SVC_SERVERDATA = 12"
definition SVC_CONFIGSTRING :: nat where "SVC_CONFIGSTRING = 13"
definition SVC_SPAWNBASELINE :: nat where "SVC_SPAWNBASELINE = 14"
definition SVC_CENTERPRINT :: nat where "SVC_CENTERPRINT = 15"
definition SVC_DOWNLOAD :: nat where "SVC_DOWNLOAD = 16"
definition SVC_PLAYERINFO :: nat where "SVC_PLAYERINFO = 17"
definition SVC_PACKETENTITIES :: nat where "SVC_PACKETENTITIES = 18"
definition SVC_DELTAPACKETENTITIES :: nat where "SVC_DELTAPACKETENTITIES = 19"
definition SVC_FRAME :: nat where "SVC_FRAME = 20"
definition SVC_ZPACKET :: nat where "SVC_ZPACKET = 21"
definition SVC_GAMESTATE :: nat where "SVC_GAMESTATE = 23"
definition SVC_SETTING :: nat where "SVC_SETTING = 24"
definition SVC_CONFIGSTRINGSTREAM :: nat where "SVC_CONFIGSTRINGSTREAM = 25"
definition SVC_BASELINESTREAM :: nat where "SVC_BASELINESTREAM = 26"
definition SVC_EXTEND :: nat where "SVC_EXTEND = 30"
definition SVC_CVARSYNC :: nat where "SVC_CVARSYNC = 32"

definition SVCMD_MASK :: byte where "SVCMD_MASK = push_bit 5 1 - 1"

text \<open>
  The fields of the client that the decoder reads and writes. The client record below
  extends this one.
\<close>

record dstate =
  serverProtocol :: int
  serverProtocolMinor :: int
  lastFrameNum :: int
  entityTracker :: tracker

text \<open>
  The messages \<open>parseGameMessage\<close> returns. A \<open>serverdata\<close> message carries
  protocol, serverCount, attractloop, gameDir, clientNum and mapName; an
  \<open>entity_state\<close> message carries the entity object of a slot.
\<close>

datatype svcmsg =
    M_serverdata int int nat string int string
  | M_configstring nat string
  | M_print nat string
  | M_centerprint string
  | M_stufftext string
  | M_server_disconnect
  | M_reconnect
  | M_player_state
  | M_entity_state nat

text \<open>
  What a call of the decoder comes to: a thrown RangeError, a nesting of compressed
  packets deeper than the model follows, or the returned messages with the state.
  A round of the opcode loop either ends the call or goes on at a new cursor.
\<close>

datatype 'c outcome = Throw | OutOfFuel | Return "svcmsg list" 'c

datatype 'c step = Stop "'c outcome" | Next nat "svcmsg list" 'c

definition readInt16LE :: "bytes \<Rightarrow> nat \<Rightarrow> int option" where
  "readInt16LE data i = map_option sint (readUInt16LE data i)"

definition readInt32LE :: "bytes \<Rightarrow> nat \<Rightarrow> int option" where
  "readInt32LE data i = map_option sint (readUInt32LE data i)"

definition svc_temp_entity :: "bytes \<Rightarrow> nat \<Rightarrow> svcmsg list \<Rightarrow> 'c \<Rightarrow> 'c step" where
  "svc_temp_entity data idx msgs c =
     (if idx \<ge> length data then Stop (Return msgs c)
      else
        let teType = unat (data ! idx); idx = idx + 1 in
        if teType \<le> 19 then Next (idx + 6) msgs c
        else if teType \<le> 29 then Next (idx + 12) msgs c
        else Next (idx + 6) msgs c)"

definition serverdata_tail :: "int \<Rightarrow> bytes \<Rightarrow> nat \<Rightarrow> 'a dstate_scheme
    \<Rightarrow> (nat \<times> 'a dstate_scheme) option" where
  "serverdata_tail proto data idx c =
     (if proto = VERSION_R1Q2 then
        (if idx + 5 \<le> length data then
           (let idx = idx + 1 in
            case readUInt16LE data idx of None \<Rightarrow> None
            | Some minorVersion \<Rightarrow>
                Some (idx + 2 + 2, c\<lparr>serverProtocolMinor := uint minorVersion\<rparr>))
         else Some (idx, c))
      else if proto = VERSION_Q2PRO then
        (if idx + 3 \<le> length data then
           (case readUInt16LE data idx of None \<Rightarrow> None
            | Some minorVersion \<Rightarrow>
                (let idx = idx + 2;
                     c = c\<lparr>serverProtocolMinor := uint minorVersion\<rparr>;
                     idx = idx + 1
                 in if serverProtocolMinor c \<ge> 1024
                    then Some (if idx + 2 \<le> length data then idx + 2 else idx, c)
                    else Some (if idx + 3 \<le> length data then idx + 3 else idx, c)))
         else Some (idx, c))
      else if proto = VERSION_AQTION then
        (if idx + 6 \<le> length data then
           (case readUInt16LE data idx of None \<Rightarrow> None
            | Some minorVersion \<Rightarrow>
                Some (idx + 2 + 4, c\<lparr>serverProtocolMinor := uint minorVersion\<rparr>))
         else Some (idx, c))
      else Some (idx, c))"

definition svc_serverdata :: "bytes \<Rightarrow> nat \<Rightarrow> svcmsg list \<Rightarrow> 'a dstate_scheme
    \<Rightarrow> 'a dstate_scheme step" where
  "svc_serverdata data idx msgs c =
     (if idx + 9 > length data then Stop (Return msgs c)
      else case readInt32LE data idx of None \<Rightarrow> Stop Throw | Some proto \<Rightarrow>
        (let idx = idx + 4; c = c\<lparr>serverProtocol := proto\<rparr> in
         case readInt32LE data idx of None \<Rightarrow> Stop Throw | Some srvCount \<Rightarrow>
           (let idx = idx + 4;
                attractloop = unat (data ! idx);
                idx = idx + 1;
                (gameDir, idx) = readCString data idx;
                (clientNum, idx) = readInt16 data idx;
                (mapName, idx) = readCString data idx
            in case serverdata_tail proto data idx c of None \<Rightarrow> Stop Throw
               | Some (idx, c) \<Rightarrow>
                   Next idx (msgs @ [M_serverdata proto srvCount attractloop gameDir clientNum
                                      (cleanQuakeString mapName)]) c)))"

definition svc_configstring :: "bytes \<Rightarrow> nat \<Rightarrow> svcmsg list \<Rightarrow> 'c \<Rightarrow> 'c step" where
  "svc_configstring data idx msgs c =
     (if idx + 2 > length data then Stop (Return msgs c)
      else case readUInt16LE data idx of None \<Rightarrow> Stop Throw | Some csIndex \<Rightarrow>
        (let idx = idx + 2;
             (text, nextIndex) = readCString data idx;
             cleanText = cleanQuakeString text
         in Next nextIndex
              (if cleanText \<noteq> [] then msgs @ [M_configstring (unat csIndex) cleanText] else msgs)
              c))"

text \<open>
  SPAWNBASELINE: the baseline is parsed onto a fresh empty entity, and \<open>setBaseline\<close>
  stores a shallow copy of the result.
\<close>

definition svc_spawnbaseline :: "bytes \<Rightarrow> nat \<Rightarrow> svcmsg list \<Rightarrow> 'a dstate_scheme
    \<Rightarrow> 'a dstate_scheme step" where
  "svc_spawnbaseline data idx msgs c =
     (let (bits, idx) = parseEntityBits data idx in
      if bits = 0 then Next idx msgs c
      else
        let (entityNum, idx) = readEntityNum data idx bits;
            (baseline, t) = createEmptyEntity (entityTracker c);
            s = parseEntityStateFromBits data idx bits baseline entityNum t
        in Next (pos s) msgs (c\<lparr>entityTracker := setBaseline entityNum (ent s) (trk s)\<rparr>))"

definition svc_print :: "bytes \<Rightarrow> nat \<Rightarrow> svcmsg list \<Rightarrow> 'c \<Rightarrow> 'c step" where
  "svc_print data idx msgs c =
     (if idx \<ge> length data then Stop (Return msgs c)
      else
        let level = unat (data ! idx);
            (text, nextIndex) = readCString data (idx + 1);
            cleanText = cleanQuakeString text
        in Next nextIndex (if cleanText \<noteq> [] then msgs @ [M_print level cleanText] else msgs) c)"

definition svc_centerprint :: "bytes \<Rightarrow> nat \<Rightarrow> svcmsg list \<Rightarrow> 'c \<Rightarrow> 'c step" where
  "svc_centerprint data idx msgs c =
     (let (text, nextIndex) = readCString data idx;
          cleanText = cleanQuakeString text
      in Next nextIndex (if cleanText \<noteq> [] then msgs @ [M_centerprint cleanText] else msgs) c)"

definition svc_stufftext :: "bytes \<Rightarrow> nat \<Rightarrow> svcmsg list \<Rightarrow> 'c \<Rightarrow> 'c step" where
  "svc_stufftext data idx msgs c =
     (let (text, nextIndex) = readCString data idx;
          stuffCmd = trim text
      in Next nextIndex (if stuffCmd \<noteq> [] then msgs @ [M_stufftext stuffCmd] else msgs) c)"

definition svc_sound :: "bytes \<Rightarrow> nat \<Rightarrow> svcmsg list \<Rightarrow> 'c \<Rightarrow> 'c step" where
  "svc_sound data idx msgs c =
     (if idx \<ge> length data then Stop (Return msgs c)
      else
        let flags = data ! idx; idx = idx + 1;
            idx = (if flags AND 0x20 \<noteq> 0 then idx + 2 else idx + 1);
            idx = (if flags AND 1 \<noteq> 0 then idx + 1 else idx);
            idx = (if flags AND 2 \<noteq> 0 then idx + 1 else idx);
            idx = (if flags AND 0x10 \<noteq> 0 then idx + 1 else idx);
            idx = (if flags AND 8 \<noteq> 0 then idx + 2 else idx);
            idx = (if flags AND 4 \<noteq> 0 then idx + 6 else idx)
        in Next idx msgs c)"

text \<open>
  The head of a FRAME block up to the player-state flags: the new cursor, the flags
  (0 when they do not fit) and the state with \<open>lastFrameNum\<close> set. \<open>None\<close> is a
  thrown RangeError.
\<close>

definition frame_rest :: "bytes \<Rightarrow> nat \<Rightarrow> 'c \<Rightarrow> (nat \<times> 16 word \<times> 'c) option" where
  "frame_rest data idx c =
     (let idx = (if idx < length data then idx + 1 + unat (data ! idx) else idx) in
      if idx + 2 \<le> length data
      then map_option (\<lambda>psFlags. (idx + 2, psFlags, c)) (readUInt16LE data idx)
      else Some (idx, 0, c))"

definition frame_head :: "bytes \<Rightarrow> nat \<Rightarrow> 'a dstate_scheme
    \<Rightarrow> (nat \<times> 16 word \<times> 'a dstate_scheme) option" where
  "frame_head data idx c =
     (if serverProtocol c = VERSION_Q2PRO \<or> serverProtocol c = VERSION_AQTION
         \<or> serverProtocol c = VERSION_R1Q2
      then
        (case readUInt32LE data idx of None \<Rightarrow> None
         | Some frameData \<Rightarrow>
             (let idx = idx + 4;
                  frameNum = uint (frameData AND 0x07ffffff);
                  c = c\<lparr>lastFrameNum := frameNum\<rparr>;
                  idx = (if idx < length data then idx + 1 else idx)
              in frame_rest data idx c))
      else
        (case readInt32LE data idx of None \<Rightarrow> None
         | Some frameNum \<Rightarrow>
             (let idx = idx + 4;
                  c = c\<lparr>lastFrameNum := frameNum\<rparr>
              in case (if idx + 4 \<le> length data
                       then map_option (\<lambda>deltaNum. idx + 4) (readInt32LE data idx)
                       else Some idx) of
                   None \<Rightarrow> None
                 | Some idx \<Rightarrow>
                     (let idx = (if idx < length data then idx + 1 else idx)
                      in frame_rest data idx c))))"

definition svc_frame :: "bytes \<Rightarrow> nat \<Rightarrow> svcmsg list \<Rightarrow> 'a dstate_scheme
    \<Rightarrow> 'a dstate_scheme step" where
  "svc_frame data idx msgs c =
     (if idx + 4 > length data then Stop (Return msgs c)
      else case frame_head data idx c of None \<Rightarrow> Stop Throw
        | Some (idx, psFlags, c) \<Rightarrow>
            (let (idx, msgs) = (if psFlags \<noteq> 0 \<and> idx < length data
                                then (parsePlayerState data idx psFlags, msgs @ [M_player_state])
                                else (idx, msgs))
             in if idx < length data
                then (let (updates, nextIndex, t) = parsePacketEntities data idx (entityTracker c)
                      in Next nextIndex (msgs @ map M_entity_state updates)
                           (c\<lparr>entityTracker := t\<rparr>))
                else Next idx msgs c))"

definition svc_download :: "bytes \<Rightarrow> nat \<Rightarrow> svcmsg list \<Rightarrow> 'c \<Rightarrow> 'c step" where
  "svc_download data idx msgs c =
     (if idx + 2 > length data then Stop (Return msgs c)
      else case readInt16LE data idx of None \<Rightarrow> Stop Throw | Some sz \<Rightarrow>
        (let idx = idx + 2; idx = idx + 1
         in Next (if sz > 0 then idx + nat sz else idx) msgs c))"

text \<open>
  ZPACKET: \<open>decompressZlib\<close> is zlib's raw inflate inside \<open>try\<close>, returning
  \<open>null\<close> on failure. The inflate function is a parameter of the model, with \<open>None\<close>
  for that failure; \<open>nested\<close> is the recursive call \<open>parseGameMessage(decompressed,
  true)\<close>.
\<close>

definition svc_zpacket :: "(bytes \<Rightarrow> bytes option) \<Rightarrow> (bytes \<Rightarrow> 'c \<Rightarrow> 'c outcome)
    \<Rightarrow> bytes \<Rightarrow> nat \<Rightarrow> svcmsg list \<Rightarrow> 'c \<Rightarrow> 'c step" where
  "svc_zpacket inflate nested data idx msgs c =
     (if idx + 4 > length data then Stop (Return msgs c)
      else case readUInt16LE data idx of None \<Rightarrow> Stop Throw | Some inlen \<Rightarrow>
        (let idx = idx + 2 in
         case readUInt16LE data idx of None \<Rightarrow> Stop Throw | Some outlen \<Rightarrow>
           (let idx = idx + 2 in
            if idx + unat inlen > length data then Stop (Return msgs c)
            else
              let compressed = slice data idx (idx + unat inlen);
                  idx = idx + unat inlen
              in case inflate compressed of
                   None \<Rightarrow> Next idx msgs c
                 | Some decompressed \<Rightarrow>
                     (case nested decompressed c of
                        Return innerMsgs c' \<Rightarrow> Next idx (msgs @ innerMsgs) c'
                      | Throw \<Rightarrow> Stop Throw
                      | OutOfFuel \<Rightarrow> Stop OutOfFuel))))"

lemma readCString_next: "idx < snd (readCString data idx)"
  by (simp add: readCString_def Let_def)

function gamestate_loop :: "bytes \<Rightarrow> nat \<Rightarrow> svcmsg list \<Rightarrow> svcmsg list option" where
  "gamestate_loop data idx msgs =
     (if idx + 2 \<le> length data
      then (case readUInt16LE data idx of None \<Rightarrow> None
            | Some csIndex \<Rightarrow>
                if csIndex = 0x7fff \<or> unat csIndex \<ge> 2080 then Some msgs
                else
                  let r = readCString data (idx + 2);
                      cleanText = cleanQuakeString (fst r)
                  in gamestate_loop data (snd r)
                       (if cleanText \<noteq> [] then msgs @ [M_configstring (unat csIndex) cleanText]
                        else msgs))
      else Some msgs)"
  by pat_completeness auto
termination
proof (relation "measure (\<lambda>(data, idx, msgs). length data - idx)", goal_cases)
  case 1
  show ?case by simp
next
  case (2 data idx msgs csIndex r cleanText)
  have "idx + 2 < snd (readCString data (idx + 2))" by (rule readCString_next)
  with 2 show ?case by simp
qed

definition svc_gamestate :: "bytes \<Rightarrow> nat \<Rightarrow> svcmsg list \<Rightarrow> 'c \<Rightarrow> 'c step" where
  "svc_gamestate data idx msgs c =
     (case gamestate_loop data idx msgs of None \<Rightarrow> Stop Throw
      | Some msgs' \<Rightarrow> Stop (Return msgs' c))"

definition svc_setting :: "bytes \<Rightarrow> nat \<Rightarrow> svcmsg list \<Rightarrow> 'c \<Rightarrow> 'c step" where
  "svc_setting data idx msgs c =
     (if idx + 8 > length data then Stop (Return msgs c) else Next (idx + 8) msgs c)"

text \<open>The \<open>switch (cmd)\<close> of the opcode loop.\<close>

definition svc_dispatch :: "(bytes \<Rightarrow> bytes option) \<Rightarrow> (bytes \<Rightarrow> 'a dstate_scheme \<Rightarrow> 'a dstate_scheme outcome)
    \<Rightarrow> bytes \<Rightarrow> bool \<Rightarrow> nat \<Rightarrow> nat \<Rightarrow> svcmsg list \<Rightarrow> 'a dstate_scheme
    \<Rightarrow> 'a dstate_scheme step" where
  "svc_dispatch inflate nested data isNested cmd idx msgs c =
     (if cmd = SVC_NOP then Next idx msgs c
      else if cmd = SVC_MUZZLEFLASH \<or> cmd = SVC_MUZZLEFLASH2 then Next (idx + 3) msgs c
      else if cmd = SVC_TEMP_ENTITY then svc_temp_entity data idx msgs c
      else if cmd = SVC_LAYOUT then Next (snd (readCString data idx)) msgs c
      else if cmd = SVC_INVENTORY then Next (idx + 256 * 2) msgs c
      else if cmd = SVC_SERVERDATA then svc_serverdata data idx msgs c
      else if cmd = SVC_CONFIGSTRING then svc_configstring data idx msgs c
      else if cmd = SVC_SPAWNBASELINE then svc_spawnbaseline data idx msgs c
      else if cmd = SVC_PRINT then svc_print data idx msgs c
      else if cmd = SVC_CENTERPRINT then svc_centerprint data idx msgs c
      else if cmd = SVC_STUFFTEXT then svc_stufftext data idx msgs c
      else if cmd = SVC_SOUND then svc_sound data idx msgs c
      else if cmd = SVC_DISCONNECT then Stop (Return (msgs @ [M_server_disconnect]) c)
      else if cmd = SVC_RECONNECT then Stop (Return (msgs @ [M_reconnect]) c)
      else if cmd = SVC_FRAME then svc_frame data idx msgs c
      else if cmd = SVC_PLAYERINFO \<or> cmd = SVC_PACKETENTITIES \<or> cmd = SVC_DELTAPACKETENTITIES
      then Stop (Return msgs c)
      else if cmd = SVC_DOWNLOAD then svc_download data idx msgs c
      else if cmd = SVC_ZPACKET then svc_zpacket inflate nested data idx msgs c
      else if cmd = SVC_GAMESTATE then svc_gamestate data idx msgs c
      else if cmd = SVC_SETTING then svc_setting data idx msgs c
      else if cmd = SVC_CONFIGSTRINGSTREAM \<or> cmd = SVC_BASELINESTREAM then Stop (Return msgs c)
      else if isNested then Next idx msgs c
      else Stop (Return msgs c))"

text \<open>
  One round of \<open>while (idx < data.length)\<close>: the opcode byte, the extended command
  byte after EXTEND, and the switch.
\<close>

definition parse_step :: "(bytes \<Rightarrow> bytes option) \<Rightarrow> (bytes \<Rightarrow> 'a dstate_scheme \<Rightarrow> 'a dstate_scheme outcome)
    \<Rightarrow> bytes \<Rightarrow> bool \<Rightarrow> nat \<Rightarrow> svcmsg list \<Rightarrow> 'a dstate_scheme
    \<Rightarrow> 'a dstate_scheme step" where
  "parse_step inflate nested data isNested idx msgs c =
     (let opcode = data ! idx; idx = idx + 1 in
      if idx > length data then Stop (Return msgs c)
      else
        let cmd = unat (opcode AND SVCMD_MASK);
            (cmd, idx) = (if cmd = SVC_EXTEND \<and> idx < length data
                          then (unat (data ! idx), idx + 1) else (cmd, idx))
        in svc_dispatch inflate nested data isNested cmd idx msgs c)"

text \<open>Every round of the opcode loop that goes on moves the cursor forward.\<close>

lemma readCString_mono: "k \<le> idx \<Longrightarrow> k \<le> snd (readCString d idx)"
  using readCString_next [of idx d] by simp

lemma svc_temp_entity_mono:
  "k \<le> idx \<Longrightarrow> svc_temp_entity d idx m c = Next idx' m' c' \<Longrightarrow> k \<le> idx'"
  by (auto simp: svc_temp_entity_def Let_def split: if_splits)

lemma serverdata_tail_mono:
  "k \<le> idx \<Longrightarrow> serverdata_tail p d idx c = Some (idx', c') \<Longrightarrow> k \<le> idx'"
  by (auto simp: serverdata_tail_def Let_def split: if_splits option.splits)

lemma svc_serverdata_mono:
  assumes "k \<le> idx" "k \<le> length d" "svc_serverdata d idx m c = Next idx' m' c'"
  shows "k \<le> idx'"
proof -
  let ?i1 = "snd (readCString d (idx + 4 + 4 + 1))"
  let ?i2 = "snd (readInt16 d ?i1)"
  let ?i3 = "snd (readCString d ?i2)"
  have 1: "k \<le> ?i1" using assms(1) by (intro readCString_mono) simp
  have 2: "k \<le> ?i2" using 1 assms(2) by (intro readInt16_mono)
  have 3: "k \<le> ?i3" using 2 by (intro readCString_mono)
  from assms(3) obtain p cc where "serverdata_tail p d ?i3 cc = Some (idx', c')"
    by (auto simp: svc_serverdata_def Let_def split: if_splits option.splits prod.splits)
  with 3 show ?thesis by (rule serverdata_tail_mono)
qed

lemma svc_configstring_mono:
  "k \<le> idx \<Longrightarrow> svc_configstring d idx m c = Next idx' m' c' \<Longrightarrow> k \<le> idx'"
  using readCString_mono [of k "idx + 2" d]
  by (auto simp: svc_configstring_def Let_def split: if_splits option.splits prod.splits)

lemma svc_spawnbaseline_mono:
  assumes "k \<le> idx" "k \<le> length d" "svc_spawnbaseline d idx m c = Next idx' m' c'"
  shows "k \<le> idx'"
proof (cases "idx < length d")
  case True
  obtain bits i1 where b: "parseEntityBits d idx = (bits, i1)" by (cases "parseEntityBits d idx")
  obtain n i2 where n: "readEntityNum d i1 bits = (n, i2)" by (cases "readEntityNum d i1 bits")
  from parseEntityBits_progress [OF True] b assms(1) have i1: "k \<le> i1" by auto
  from readEntityNum_mono [OF assms(2) i1, of bits] n have i2: "k \<le> i2" by simp
  from assms(3) b n have "idx' = i1 \<or> (\<exists>bl tt. idx' = pos (parseEntityStateFromBits d i2 bits bl n tt))"
    by (auto simp: svc_spawnbaseline_def Let_def split: if_splits prod.splits)
  then show ?thesis using i1 parseEntityStateFromBits_mono [OF assms(2) i2] by auto
next
  case False
  then have "parseEntityBits d idx = (0, idx)" by (simp add: parseEntityBits_def)
  with assms show ?thesis by (simp add: svc_spawnbaseline_def)
qed

lemma svc_print_mono:
  "k \<le> idx \<Longrightarrow> svc_print d idx m c = Next idx' m' c' \<Longrightarrow> k \<le> idx'"
  using readCString_mono [of k "idx + 1" d]
  by (auto simp: svc_print_def Let_def split: if_splits option.splits prod.splits)

lemma svc_centerprint_mono:
  "k \<le> idx \<Longrightarrow> svc_centerprint d idx m c = Next idx' m' c' \<Longrightarrow> k \<le> idx'"
  using readCString_mono [of k "idx" d]
  by (auto simp: svc_centerprint_def Let_def split: if_splits option.splits prod.splits)

lemma svc_stufftext_mono:
  "k \<le> idx \<Longrightarrow> svc_stufftext d idx m c = Next idx' m' c' \<Longrightarrow> k \<le> idx'"
  using readCString_mono [of k "idx" d]
  by (auto simp: svc_stufftext_def Let_def split: if_splits option.splits prod.splits)

lemma svc_sound_mono:
  "k \<le> idx \<Longrightarrow> svc_sound d idx m c = Next idx' m' c' \<Longrightarrow> k \<le> idx'"
  unfolding svc_sound_def
  by (auto simp: Let_def split: if_split_asm)

lemma frame_rest_le:
  "frame_rest d idx c = Some (idx', f, c') \<Longrightarrow> idx \<le> idx'"
  by (auto simp: frame_rest_def Let_def split: if_splits)

lemma frame_head_mono:
  assumes "k \<le> idx" "frame_head d idx c = Some (idx', f, c')"
  shows "k \<le> idx'"
  using assms
  by (auto simp: frame_head_def Let_def split: if_splits option.splits dest!: frame_rest_le)

lemma packetEntity_break:
  assumes "idx < length d" "packetEntity d idx ups t = Inl i"
  shows "idx < i"
proof -
  obtain bits i1 where b: "parseEntityBits d idx = (bits, i1)" by (cases "parseEntityBits d idx")
  obtain n i2 where n: "readEntityNum d i1 bits = (n, i2)" by (cases "readEntityNum d i1 bits")
  from parseEntityBits_progress [OF assms(1)] b have i1: "Suc idx \<le> i1" by auto
  have k: "Suc idx \<le> length d" using assms(1) by simp
  from readEntityNum_mono [OF k i1, of bits] n have i2: "Suc idx \<le> i2" by simp
  from assms(2) b n have "i = i1 \<or> i = i2"
    by (auto simp: packetEntity_def Let_def split: if_splits prod.splits)
  with i1 i2 show ?thesis by auto
qed

lemma packetEntities_loop_mono:
  "k \<le> idx \<Longrightarrow> k \<le> fst (snd (packetEntities_loop d idx ups t))"
proof (induction d idx ups t rule: packetEntities_loop.induct)
  case (1 data idx updates t)
  show ?case
  proof (cases "idx < length data")
    case False
    with 1(2) show ?thesis by simp
  next
    case True
    show ?thesis
    proof (cases "packetEntity data idx updates t")
      case (Inl i)
      with True 1(2) packetEntity_break [OF True Inl] show ?thesis by simp
    next
      case (Inr r)
      obtain i y where r: "(i, y) = r" by (cases r) auto
      obtain ups' t' where y: "(ups', t') = y" by (cases y) auto
      from packetEntity_progress [OF True, of updates t i ups' t'] Inr r y 1(2)
      have "k \<le> i" by simp
      from 1(1) [OF True Inr r y this] True Inr r y show ?thesis by auto
    qed
  qed
qed

lemma svc_frame_mono:
  assumes "k \<le> idx" "k \<le> length d" "svc_frame d idx m c = Next idx' m' c'"
  shows "k \<le> idx'"
proof -
  from assms(3) obtain i f cc where h: "frame_head d idx c = Some (i, f, cc)"
    by (auto simp: svc_frame_def split: if_splits option.splits)
  from frame_head_mono [OF assms(1) h] have i: "k \<le> i" .
  define j where "j = (if f \<noteq> 0 \<and> i < length d then parsePlayerState d i f else i)"
  have j: "k \<le> j" using i parsePlayerState_mono [OF assms(2) i] by (simp add: j_def)
  from assms(3) h have "idx' = j \<or> idx' = fst (snd (parsePacketEntities d j (entityTracker cc)))"
    by (auto simp: svc_frame_def Let_def j_def split: if_splits prod.splits)
  with j packetEntities_loop_mono [OF j] show ?thesis
    by (auto simp: parsePacketEntities_def)
qed

lemma svc_download_mono:
  "k \<le> idx \<Longrightarrow> svc_download d idx m c = Next idx' m' c' \<Longrightarrow> k \<le> idx'"
  by (auto simp: svc_download_def Let_def split: if_splits option.splits)

lemma svc_zpacket_mono:
  "k \<le> idx \<Longrightarrow> svc_zpacket infl nst d idx m c = Next idx' m' c' \<Longrightarrow> k \<le> idx'"
  by (auto simp: svc_zpacket_def Let_def split: if_splits option.splits outcome.splits)

lemma svc_dispatch_mono:
  assumes "k \<le> idx" "k \<le> length d" "svc_dispatch infl nst d isN cmd idx m c = Next idx' m' c'"
  shows "k \<le> idx'"
  using assms readCString_mono [of k idx d]
  by (auto simp: svc_dispatch_def svc_gamestate_def svc_setting_def
           split: if_splits option.splits
           dest: svc_temp_entity_mono svc_serverdata_mono svc_configstring_mono
             svc_spawnbaseline_mono svc_print_mono svc_centerprint_mono svc_stufftext_mono
             svc_sound_mono svc_frame_mono svc_download_mono svc_zpacket_mono)

lemma parse_step_progress:
  assumes "idx < length d" "parse_step infl nst d isN idx m c = Next idx' m' c'"
  shows "idx < idx'"
proof -
  have k: "Suc idx \<le> length d" using assms(1) by simp
  have *: "idx < idx'" if "Suc idx \<le> i" "svc_dispatch infl nst d isN cmd i m c = Next idx' m' c'"
    for cmd i
    using svc_dispatch_mono [OF that(1) k that(2)] by simp
  from assms(2) show ?thesis
    by (auto simp: parse_step_def Let_def split: if_splits prod.splits dest!: * [rotated])
qed


function parse_loop :: "(bytes \<Rightarrow> bytes option)
    \<Rightarrow> (bytes \<Rightarrow> 'a dstate_scheme \<Rightarrow> 'a dstate_scheme outcome)
    \<Rightarrow> bytes \<Rightarrow> bool \<Rightarrow> nat \<Rightarrow> svcmsg list \<Rightarrow> 'a dstate_scheme
    \<Rightarrow> 'a dstate_scheme outcome" where
  "parse_loop inflate nested data isNested idx msgs c =
     (if idx < length data
      then (case parse_step inflate nested data isNested idx msgs c of
              Stop r \<Rightarrow> r
            | Next idx' msgs' c' \<Rightarrow> parse_loop inflate nested data isNested idx' msgs' c')
      else Return msgs c)"
  by pat_completeness auto
termination
  by (relation "measure (\<lambda>(inflate, nested, data, isNested, idx, msgs, c). length data - idx)")
     (auto dest: parse_step_progress intro!: diff_less_mono2)

text \<open>
  \<open>parseGameMessage(data, isNested)\<close>. The call recurses into the inflated body of a
  ZPACKET, whose size is not bounded by the size of the packet, so the model carries the
  number of nested calls it follows: with \<open>depth\<close> = n + 1 the call itself and n levels
  of ZPACKET inside it are followed, and a deeper nesting gives \<open>OutOfFuel\<close>.
\<close>

fun parseGameMessage :: "(bytes \<Rightarrow> bytes option) \<Rightarrow> nat \<Rightarrow> bytes \<Rightarrow> bool
    \<Rightarrow> 'a dstate_scheme \<Rightarrow> 'a dstate_scheme outcome" where
  "parseGameMessage inflate 0 data isNested c = OutOfFuel"
| "parseGameMessage inflate (Suc depth) data isNested c =
     parse_loop inflate (\<lambda>d c'. parseGameMessage inflate depth d True c') data isNested 0 [] c"

text \<open>
  \<open>processServerData\<close>. Both inflate attempts, with the parse of their result, are
  inside \<open>try\<close> blocks whose \<open>catch\<close> falls through to the next attempt.
\<close>

definition try_inflated :: "(bytes \<Rightarrow> bytes option) \<Rightarrow> nat \<Rightarrow> bytes
    \<Rightarrow> 'a dstate_scheme \<Rightarrow> 'a dstate_scheme outcome option" where
  "try_inflated inflate depth compressed c =
     (case inflate compressed of
        None \<Rightarrow> None
      | Some decompressed \<Rightarrow>
          if length decompressed > 0
          then (case parseGameMessage inflate depth decompressed False c of
                  Throw \<Rightarrow> None
                | r \<Rightarrow> Some r)
          else None)"

definition processServerData :: "(bytes \<Rightarrow> bytes option) \<Rightarrow> nat \<Rightarrow> bytes
    \<Rightarrow> 'a dstate_scheme \<Rightarrow> 'a dstate_scheme outcome" where
  "processServerData inflate depth data c =
     (if length data < 5 then parseGameMessage inflate depth data False c
      else
        let firstByte = data ! 0 in
        if unat firstByte \<ge> SVC_NOP \<and> unat firstByte \<le> SVC_CVARSYNC
        then parseGameMessage inflate depth data False c
        else if firstByte = 0 \<or> firstByte AND 0x80 \<noteq> 0
        then
          (case try_inflated inflate depth data c of
             Some r \<Rightarrow> r
           | None \<Rightarrow>
               (case (if length data \<ge> 4
                      then (case (readUInt16LE data 0, readUInt16LE data 2) of
                              (Some inlen, Some outlen) \<Rightarrow>
                                if unat inlen > 0 \<and> int (unat inlen) < int (length data) - 4
                                   \<and> unat outlen > 0 \<and> unat outlen < 65536
                                then try_inflated inflate depth (slice data 4 (4 + unat inlen)) c
                                else None
                            | _ \<Rightarrow> Some Throw)
                      else None) of
                  Some r \<Rightarrow> r
                | None \<Rightarrow> parseGameMessage inflate depth data False c))
        else parseGameMessage inflate depth data False c)"

section \<open>The client\<close>

text \<open>
  Events are collected in \<open>emitted\<close>, datagrams given to \<open>socket.send\<close> in
  \<open>sent\<close> (they all go to the configured server address), and \<open>setTimeout\<close>
  calls in \<open>timers\<close> with their delay; the two \<open>setInterval\<close> handles are the
  period of the running interval or \<open>None\<close>. Event time stamps are left out.
  \<open>handleServerPacket\<close> runs as the message callback of the open socket and nothing
  it reaches closes the socket, so \<open>this.socket\<close> is not modelled.
\<close>

record player =
  score :: "int option"
  ping :: "int option"
  pname :: string

record status =
  info :: "string \<rightharpoonup> string"
  players :: "player list"

datatype evdata =
    EvStatus string
  | EvStatusReason string string
  | EvSpawnedPassive
  | EvReconnecting string nat nat nat
  | EvConsole string string
  | EvMapChange "string option" string
  | EvConnected string string int
  | EvPlayerInfo nat string
  | EvMapName string
  | EvPlayerJoin string "int option"
  | EvPlayerLeave string
  | EvServerStatus string string nat int string "player list"

datatype timer =
    T_connectToServer "int option"
  | T_sendNewCommand
  | T_requestChallenge
  | T_sendBeginCommand

record client = dstate +
  passiveMode :: bool
  debug :: bool
  playerName :: string
  isConnected :: bool
  connectionState :: string
  reconnectAttempts :: nat
  maxReconnectAttempts :: nat
  clientChallengeId :: int
  clientQport :: int
  netchanType :: int
  incomingSequence :: nat
  incomingAcknowledged :: nat
  incomingReliableAcknowledged :: int
  incomingReliableSequence :: int
  outgoingSequence :: nat
  reliableSequence :: int
  lastReliableSequence :: nat
  fragmentSequence :: nat
  fragmentBuffer :: bytes
  serverCount :: int
  spawnCount :: int
  currentMapName :: string
  configStrings :: "nat \<rightharpoonup> string"
  playerNames :: "nat \<rightharpoonup> string"
  hasSentNew :: bool
  hasSentBegin :: bool
  precacheReceived :: bool
  hasServerData :: bool
  respondedVersion :: bool
  respondedAcToken :: bool
  sentConfigstrings :: bool
  sentBaselines :: bool
  pendingCommands :: "string list"
  awaitingBegin :: bool
  heartbeatInterval :: "nat option"
  keepAliveInterval :: "nat option"
  lastPacketTime :: nat
  lastServerStatus :: "status option"
  sent :: "bytes list"
  emitted :: "(string \<times> evdata) list"
  timers :: "(nat \<times> timer) list"

definition emitEvent :: "string \<Rightarrow> evdata \<Rightarrow> client \<Rightarrow> client" where
  "emitEvent type ev c =
     c\<lparr>emitted := emitted c @ [(type, ev)] @ (if debug c then [(''raw_message'', ev)] else [])\<rparr>"

definition setTimeout :: "timer \<Rightarrow> nat \<Rightarrow> client \<Rightarrow> client" where
  "setTimeout action delay c = c\<lparr>timers := timers c @ [(delay, action)]\<rparr>"

definition socket_send :: "bytes \<Rightarrow> client \<Rightarrow> client" where
  "socket_send packet c = c\<lparr>sent := sent c @ [packet]\<rparr>"

subsection \<open>Packet construction\<close>

definition createOOBPacket :: "string \<Rightarrow> bytes" where
  "createOOBPacket command = [0xff, 0xff, 0xff, 0xff] @ ascii_bytes (command @ [CHR 0x0A])"

definition userinfo :: "client \<Rightarrow> string" where
  "userinfo c = concat [[CHR 0x5C] @ ''name'' @ [CHR 0x5C] @ playerName c,
     [CHR 0x5C] @ ''skin'' @ [CHR 0x5C] @ ''male/grunt'',
     [CHR 0x5C] @ ''rate'' @ [CHR 0x5C] @ ''25000'',
     [CHR 0x5C] @ ''msg'' @ [CHR 0x5C] @ ''1'',
     [CHR 0x5C] @ ''hand'' @ [CHR 0x5C] @ ''2'',
     [CHR 0x5C] @ ''fov'' @ [CHR 0x5C] @ ''90'',
     [CHR 0x5C] @ ''spectator'' @ [CHR 0x5C] @ ''1'']"

text \<open>
  \<open>createConnectPacket(challenge)\<close>, called without a protocol: \<open>protocol ||
  this.serverProtocol || VERSION_DEFAULT\<close> and \<open>challenge || this.clientChallengeId\<close>,
  where 0 is falsy.
\<close>

definition createConnectPacket :: "int \<Rightarrow> client \<Rightarrow> bytes" where
  "createConnectPacket challenge c =
     (let protocol = (if serverProtocol c \<noteq> 0 then serverProtocol c else VERSION_DEFAULT);
          challengeId = (if challenge \<noteq> 0 then challenge else clientChallengeId c);
          head = ''connect '' @ show_int protocol @ '' '' @ show_int (clientQport c) @ '' ''
                   @ show_int challengeId @ '' '' @ [CHR 0x22] @ userinfo c @ [CHR 0x22];
          connectCommand =
            (if protocol = VERSION_Q2PRO
             then head @ '' 1390 '' @ show_int (netchanType c) @ '' 1 1024''
             else if protocol = VERSION_AQTION
             then head @ '' 1390 '' @ show_int (netchanType c) @ '' 1 3015''
             else if protocol = VERSION_R1Q2
             then head @ '' 1390 1905''
             else head)
      in createOOBPacket connectCommand)"

definition le32_bytes :: "32 word \<Rightarrow> bytes" where
  "le32_bytes w = [ucast w, ucast (drop_bit 8 w), ucast (drop_bit 16 w), ucast (drop_bit 24 w)]"

definition le16_bytes :: "16 word \<Rightarrow> bytes" where
  "le16_bytes w = [ucast w, ucast (drop_bit 8 w)]"

text \<open>
  \<open>createSequencedPacket(data, reliable)\<close>: the packet and the state with the
  sequence counters moved. The header words are written as unsigned 32-bit values.
\<close>

definition createSequencedPacket :: "bytes option \<Rightarrow> bool \<Rightarrow> client \<Rightarrow> bytes \<times> client" where
  "createSequencedPacket data rel c =
     (let w1 = (word_of_nat (outgoingSequence c) :: 32 word);
          (w1, c) = (if rel
                     then (w1 OR 0x80000000,
                           c\<lparr>reliableSequence := reliableSequence c XOR 1,
                             lastReliableSequence := outgoingSequence c\<rparr>)
                     else (w1, c));
          w2 = (word_of_nat (incomingSequence c) :: 32 word);
          w2 = (if incomingReliableSequence c \<noteq> 0 then w2 OR 0x80000000 else w2);
          qport = (if serverProtocol c \<ge> VERSION_R1Q2
                   then [word_of_int (clientQport c) AND 0xff]
                   else le16_bytes (word_of_int (clientQport c) AND 0xffff));
          payload = (case data of None \<Rightarrow> [] | Some d \<Rightarrow> if length d > 0 then d else [])
      in (le32_bytes w1 @ le32_bytes w2 @ qport @ payload,
          c\<lparr>outgoingSequence := outgoingSequence c + 1\<rparr>))"

definition sendSequencedResponse :: "bytes option \<Rightarrow> bool \<Rightarrow> client \<Rightarrow> client" where
  "sendSequencedResponse data rel c =
     (if \<not> isConnected c then c
      else let (packet, c) = createSequencedPacket data rel c in socket_send packet c)"

definition CLC_STRINGCMD :: byte where "CLC_STRINGCMD = 4"

definition sendStringCmd :: "string \<Rightarrow> client \<Rightarrow> client" where
  "sendStringCmd cmd c =
     (if \<not> isConnected c then c
      else
        let cleanCmd = trim (filter (\<lambda>ch. ch \<noteq> CHR 0x0D \<and> ch \<noteq> CHR 0x0A) cmd);
            cmdBuffer = [CLC_STRINGCMD] @ ascii_bytes cleanCmd @ [0];
            (packet, c) = createSequencedPacket (Some cmdBuffer) True c
        in socket_send packet c)"

subsection \<open>Connection management\<close>

definition requestChallenge :: "client \<Rightarrow> client" where
  "requestChallenge c =
     (let c = c\<lparr>connectionState := ''challenging''\<rparr>;
          c = emitEvent ''connection'' (EvStatus ''connecting'') c
      in socket_send (createOOBPacket ''getchallenge'') c)"

text \<open>\<open>connectToServer(challengeId)\<close>: \<open>NaN\<close> and 0 are falsy.\<close>

definition connectToServer :: "int option \<Rightarrow> client \<Rightarrow> client" where
  "connectToServer challengeId c =
     (let c = (case challengeId of
                 Some n \<Rightarrow> if n \<noteq> 0 then c\<lparr>clientChallengeId := n\<rparr> else c
               | None \<Rightarrow> c);
          c = c\<lparr>connectionState := ''connecting''\<rparr>
      in socket_send (createConnectPacket (clientChallengeId c) c) c)"

definition sendNewCommand :: "client \<Rightarrow> client" where
  "sendNewCommand c =
     (if hasSentNew c then c else sendStringCmd ''new'' (c\<lparr>hasSentNew := True\<rparr>))"

definition sendBeginCommand :: "client \<Rightarrow> client" where
  "sendBeginCommand c =
     (if hasSentBegin c then c
      else
        let c = c\<lparr>hasSentBegin := True\<rparr>;
            beginCount = (if spawnCount c \<noteq> 0 then spawnCount c else serverCount c);
            c = sendStringCmd (''begin '' @ show_int beginCount) c;
            c = c\<lparr>connectionState := ''spawned''\<rparr>
        in emitEvent ''connection'' (EvStatus ''spawned'') c)"

text \<open>What a timer does when it fires.\<close>

fun run_timer :: "timer \<Rightarrow> client \<Rightarrow> client" where
  "run_timer (T_connectToServer challengeId) c = connectToServer challengeId c"
| "run_timer T_sendNewCommand c = sendNewCommand c"
| "run_timer T_requestChallenge c = requestChallenge c"
| "run_timer T_sendBeginCommand c = sendBeginCommand c"

definition startHeartbeat :: "client \<Rightarrow> client" where
  "startHeartbeat c =
     c\<lparr>heartbeatInterval := Some (if connectionState c = ''spawned'' then 100 else 300),
       keepAliveInterval := Some 10000\<rparr>"

definition resetConnectionState :: "client \<Rightarrow> client" where
  "resetConnectionState c =
     c\<lparr>hasSentNew := False, hasSentBegin := False, precacheReceived := False,
       hasServerData := False,
       incomingSequence := 0, incomingAcknowledged := 0, incomingReliableAcknowledged := 0,
       incomingReliableSequence := 0, outgoingSequence := 1, reliableSequence := 0,
       lastReliableSequence := 0,
       lastFrameNum := - 1, configStrings := Map.empty, playerNames := Map.empty,
       respondedVersion := False, respondedAcToken := False, sentConfigstrings := False,
       sentBaselines := False, currentMapName := [],
       pendingCommands := [], awaitingBegin := False,
       entityTracker := tracker_reset (entityTracker c)\<rparr>"

definition handleDisconnect :: "string \<Rightarrow> client \<Rightarrow> client" where
  "handleDisconnect reason c =
     (let c = c\<lparr>isConnected := False, connectionState := ''disconnected'',
                heartbeatInterval := None, keepAliveInterval := None\<rparr>
      in if reconnectAttempts c < maxReconnectAttempts c
         then
           (let c = c\<lparr>reconnectAttempts := reconnectAttempts c + 1\<rparr>;
                delay = min (5000 * reconnectAttempts c) 30000;
                c = emitEvent ''connection''
                      (EvReconnecting reason (reconnectAttempts c) (maxReconnectAttempts c) delay) c;
                c = resetConnectionState c
            in setTimeout T_requestChallenge delay c)
         else emitEvent ''connection''
                (EvStatusReason ''disconnected'' ''max_reconnect_attempts'') c)"

subsection \<open>Stufftext\<close>

definition is_dec :: "char \<Rightarrow> bool" where
  "is_dec ch = (let n = (of_char ch :: nat) in 48 \<le> n \<and> n \<le> 57)"

text \<open>
  \<open>cmd.match(/cmd configstrings\s*(\d*)/)\<close> on a string that starts with the literal:
  the match is at index 0, and group 1 is the digits after the white space, possibly
  empty. The same for \<open>cmd baselines\<close>.
\<close>

definition digits_after :: "string \<Rightarrow> string \<Rightarrow> string" where
  "digits_after literal cmd = takeWhile is_dec (dropWhile js_ws (drop (length literal) cmd))"

text \<open>
  \<open>cmd.match(/precache\s+(\d+)/)\<close>: the leftmost position where the literal is
  followed by at least one white-space character and at least one digit; group 1 is the
  run of digits. \<open>None\<close> is no match.
\<close>

fun match_precache :: "string \<Rightarrow> string option" where
  "match_precache [] = None"
| "match_precache (ch # cs) =
     (let r = drop (length ''precache'') (ch # cs);
          d = takeWhile is_dec (dropWhile js_ws r)
      in if startsWith (ch # cs) ''precache'' \<and> takeWhile js_ws r \<noteq> [] \<and> d \<noteq> []
         then Some d else match_precache cs)"

definition processPendingCommands :: "client \<Rightarrow> client" where
  "processPendingCommands c =
     (if pendingCommands c = [] \<and> \<not> awaitingBegin c then c
      else
        let c = fold sendStringCmd (pendingCommands c) (c\<lparr>pendingCommands := []\<rparr>) in
        if awaitingBegin c \<and> \<not> hasSentBegin c
        then setTimeout T_sendBeginCommand 500 (c\<lparr>awaitingBegin := False\<rparr>)
        else c)"

definition precache_done :: "client \<Rightarrow> client" where
  "precache_done c =
     (if passiveMode c
      then emitEvent ''connection'' EvSpawnedPassive (c\<lparr>connectionState := ''spawned''\<rparr>)
      else c\<lparr>awaitingBegin := True\<rparr>)"

text \<open>
  One line of a stufftext; the flag is True when \<open>handleStufftext\<close> returns from
  inside the loop.
\<close>

definition stufftext_cmd :: "string \<Rightarrow> client \<Rightarrow> client \<times> bool" where
  "stufftext_cmd cmd c =
     (if str_includes cmd (CHR 0x7F # ''c version'') \<or> str_includes cmd ''c version $version''
      then
        (if \<not> respondedVersion c
         then c\<lparr>respondedVersion := True,
                pendingCommands := pendingCommands c
                  @ [CHR 0x7F # ''c version '' @ playerName c @ '' 1.0'']\<rparr>
         else c, False)
      else if str_includes cmd (CHR 0x7F # ''c actoken'') \<or> str_includes cmd ''c actoken $actoken''
      then
        (if \<not> respondedAcToken c
         then c\<lparr>respondedAcToken := True,
                pendingCommands := pendingCommands c @ [CHR 0x7F # ''c actoken 0'']\<rparr>
         else c, False)
      else if str_includes cmd (CHR 0x7F # ''c check'') \<or> str_includes cmd ''c check''
      then (c\<lparr>pendingCommands := pendingCommands c @ [CHR 0x7F # ''c check 0'']\<rparr>, False)
      else if startsWith cmd ''cmd configstrings''
      then
        (let m = digits_after ''cmd configstrings'' cmd;
             offset = (if m \<noteq> [] then m else ''0'')
         in (if \<not> sentConfigstrings c
             then c\<lparr>sentConfigstrings := True,
                    pendingCommands := pendingCommands c @ [''configstrings '' @ offset]\<rparr>
             else c, False))
      else if startsWith cmd ''cmd baselines''
      then
        (let m = digits_after ''cmd baselines'' cmd;
             offset = (if m \<noteq> [] then m else ''0'')
         in (if \<not> sentBaselines c
             then c\<lparr>sentBaselines := True,
                    pendingCommands := pendingCommands c @ [''baselines '' @ offset]\<rparr>
             else c, False))
      else if startsWith cmd ''precache'' \<and> \<not> precacheReceived c
      then
        (let c = c\<lparr>precacheReceived := True\<rparr>;
             c = (case match_precache cmd of
                    Some d \<Rightarrow> c\<lparr>spawnCount := int (digits_value 10 d)\<rparr>
                  | None \<Rightarrow> c\<lparr>spawnCount := serverCount c\<rparr>)
         in (precache_done c, False))
      else if cmd = ''skins'' \<and> \<not> precacheReceived c
      then (precache_done (c\<lparr>precacheReceived := True, spawnCount := serverCount c\<rparr>), False)
      else if cmd = ''reconnect'' \<or> startsWith cmd ''reconnect''
      then
        (let c = emitEvent ''connection'' (EvStatusReason ''reconnecting'' ''server_request'') c;
             c = resetConnectionState c
         in (setTimeout T_requestChallenge 500 c, True))
      else if cmd = ''disconnect''
      then (handleDisconnect ''server_request'' c, True)
      else (c, False))"

fun stufftext_lines :: "string list \<Rightarrow> client \<Rightarrow> client \<times> bool" where
  "stufftext_lines [] c = (c, False)"
| "stufftext_lines (line # rest) c =
     (let cmd = trim line in
      if cmd = [] then stufftext_lines rest c
      else (case stufftext_cmd cmd c of
              (c', True) \<Rightarrow> (c', True)
            | (c', False) \<Rightarrow> stufftext_lines rest c'))"

definition handleStufftext :: "string \<Rightarrow> client \<Rightarrow> client" where
  "handleStufftext text c =
     (case stufftext_lines (split_on CHR 0x0A text) c of
        (c', True) \<Rightarrow> c'
      | (c', False) \<Rightarrow> processPendingCommands c')"

subsection \<open>Status responses\<close>

text \<open>
  \<open>playerLine.match(/^(-?\d+)\s+(\d+)\s+"(.+)"$/)\<close>: score, ping and the name between
  the first quote after the ping and a closing quote at the end of the line; \<open>.\<close> does
  not match a line terminator, of which a latin-1 line can hold CR.
\<close>

definition match_player :: "string \<Rightarrow> (string \<times> string \<times> string) option" where
  "match_player line =
     (let sign = (if startsWith line ''-'' then ''-'' else []);
          r = drop (length sign) line;
          d1 = takeWhile is_dec r; r = dropWhile is_dec r;
          w1 = takeWhile js_ws r; r = dropWhile js_ws r;
          d2 = takeWhile is_dec r; r = dropWhile is_dec r;
          w2 = takeWhile js_ws r; r = dropWhile js_ws r
      in if d1 \<noteq> [] \<and> w1 \<noteq> [] \<and> d2 \<noteq> [] \<and> w2 \<noteq> [] \<and> length r \<ge> 3
            \<and> hd r = CHR 0x22 \<and> last r = CHR 0x22
            \<and> CHR 0x0D \<notin> set (butlast (tl r)) \<and> CHR 0x0A \<notin> set (butlast (tl r))
         then Some (sign @ d1, d2, butlast (tl r))
         else None)"

text \<open>
  The info line: the non-empty pieces between backslashes, taken in pairs. An assignment
  to the key \<open>__proto__\<close> of an object literal does not create a property.
\<close>

fun info_pairs :: "string list \<Rightarrow> (string \<rightharpoonup> string) \<Rightarrow> (string \<rightharpoonup> string)" where
  "info_pairs (k # v # rest) m =
     info_pairs rest (if k = ''__proto__'' then m else m(k \<mapsto> v))"
| "info_pairs _ m = m"

definition parseStatusResponse :: "string \<Rightarrow> status" where
  "parseStatusResponse content =
     (let lines = split_on CHR 0x0A content;
          inf = (if length lines \<ge> 2
                 then info_pairs (filter (\<lambda>p. p \<noteq> []) (split_on CHR 0x5C (lines ! 1))) Map.empty
                 else Map.empty);
          ps = concat (map (\<lambda>l. let playerLine = trim l in
                              if playerLine = [] then []
                              else (case match_player playerLine of
                                      None \<Rightarrow> []
                                    | Some (sc, pg, nm) \<Rightarrow>
                                        [\<lparr>score = parseInt sc, ping = parseInt pg,
                                          pname = cleanQuakeString nm\<rparr>]))
                           (drop 2 lines))
      in \<lparr>info = inf, players = ps\<rparr>)"

definition handleStatusResponse :: "string \<Rightarrow> client \<Rightarrow> client" where
  "handleStatusResponse content c =
     (let st = parseStatusResponse content;
          c = (case lastServerStatus c of
                 Some old \<Rightarrow>
                   (let oldPlayers = set (map pname (players old));
                        newPlayers = set (map pname (players st));
                        c = fold (\<lambda>p c. if pname p \<notin> oldPlayers
                                         then emitEvent ''server_info'' (EvPlayerJoin (pname p) (ping p)) c
                                         else c) (players st) c;
                        c = fold (\<lambda>p c. if pname p \<notin> newPlayers
                                         then emitEvent ''server_info'' (EvPlayerLeave (pname p)) c
                                         else c) (players old) c
                    in (case info st ''mapname'' of
                          Some mp \<Rightarrow>
                            if info old ''mapname'' \<noteq> Some mp
                            then emitEvent ''server_info'' (EvMapChange (info old ''mapname'') mp) c
                            else c
                        | None \<Rightarrow> c))
               | None \<Rightarrow>
                   emitEvent ''server_info''
                     (EvServerStatus
                        (cleanQuakeString (case info st ''hostname'' of Some h \<Rightarrow> h
                                           | None \<Rightarrow> ''Quake 2 Server''))
                        (case info st ''mapname'' of Some mp \<Rightarrow> mp | None \<Rightarrow> ''unknown'')
                        (length (players st))
                        (case info st ''maxclients'' of
                           Some mc \<Rightarrow> (case parseInt mc of Some n \<Rightarrow> n | None \<Rightarrow> 0)
                         | None \<Rightarrow> 0)
                        (case info st ''game'' of Some g \<Rightarrow> g | None \<Rightarrow> ''baseq2'')
                        (players st)) c)
      in c\<lparr>lastServerStatus := Some st\<rparr>)"

subsection \<open>handleServerPacket\<close>

text \<open>
  The \<open>sequenced\<close> case up to the hand-over to the decoder. The result \<open>None\<close> is
  a \<open>return\<close> that ends the handler; otherwise the payload and \<open>hasData\<close> as they
  stand after reassembly go on to the decoder.
\<close>

definition netchan_fragment :: "seqpkt \<Rightarrow> client \<Rightarrow> client \<times> (bytes option \<times> bool) option" where
  "netchan_fragment p c =
     (let c = (if fragmentSequence c \<noteq> sequence p
               then c\<lparr>fragmentSequence := sequence p, fragmentBuffer := []\<rparr> else c)
      in if fragmentOffset p \<noteq> length (fragmentBuffer c) then (c, None)
         else
           let c = (case pdata p of
                      Some d \<Rightarrow> if length d > 0
                                then c\<lparr>fragmentBuffer := fragmentBuffer c @ d\<rparr> else c
                    | None \<Rightarrow> c)
           in if moreFragments p then (c, None)
              else (c\<lparr>fragmentBuffer := []\<rparr>,
                    Some (Some (fragmentBuffer c), length (fragmentBuffer c) > 0)))"

definition netchan_receive :: "seqpkt \<Rightarrow> client \<Rightarrow> client \<times> (bytes option \<times> bool) option" where
  "netchan_receive p c =
     (if sequence p \<le> incomingSequence c \<and> incomingSequence c > 0 \<and> \<not> fragmented p
      then (c, None)
      else
        let c = c\<lparr>incomingAcknowledged := ack p\<rparr>;
            c = (if reliableAck p \<noteq> (incomingReliableAcknowledged c = 1)
                 then c\<lparr>incomingReliableAcknowledged := (if reliableAck p then 1 else 0)\<rparr>
                 else c)
        in case (if fragmented p then netchan_fragment p c
                 else (c, Some (pdata p, hasData p))) of
             (c, None) \<Rightarrow> (c, None)
           | (c, Some payload) \<Rightarrow>
               (let c = c\<lparr>incomingSequence := sequence p\<rparr>;
                    c = (if reliable p
                         then c\<lparr>incomingReliableSequence := incomingReliableSequence c XOR 1\<rparr>
                         else c)
                in (c, Some payload)))"

definition PRINT_LEVELS :: "nat \<Rightarrow> string" where
  "PRINT_LEVELS level =
     (if level = 0 then ''LOW'' else if level = 1 then ''MEDIUM''
      else if level = 2 then ''HIGH'' else if level = 3 then ''CHAT'' else ''MSG'')"

text \<open>
  One message of the decoder; the flag is True when the handler returns from inside
  the loop over the messages.
\<close>

fun handle_message :: "svcmsg \<Rightarrow> client \<Rightarrow> client \<times> bool" where
  "handle_message (M_serverdata proto srvCount attractloop gameDir clientNum mapName) c =
     (if currentMapName c \<noteq> [] \<and> currentMapName c \<noteq> mapName
      then
        (let c = emitEvent ''server_info'' (EvMapChange (Some (currentMapName c)) mapName) c;
             c = c\<lparr>currentMapName := mapName, serverCount := srvCount, serverProtocol := proto,
                    hasSentNew := False, hasSentBegin := False, hasServerData := False,
                    respondedVersion := False, respondedAcToken := False,
                    pendingCommands := [], awaitingBegin := False,
                    lastFrameNum := - 1, spawnCount := 0, configStrings := Map.empty,
                    entityTracker := tracker_reset (entityTracker c)\<rparr>;
             c = setTimeout T_sendNewCommand 500 c
         in (sendSequencedResponse None False c, True))
      else
        (let c = emitEvent ''server_info'' (EvConnected mapName gameDir proto) c
         in (c\<lparr>currentMapName := mapName, hasServerData := True, serverCount := srvCount,
               serverProtocol := proto\<rparr>, False)))"
| "handle_message (M_configstring index text) c =
     (let c = c\<lparr>configStrings := (configStrings c)(index \<mapsto> text)\<rparr> in
      if index \<ge> 1408 \<and> index < 1664 \<and> text \<noteq> []
      then
        (let playerNum = index - 1408;
             name = hd (split_on CHR 0x5C text)
         in if name \<noteq> [] \<and> Some name \<noteq> playerNames c playerNum
            then (emitEvent ''server_info'' (EvPlayerInfo playerNum name)
                    (c\<lparr>playerNames := (playerNames c)(playerNum \<mapsto> name)\<rparr>), False)
            else (c, False))
      else if index = 0 \<and> text \<noteq> []
      then (emitEvent ''server_info'' (EvMapName text) c, False)
      else (c, False))"
| "handle_message (M_print level text) c =
     (if text \<noteq> [] then emitEvent ''console_message'' (EvConsole (PRINT_LEVELS level) text) c
      else c, False)"
| "handle_message (M_centerprint text) c =
     (if text \<noteq> [] then emitEvent ''console_message'' (EvConsole ''CENTER'' text) c
      else c, False)"
| "handle_message (M_stufftext text) c = (handleStufftext text c, False)"
| "handle_message M_server_disconnect c = (handleDisconnect ''server_disconnect'' c, True)"
| "handle_message M_reconnect c =
     (let c = emitEvent ''connection'' (EvStatus ''reconnecting'') c;
          c = resetConnectionState c
      in (setTimeout T_requestChallenge 1000 c, True))"
| "handle_message M_player_state c = (c, False)"
| "handle_message (M_entity_state n) c = (c, False)"

fun handle_messages :: "svcmsg list \<Rightarrow> client \<Rightarrow> client \<times> bool" where
  "handle_messages [] c = (c, False)"
| "handle_messages (m # ms) c =
     (case handle_message m c of
        (c', True) \<Rightarrow> (c', True)
      | (c', False) \<Rightarrow> handle_messages ms c')"

text \<open>
  What a call of \<open>handleServerPacket\<close> comes to: an exception that leaves the handler,
  a nesting of compressed packets deeper than the model follows, or the new state.
\<close>

datatype handled = Raised | Unfollowed | Handled client

definition handle_sequenced :: "(bytes \<Rightarrow> bytes option) \<Rightarrow> nat \<Rightarrow> seqpkt \<Rightarrow> client \<Rightarrow> handled" where
  "handle_sequenced inflate depth p c =
     (case netchan_receive p c of
        (c, None) \<Rightarrow> Handled c
      | (c, Some (payload, has)) \<Rightarrow>
          (case (if has then payload else None) of
             None \<Rightarrow> Handled (sendSequencedResponse None False c)
           | Some d \<Rightarrow>
               (case processServerData inflate depth d c of
                  Throw \<Rightarrow> Raised
                | OutOfFuel \<Rightarrow> Unfollowed
                | Return msgs c \<Rightarrow>
                    (case handle_messages msgs c of
                       (c, True) \<Rightarrow> Handled c
                     | (c, False) \<Rightarrow> Handled (sendSequencedResponse None False c)))))"

definition handle_challenge :: "int option \<Rightarrow> int option list \<Rightarrow> client \<Rightarrow> client" where
  "handle_challenge challengeId supportedProtocols c =
     (let c = (if length supportedProtocols > 0
               then
                 (if Some VERSION_AQTION \<in> set supportedProtocols
                  then c\<lparr>serverProtocol := VERSION_AQTION\<rparr>
                  else if Some VERSION_Q2PRO \<in> set supportedProtocols
                  then c\<lparr>serverProtocol := VERSION_Q2PRO\<rparr>
                  else if Some VERSION_R1Q2 \<in> set supportedProtocols
                  then c\<lparr>serverProtocol := VERSION_R1Q2\<rparr>
                  else if Some VERSION_DEFAULT \<in> set supportedProtocols
                  then c\<lparr>serverProtocol := VERSION_DEFAULT\<rparr>
                  else c)
               else c)
      in setTimeout (T_connectToServer challengeId) 100 c)"

text \<open>
  \<open>parseInt(parsed.params.nc) || 1\<close>: \<open>NaN\<close> and 0 give 1.
\<close>

definition handle_client_connect :: "(string \<times> string) list \<Rightarrow> client \<Rightarrow> client" where
  "handle_client_connect params c =
     (let c = (case map_of params ''nc'' of
                 Some nc \<Rightarrow>
                   c\<lparr>netchanType := (case parseInt nc of
                                          Some n \<Rightarrow> if n \<noteq> 0 then n else 1
                                        | None \<Rightarrow> 1)\<rparr>
               | None \<Rightarrow> c);
          c = c\<lparr>isConnected := True, connectionState := ''connected'', reconnectAttempts := 0\<rparr>;
          c = emitEvent ''connection'' (EvStatus ''connected'') c;
          c = startHeartbeat c
      in setTimeout T_sendNewCommand 200 c)"

text \<open>
  \<open>handleServerPacket(buffer)\<close>, with the clock reading as a parameter. The packet
  types \<open>ack\<close>, \<open>info\<close> and \<open>unknown_oob\<close> have no case in the \<open>switch\<close>.
\<close>

definition handleServerPacket :: "(bytes \<Rightarrow> bytes option) \<Rightarrow> nat \<Rightarrow> nat \<Rightarrow> bytes
    \<Rightarrow> client \<Rightarrow> handled" where
  "handleServerPacket inflate depth now buffer c =
     (let c = c\<lparr>lastPacketTime := now\<rparr> in
      case parseOOBPacket buffer of
        None \<Rightarrow> Handled c
      | Some (Challenge challengeId supportedProtocols) \<Rightarrow>
          Handled (handle_challenge challengeId supportedProtocols c)
      | Some (ClientConnect params msg) \<Rightarrow> Handled (handle_client_connect params c)
      | Some (PrintOOB msg) \<Rightarrow>
          Handled (if trim msg \<noteq> [] then emitEvent ''console_message'' (EvConsole ''SERVER'' msg) c
                   else c)
      | Some (DisconnectOOB reason) \<Rightarrow> Handled (handleDisconnect reason c)
      | Some (StatusResponse content) \<Rightarrow> Handled (handleStatusResponse content c)
      | Some SequencedError \<Rightarrow> Handled c
      | Some (Sequenced p) \<Rightarrow> handle_sequenced inflate depth p c
      | Some AckOOB \<Rightarrow> Handled c
      | Some (InfoOOB content) \<Rightarrow> Handled c
      | Some (UnknownOOB raw) \<Rightarrow> Handled c)"

subsection \<open>Public operations and the fresh client\<close>

definition Q2Client_getEntity :: "'a dstate_scheme \<Rightarrow> int \<Rightarrow> entity jsval" where
  "Q2Client_getEntity c entityNum = getEntity (entityTracker c) entityNum"

text \<open>
  The constructor, for the options it reads and the two numbers it draws at random.
\<close>

definition new_client :: "string \<Rightarrow> bool \<Rightarrow> bool \<Rightarrow> nat \<Rightarrow> int \<Rightarrow> int \<Rightarrow> client" where
  "new_client name passive dbg maxAttempts challenge qport =
     \<lparr>serverProtocol = VERSION_DEFAULT, serverProtocolMinor = 0, lastFrameNum = - 1,
      entityTracker = new_tracker,
      passiveMode = passive, debug = dbg, playerName = name,
      isConnected = False, connectionState = ''disconnected'',
      reconnectAttempts = 0, maxReconnectAttempts = maxAttempts,
      clientChallengeId = challenge, clientQport = qport, netchanType = 1,
      incomingSequence = 0, incomingAcknowledged = 0, incomingReliableAcknowledged = 0,
      incomingReliableSequence = 0, outgoingSequence = 1, reliableSequence = 0,
      lastReliableSequence = 0, fragmentSequence = 0, fragmentBuffer = [],
      serverCount = 0, spawnCount = 0, currentMapName = [],
      configStrings = Map.empty, playerNames = Map.empty,
      hasSentNew = False, hasSentBegin = False, precacheReceived = False,
      hasServerData = False, respondedVersion = False, respondedAcToken = False,
      sentConfigstrings = False, sentBaselines = False, pendingCommands = [],
      awaitingBegin = False, heartbeatInterval = None, keepAliveInterval = None,
      lastPacketTime = 0, lastServerStatus = None,
      sent = [], emitted = [], timers = []\<rparr>"

text \<open>The type tag of a classified packet, and the tags of the out-of-band kinds.\<close>

definition ptype :: "parsed \<Rightarrow> string" where
  "ptype r = (case r of Challenge _ _ \<Rightarrow> ''challenge'' | PrintOOB _ \<Rightarrow> ''print''
     | ClientConnect _ _ \<Rightarrow> ''client_connect'' | DisconnectOOB _ \<Rightarrow> ''disconnect''
     | AckOOB \<Rightarrow> ''ack'' | StatusResponse _ \<Rightarrow> ''statusResponse'' | InfoOOB _ \<Rightarrow> ''info''
     | UnknownOOB _ \<Rightarrow> ''unknown_oob'' | SequencedError \<Rightarrow> ''sequenced''
     | Sequenced _ \<Rightarrow> ''sequenced'')"

definition oob_types :: "string set" where
  "oob_types = {''challenge'', ''print'', ''client_connect'', ''disconnect'', ''ack'',
     ''statusResponse'', ''info'', ''unknown_oob''}"

subsection \<open>Packets in sequence, and concrete data\<close>

text \<open>
  Receiving datagrams one after another; the first that makes the handler raise (or
  leads deeper into compressed packets than the model follows) ends the run.
\<close>

fun handled_state :: "handled \<Rightarrow> client option" where
  "handled_state (Handled c) = Some c"
| "handled_state Raised = None"
| "handled_state Unfollowed = None"

fun receive_all :: "(bytes \<Rightarrow> bytes option) \<Rightarrow> nat \<Rightarrow> nat \<Rightarrow> bytes list \<Rightarrow> client
    \<Rightarrow> handled" where
  "receive_all inflate depth now [] c = Handled c"
| "receive_all inflate depth now (buffer # rest) c =
     (case handleServerPacket inflate depth now buffer c of
        Handled c' \<Rightarrow> receive_all inflate depth now rest c'
      | r \<Rightarrow> r)"

text \<open>An inflate that rejects every input, for payloads that hold nothing compressed.\<close>

definition no_inflate :: "bytes \<Rightarrow> bytes option" where
  "no_inflate compressed = None"

text \<open>A fresh client, and the same client once the server has accepted it.\<close>

definition client0 :: client where
  "client0 = new_client ''Q2Client'' False False 5 12345 7"

definition connected0 :: client where
  "connected0 = client0\<lparr>isConnected := True, connectionState := ''connected''\<rparr>"

text \<open>
  The netchan stage over a run of fragments that are all held back, the payload of a
  fragment, and the fragments of a run that are accepted: those whose offset is the
  length of what was accepted before them.
\<close>

definition feed :: "seqpkt list \<Rightarrow> client \<Rightarrow> client" where
  "feed ps c = fold (\<lambda>p c. fst (netchan_receive p c)) ps c"

definition payload :: "seqpkt \<Rightarrow> bytes" where
  "payload p = (case pdata p of Some d \<Rightarrow> d | None \<Rightarrow> [])"

fun accepted :: "nat \<Rightarrow> seqpkt list \<Rightarrow> bytes list" where
  "accepted n [] = []"
| "accepted n (p # ps) =
     (if fragmentOffset p = n then payload p # accepted (n + length (payload p)) ps
      else accepted n ps)"

text \<open>
  Datagrams: a duplicate-looking packet with sequence 0 and ack 5; a packet with
  sequence 2; the first fragment of sequence 7 (offset 0, more to come, two bytes), a
  late fragment of the same sequence (offset 5), and the first fragment again with the
  reliable flag set.
\<close>

definition pkt_seq0 :: bytes where "pkt_seq0 = [0, 0, 0, 0, 5, 0, 0, 0]"
definition pkt_seq2 :: bytes where "pkt_seq2 = [2, 0, 0, 0, 0, 0, 0, 0]"
definition frag1 :: bytes where "frag1 = [7, 0, 0, 0x40, 0, 0, 0, 0, 0x00, 0x80, 1, 2]"
definition frag_late :: bytes where "frag_late = [7, 0, 0, 0x40, 0, 0, 0, 0, 5, 0, 9]"
definition frag_rel :: bytes where "frag_rel = [7, 0, 0, 0xC0, 0, 0, 0, 0, 0x00, 0x80, 1, 2]"

text \<open>
  Two observations on a run of the decoder and of the message handlers: a round of the
  opcode loop leaves every field outside the decoder's four unchanged, and a client's
  reliable bit is a given value or 0. A reliable packet with sequence 1 that carries a
  single DISCONNECT opcode, and one that carries a NOP.
\<close>

definition keeps_more :: "'a dstate_scheme \<Rightarrow> 'a dstate_scheme step \<Rightarrow> bool" where
  "keeps_more c r =
     (case r of Next i m c' \<Rightarrow> dstate.more c' = dstate.more c
      | Stop (Return m c') \<Rightarrow> dstate.more c' = dstate.more c
      | Stop _ \<Rightarrow> True)"


definition rel_kept :: "int \<Rightarrow> client \<Rightarrow> bool" where
  "rel_kept v c = (incomingReliableSequence c = v \<or> incomingReliableSequence c = 0)"


definition pkt_rel_disconnect :: bytes where
  "pkt_rel_disconnect = [1, 0, 0, 0x80, 0, 0, 0, 0, 7]"


definition pkt_rel_nop :: bytes where
  "pkt_rel_nop = [1, 0, 0, 0x80, 0, 0, 0, 0, 6]"

text \<open>
  The wire form of a CONFIGSTRING record as the specification gives it: opcode 13, the
  index as a little-endian u16, the string, a NUL. The client has no encoder for it.
  \<open>printable\<close> is the range of characters \<open>cleanQuakeString\<close> keeps as they are.
\<close>

definition encode_configstring :: "nat \<Rightarrow> string \<Rightarrow> bytes" where
  "encode_configstring index s =
     [13] @ le16_bytes (word_of_nat index) @ ascii_bytes s @ [0]"

definition printable :: "char \<Rightarrow> bool" where
  "printable ch = (32 \<le> (of_char ch :: nat) \<and> (of_char ch :: nat) < 127)"

text \<open>The tracker after a series of packet-entities blocks, each parsed from its start.\<close>

definition entities_after :: "bytes list \<Rightarrow> tracker \<Rightarrow> tracker" where
  "entities_after blocks t = fold (\<lambda>d t. snd (snd (parsePacketEntities d 0 t))) blocks t"

text \<open>
  The wire form of a SERVERDATA record as the specification gives it, and the tail each
  extended protocol adds to it. The client has no encoder for them.
\<close>

definition encode_serverdata :: "32 word \<Rightarrow> 32 word \<Rightarrow> byte \<Rightarrow> string \<Rightarrow> 16 word \<Rightarrow> string
    \<Rightarrow> bytes" where
  "encode_serverdata proto srvCount attractloop gameDir clientNum mapName =
     [12] @ le32_bytes proto @ le32_bytes srvCount @ [attractloop]
       @ ascii_bytes gameDir @ [0] @ le16_bytes clientNum @ ascii_bytes mapName @ [0]"

definition tail_r1q2 :: "byte \<Rightarrow> 16 word \<Rightarrow> byte \<Rightarrow> byte \<Rightarrow> bytes" where
  "tail_r1q2 enhanced minor advancedDeltas strafejumpHack =
     [enhanced] @ le16_bytes minor @ [advancedDeltas, strafejumpHack]"

definition tail_q2pro :: "16 word \<Rightarrow> byte \<Rightarrow> 16 word \<Rightarrow> byte \<Rightarrow> byte \<Rightarrow> byte \<Rightarrow> bytes" where
  "tail_q2pro minor serverState flags strafejump qw waterjump =
     le16_bytes minor @ [serverState]
       @ (if uint minor \<ge> 1024 then le16_bytes flags else [strafejump, qw, waterjump])"

definition tail_aqtion :: "16 word \<Rightarrow> byte \<Rightarrow> byte \<Rightarrow> byte \<Rightarrow> byte \<Rightarrow> bytes" where
  "tail_aqtion minor serverState strafejump qw waterjump =
     le16_bytes minor @ [serverState, strafejump, qw, waterjump]"

text \<open>
  The SERVERDATA payload of a vanilla server (protocol 34, server count 1, game directory
  baseq2, client number 5, map q2dm1), and the datagram with sequence 1 that carries it.
\<close>

definition vanilla_serverdata :: bytes where
  "vanilla_serverdata = [0x0C, 0x22, 0, 0, 0, 0x01, 0, 0, 0, 0x00]
     @ ascii_bytes ''baseq2'' @ [0] @ [0x05, 0x00] @ ascii_bytes ''q2dm1'' @ [0]"

definition vanilla_packet :: bytes where
  "vanilla_packet = [1, 0, 0, 0, 0, 0, 0, 0] @ vanilla_serverdata"



text \<open>
  Challenge datagrams: with the protocol list 34,35,36,38, with the list 36, and with
  the list 37.
\<close>

definition challenge_packet :: bytes where
  "challenge_packet = [0xff, 0xff, 0xff, 0xff]
     @ ascii_bytes (''challenge 12345 p=34,35,36,38'' @ [CHR 0x0A])"

definition challenge_p36 :: bytes where
  "challenge_p36 = [0xff, 0xff, 0xff, 0xff] @ ascii_bytes (''challenge 12345 p=36'' @ [CHR 0x0A])"

definition challenge_p37 :: bytes where
  "challenge_p37 = [0xff, 0xff, 0xff, 0xff] @ ascii_bytes (''challenge 12345 p=37'' @ [CHR 0x0A])"

text \<open>
  Whether handling a stufftext command, the lines of a stufftext, a message, the messages
  of a payload or a whole sequenced packet calls \<open>resetConnectionState\<close>. The calls are
  in the \<open>reconnect\<close> message, in the stufftext command \<open>reconnect\<close>, and in
  \<open>handleDisconnect\<close> when another reconnect attempt is left, which the
  \<open>server_disconnect\<close> message and the stufftext command \<open>disconnect\<close> reach. Each
  follows the control flow of the handler it describes.
\<close>

definition cmd_resets :: "string \<Rightarrow> client \<Rightarrow> bool" where
  "cmd_resets cmd c =
     (if str_includes cmd (CHR 0x7F # ''c version'') \<or> str_includes cmd ''c version $version''
      then False
      else if str_includes cmd (CHR 0x7F # ''c actoken'') \<or> str_includes cmd ''c actoken $actoken''
      then False
      else if str_includes cmd (CHR 0x7F # ''c check'') \<or> str_includes cmd ''c check''
      then False
      else if startsWith cmd ''cmd configstrings'' then False
      else if startsWith cmd ''cmd baselines'' then False
      else if startsWith cmd ''precache'' \<and> \<not> precacheReceived c then False
      else if cmd = ''skins'' \<and> \<not> precacheReceived c then False
      else if cmd = ''reconnect'' \<or> startsWith cmd ''reconnect'' then True
      else if cmd = ''disconnect'' then reconnectAttempts c < maxReconnectAttempts c
      else False)"

fun lines_reset :: "string list \<Rightarrow> client \<Rightarrow> bool" where
  "lines_reset [] c = False"
| "lines_reset (line # rest) c =
     (let cmd = trim line in
      if cmd = [] then lines_reset rest c
      else (case stufftext_cmd cmd c of
              (c', True) \<Rightarrow> cmd_resets cmd c
            | (c', False) \<Rightarrow> lines_reset rest c'))"

fun message_resets :: "svcmsg \<Rightarrow> client \<Rightarrow> bool" where
  "message_resets M_reconnect c = True"
| "message_resets M_server_disconnect c = (reconnectAttempts c < maxReconnectAttempts c)"
| "message_resets (M_stufftext text) c = lines_reset (split_on CHR 0x0A text) c"
| "message_resets m c = False"

fun messages_reset :: "svcmsg list \<Rightarrow> client \<Rightarrow> bool" where
  "messages_reset [] c = False"
| "messages_reset (m # ms) c =
     (message_resets m c
      \<or> (case handle_message m c of
            (c', True) \<Rightarrow> False
          | (c', False) \<Rightarrow> messages_reset ms c'))"

definition packet_resets :: "(bytes \<Rightarrow> bytes option) \<Rightarrow> nat \<Rightarrow> seqpkt \<Rightarrow> client \<Rightarrow> bool" where
  "packet_resets inflate depth p c =
     (case netchan_receive p c of
        (c, None) \<Rightarrow> False
      | (c, Some (body, has)) \<Rightarrow>
          (case (if has then body else None) of
             None \<Rightarrow> False
           | Some d \<Rightarrow>
               (case processServerData inflate depth d c of
                  Return msgs c \<Rightarrow> messages_reset msgs c
                | _ \<Rightarrow> False)))"

text \<open>
  A handler result and the answer of the matching predicate agree on the reliable bit, and
  a reset ends the loop over the lines.
\<close>

definition reset_tracked :: "client \<Rightarrow> client \<times> bool \<Rightarrow> bool \<Rightarrow> bool" where
  "reset_tracked c r b =
     (incomingReliableSequence (fst r) = (if b then 0 else incomingReliableSequence c)
      \<and> (b \<longrightarrow> snd r))"



section \<open>Properties\<close>

subsection \<open>The entity table keeps its size\<close>

lemma fresh_table_length: "length (fst (fresh_table n t)) = n"
proof (induction n arbitrary: t)
  case 0
  show ?case by simp
next
  case (Suc n)
  obtain e u1 where c: "createEmptyEntity t = (e, u1)" by (cases "createEmptyEntity t")
  obtain r u2 where f: "fresh_table n u1 = (r, u2)" by (cases "fresh_table n u1")
  from Suc [of u1] f c show ?case by simp
qed

lemma tracker_reset_lengths:
  "length (entities (tracker_reset t)) = MAX_EDICTS"
  "length (baselines (tracker_reset t)) = MAX_EDICTS"
proof -
  obtain bs t1 where 1: "fresh_table MAX_EDICTS t = (bs, t1)"
    by (cases "fresh_table MAX_EDICTS t")
  obtain es t2 where 2: "fresh_table MAX_EDICTS (t1\<lparr>baselines := bs\<rparr>) = (es, t2)"
    by (cases "fresh_table MAX_EDICTS (t1\<lparr>baselines := bs\<rparr>)")
  have b: "length bs = MAX_EDICTS" using fresh_table_length [of MAX_EDICTS t] 1 by simp
  have e: "length es = MAX_EDICTS"
    using fresh_table_length [of MAX_EDICTS "t1\<lparr>baselines := bs\<rparr>"] 2 by simp
  have alloc_b: "baselines (snd (alloc v u)) = baselines u" for v u
    by (simp add: alloc_def)
  have cre_b: "baselines (snd (createEmptyEntity u)) = baselines u" for u
    by (simp add: createEmptyEntity_def alloc_def Let_def split: prod.splits)
  have tab_b: "baselines (snd (fresh_table n u)) = baselines u" for n u
  proof (induction n arbitrary: u)
    case 0
    show ?case by simp
  next
    case (Suc n)
    obtain e u1 where c: "createEmptyEntity u = (e, u1)" by (cases "createEmptyEntity u")
    obtain r u2 where f: "fresh_table n u1 = (r, u2)" by (cases "fresh_table n u1")
    from Suc [of u1] f cre_b [of u] c show ?case by simp
  qed
  show "length (entities (tracker_reset t)) = MAX_EDICTS"
    using 1 2 e by (simp add: tracker_reset_def Let_def)
  show "length (baselines (tracker_reset t)) = MAX_EDICTS"
    using 1 2 b tab_b [of MAX_EDICTS "t1\<lparr>baselines := bs\<rparr>"]
    by (simp add: tracker_reset_def Let_def)
qed

lemma new_tracker_length: "length (entities new_tracker) = MAX_EDICTS"
  by (simp add: new_tracker_def tracker_reset_lengths)

lemma updateEntity_length:
  "length (entities (snd (updateEntity n st t))) = length (entities t)"
  by (simp add: updateEntity_def Let_def)

lemma setBaseline_length:
  "length (entities (setBaseline n st t)) = length (entities t)"
  by (simp add: setBaseline_def)

subsection \<open>C9: get_entity is total\<close>

text \<open>
  C9. On a client whose entity table has its \<open>MAX_EDICTS\<close> slots (the constructor and
  \<open>reset\<close> make it so, and the updates keep the size), \<open>getEntity(n)\<close> for an integer
  \<open>n\<close> is \<open>null\<close> when \<open>n\<close> is negative or at least 1024, and the entity object
  stored in slot \<open>n\<close> otherwise; it has a value for every \<open>n\<close>.
\<close>

theorem getEntity_total:
  assumes "length (entities (entityTracker c)) = MAX_EDICTS"
  shows "Q2Client_getEntity c n =
           (if n < 0 \<or> n \<ge> 1024 then Null else Object (entities (entityTracker c) ! nat n))"
  using assms by (auto simp: Q2Client_getEntity_def getEntity_def MAX_EDICTS_def)

theorem getEntity_total_witness:
  "length (entities (entityTracker (new_client ''Q2Client'' False False 5 1 2))) = MAX_EDICTS
   \<and> Q2Client_getEntity (new_client ''Q2Client'' False False 5 1 2) 7 =
       Object (entities (entityTracker (new_client ''Q2Client'' False False 5 1 2)) ! 7)
   \<and> Q2Client_getEntity (new_client ''Q2Client'' False False 5 1 2) 1024 = Null
   \<and> Q2Client_getEntity (new_client ''Q2Client'' False False 5 1 2) (- 1) = Null"
proof -
  have len: "length (entities (entityTracker (new_client ''Q2Client'' False False 5 1 2)))
               = MAX_EDICTS"
    by (simp add: new_client_def new_tracker_length)
  show ?thesis
    using len getEntity_total [OF len, of 7] getEntity_total [OF len, of 1024]
      getEntity_total [OF len, of "- 1"]
    by simp
qed

subsection \<open>C10: the packet classifier is total\<close>

lemma classifyOOB_type: "ptype (classifyOOB content) \<in> oob_types"
  by (simp add: classifyOOB_def Let_def ptype_def oob_types_def)

lemma parseSequencedPacket_short:
  "length buffer < 8 \<Longrightarrow> parseSequencedPacket buffer = Some SequencedError"
  by (simp add: parseSequencedPacket_def)

lemma parseSequencedPacket_long:
  "8 \<le> length buffer \<Longrightarrow> \<exists>p. parseSequencedPacket buffer = Some (Sequenced p)"
  by (simp add: parseSequencedPacket_def readUInt32LE_def readUInt16LE_def Let_def)

text \<open>
  C10. For every buffer \<open>parseOOBPacket\<close> returns a record, never \<open>null\<close>: no read
  it makes throws. A buffer that begins with four 0xFF bytes gets exactly one of the
  eight out-of-band type tags; any other buffer gets the result of
  \<open>parseSequencedPacket\<close>, which is the error record for fewer than 8 bytes and a
  sequenced packet otherwise.
\<close>

theorem parseOOBPacket_total:
  "parseOOBPacket buffer \<noteq> None
   \<and> (isOOB buffer \<longrightarrow> (\<exists>r. parseOOBPacket buffer = Some r \<and> ptype r \<in> oob_types))
   \<and> (\<not> isOOB buffer \<longrightarrow> parseOOBPacket buffer = parseSequencedPacket buffer
        \<and> (length buffer < 8 \<longrightarrow> parseOOBPacket buffer = Some SequencedError)
        \<and> (8 \<le> length buffer \<longrightarrow> (\<exists>p. parseOOBPacket buffer = Some (Sequenced p))))"
  using classifyOOB_type parseSequencedPacket_short [of buffer]
    parseSequencedPacket_long [of buffer]
  by (cases "length buffer < 8") (auto simp: parseOOBPacket_def)

theorem parseOOBPacket_total_witness:
  "isOOB [0xff, 0xff, 0xff, 0xff, 0x61, 0x63, 0x6b, 0x0a]
   \<and> (\<exists>r. parseOOBPacket [0xff, 0xff, 0xff, 0xff, 0x61, 0x63, 0x6b, 0x0a] = Some r
          \<and> ptype r \<in> oob_types)
   \<and> \<not> isOOB [1, 2, 3] \<and> length [1, 2, 3 :: byte] < 8
   \<and> parseOOBPacket [1, 2, 3] = Some SequencedError
   \<and> \<not> isOOB [1, 0, 0, 0, 0, 0, 0, 0, 9] \<and> 8 \<le> length [1, 0, 0, 0, 0, 0, 0, 0, 9 :: byte]
   \<and> (\<exists>p. parseOOBPacket [1, 0, 0, 0, 0, 0, 0, 0, 9] = Some (Sequenced p))"
proof -
  have a: "isOOB [0xff, 0xff, 0xff, 0xff, 0x61, 0x63, 0x6b, 0x0a]"
    by (simp add: isOOB_def)
  have b: "\<not> isOOB [1, 2, 3]" "length [1, 2, 3 :: byte] < 8"
    by (simp_all add: isOOB_def)
  have c: "\<not> isOOB [1, 0, 0, 0, 0, 0, 0, 0, 9]" "8 \<le> length [1, 0, 0, 0, 0, 0, 0, 0, 9 :: byte]"
    by (simp_all add: isOOB_def)
  from a parseOOBPacket_total [of "[0xff, 0xff, 0xff, 0xff, 0x61, 0x63, 0x6b, 0x0a]"]
  have 1: "\<exists>r. parseOOBPacket [0xff, 0xff, 0xff, 0xff, 0x61, 0x63, 0x6b, 0x0a] = Some r
              \<and> ptype r \<in> oob_types"
    by blast
  from b parseOOBPacket_total [of "[1, 2, 3]"]
  have 2: "parseOOBPacket [1, 2, 3] = Some SequencedError"
    by blast
  from c parseOOBPacket_total [of "[1, 0, 0, 0, 0, 0, 0, 0, 9]"]
  have 3: "\<exists>p. parseOOBPacket [1, 0, 0, 0, 0, 0, 0, 0, 9] = Some (Sequenced p)"
    by blast
  from a b c 1 2 3 show ?thesis by blast
qed

subsection \<open>C1: duplicates are dropped\<close>

lemma parse_pkt_seq0:
  "parseOOBPacket pkt_seq0 = Some (Sequenced \<lparr>sequence = 0, reliable = False,
     fragmented = False, fragmentOffset = 0, moreFragments = False, ack = 5,
     reliableAck = False, hasData = False, pdata = None\<rparr>)"
  by code_simp

lemma parse_pkt_seq2:
  "parseOOBPacket pkt_seq2 = Some (Sequenced \<lparr>sequence = 2, reliable = False,
     fragmented = False, fragmentOffset = 0, moreFragments = False, ack = 0,
     reliableAck = False, hasData = False, pdata = None\<rparr>)"
  by code_simp

text \<open>
  C1 as the code has it. A sequenced packet without the fragment flag whose sequence
  number is at most \<open>incomingSequence\<close> is dropped when \<open>incomingSequence\<close> is
  positive: the handler only records the arrival time, every other field of the client
  is the same, and nothing is sent, emitted or scheduled.
\<close>

theorem duplicate_dropped:
  assumes "parseOOBPacket buffer = Some (Sequenced p)" "\<not> fragmented p"
    "sequence p \<le> incomingSequence c" "0 < incomingSequence c"
  shows "handleServerPacket inflate depth now buffer c = Handled (c\<lparr>lastPacketTime := now\<rparr>)"
  using assms
  by (simp add: handleServerPacket_def handle_sequenced_def netchan_receive_def)

theorem duplicate_dropped_witness:
  "parseOOBPacket pkt_seq2 = Some (Sequenced \<lparr>sequence = 2, reliable = False,
     fragmented = False, fragmentOffset = 0, moreFragments = False, ack = 0,
     reliableAck = False, hasData = False, pdata = None\<rparr>)
   \<and> 2 \<le> incomingSequence (connected0\<lparr>incomingSequence := 3\<rparr>)
   \<and> handleServerPacket no_inflate 1 99 pkt_seq2 (connected0\<lparr>incomingSequence := 3\<rparr>)
       = Handled (connected0\<lparr>incomingSequence := 3, lastPacketTime := 99\<rparr>)"
  using duplicate_dropped [OF parse_pkt_seq2, of "connected0\<lparr>incomingSequence := 3\<rparr>" no_inflate 1 99]
  by (simp add: parse_pkt_seq2)

text \<open>
  With \<open>incomingSequence\<close> = 0, its initial value, a packet with sequence 0 is not
  dropped: the server's ack is recorded and an acknowledgement packet is sent.
\<close>

theorem duplicate_at_zero_counterexample:
  "incomingSequence connected0 = 0
   \<and> handleServerPacket no_inflate 1 0 pkt_seq0 connected0
       = Handled (connected0\<lparr>incomingAcknowledged := 5, outgoingSequence := 2,
                    sent := [[1, 0, 0, 0, 0, 0, 0, 0, 7, 0]]\<rparr>)"
  by (simp add: handleServerPacket_def parse_pkt_seq0 handle_sequenced_def netchan_receive_def
      sendSequencedResponse_def createSequencedPacket_def socket_send_def
      connected0_def client0_def new_client_def le32_bytes_def le16_bytes_def
      VERSION_DEFAULT_def VERSION_R1Q2_def)

subsection \<open>C2: fragment reassembly\<close>

lemma netchan_fragment_more:
  assumes "moreFragments p" "fragmentSequence c = sequence p"
  shows "netchan_fragment p c =
    (if fragmentOffset p = length (fragmentBuffer c)
     then c\<lparr>fragmentBuffer := fragmentBuffer c @ payload p\<rparr> else c, None)"
  using assms by (auto simp: netchan_fragment_def payload_def Let_def split: option.splits)

lemma netchan_receive_more:
  assumes "fragmented p" "moreFragments p" "fragmentSequence c = sequence p"
  shows "snd (netchan_receive p c) = None
    \<and> fragmentSequence (fst (netchan_receive p c)) = sequence p
    \<and> fragmentBuffer (fst (netchan_receive p c)) =
        (if fragmentOffset p = length (fragmentBuffer c)
         then fragmentBuffer c @ payload p else fragmentBuffer c)"
  using assms by (simp add: netchan_receive_def Let_def netchan_fragment_more)

lemma feed_same_sequence:
  assumes "\<forall>p \<in> set ps. fragmented p \<and> sequence p = s \<and> moreFragments p"
    "fragmentSequence c = s"
  shows "fragmentSequence (feed ps c) = s
    \<and> fragmentBuffer (feed ps c)
        = fragmentBuffer c @ concat (accepted (length (fragmentBuffer c)) ps)"
  using assms
proof (induction ps arbitrary: c)
  case Nil
  show ?case using Nil by (simp add: feed_def)
next
  case (Cons p ps)
  let ?c1 = "fst (netchan_receive p c)"
  from Cons.prems have p: "fragmented p" "moreFragments p" "fragmentSequence c = sequence p"
    and s: "sequence p = s" by auto
  note r = netchan_receive_more [OF p]
  have ih: "fragmentSequence (feed ps ?c1) = s
    \<and> fragmentBuffer (feed ps ?c1)
        = fragmentBuffer ?c1 @ concat (accepted (length (fragmentBuffer ?c1)) ps)"
    using Cons.prems r s by (intro Cons.IH) auto
  have f: "feed (p # ps) c = feed ps ?c1" by (simp add: feed_def)
  show ?case using ih r by (simp add: f)
qed

lemma netchan_receive_new_sequence:
  assumes "fragmented p" "moreFragments p" "fragmentSequence c \<noteq> sequence p"
  shows "snd (netchan_receive p c) = None
    \<and> fragmentSequence (fst (netchan_receive p c)) = sequence p
    \<and> fragmentBuffer (fst (netchan_receive p c)) =
        (if fragmentOffset p = 0 then payload p else [])"
  using assms
  by (auto simp: netchan_receive_def netchan_fragment_def payload_def Let_def split: option.splits)

lemma feed_new_sequence:
  assumes "\<forall>p \<in> set ps. fragmented p \<and> sequence p = s \<and> moreFragments p"
    "fragmentSequence c \<noteq> s" "ps \<noteq> []"
  shows "fragmentSequence (feed ps c) = s
    \<and> fragmentBuffer (feed ps c) = concat (accepted 0 ps)"
proof -
  obtain p rest where ps: "ps = p # rest" using assms(3) by (cases ps) auto
  let ?c1 = "fst (netchan_receive p c)"
  from assms ps have p: "fragmented p" "moreFragments p" "fragmentSequence c \<noteq> sequence p"
    and s: "sequence p = s" by auto
  note r = netchan_receive_new_sequence [OF p]
  have "fragmentSequence (feed rest ?c1) = s
    \<and> fragmentBuffer (feed rest ?c1)
        = fragmentBuffer ?c1 @ concat (accepted (length (fragmentBuffer ?c1)) rest)"
    using assms(1) ps r s by (intro feed_same_sequence) auto
  moreover have "feed ps c = feed rest ?c1" by (simp add: feed_def ps)
  ultimately show ?thesis using r by (simp add: ps)
qed

lemma netchan_receive_final:
  assumes "fragmented q" "\<not> moreFragments q"
    "fragmentOffset q = length (if fragmentSequence c = sequence q then fragmentBuffer c else [])"
  shows "snd (netchan_receive q c) =
     Some (Some ((if fragmentSequence c = sequence q then fragmentBuffer c else []) @ payload q),
           (if fragmentSequence c = sequence q then fragmentBuffer c else []) @ payload q \<noteq> [])
    \<and> fragmentBuffer (fst (netchan_receive q c)) = []"
  using assms
  by (auto simp: netchan_receive_def netchan_fragment_def payload_def Let_def split: option.splits)

lemma netchan_receive_out_of_order:
  assumes "fragmented p"
    "fragmentOffset p \<noteq> length (if fragmentSequence c = sequence p then fragmentBuffer c else [])"
  shows "snd (netchan_receive p c) = None
    \<and> fragmentBuffer (fst (netchan_receive p c))
        = (if fragmentSequence c = sequence p then fragmentBuffer c else [])
    \<and> incomingSequence (fst (netchan_receive p c)) = incomingSequence c
    \<and> incomingReliableSequence (fst (netchan_receive p c)) = incomingReliableSequence c"
  using assms
  by (auto simp: netchan_receive_def netchan_fragment_def Let_def split: option.splits)

lemma accepted_snoc:
  "accepted n (ps @ [q]) =
     accepted n ps @ (if fragmentOffset q = n + length (concat (accepted n ps)) then [payload q] else [])"
  by (induction ps arbitrary: n) (auto simp: add.assoc)

lemma parse_frag1:
  "parseOOBPacket frag1 = Some (Sequenced \<lparr>sequence = 7, reliable = False,
     fragmented = True, fragmentOffset = 0, moreFragments = True, ack = 0,
     reliableAck = False, hasData = True, pdata = Some [1, 2]\<rparr>)"
  by code_simp

lemma parse_frag_late:
  "parseOOBPacket frag_late = Some (Sequenced \<lparr>sequence = 7, reliable = False,
     fragmented = True, fragmentOffset = 5, moreFragments = False, ack = 0,
     reliableAck = False, hasData = True, pdata = Some [9]\<rparr>)"
  by code_simp

lemma parse_frag_rel:
  "parseOOBPacket frag_rel = Some (Sequenced \<lparr>sequence = 7, reliable = True,
     fragmented = True, fragmentOffset = 0, moreFragments = True, ack = 0,
     reliableAck = False, hasData = True, pdata = Some [1, 2]\<rparr>)"
  by code_simp

lemma receive_frag1:
  "handleServerPacket inflate depth 0 frag1 connected0
     = Handled (connected0\<lparr>fragmentSequence := 7, fragmentBuffer := [1, 2]\<rparr>)"
  by (simp add: handleServerPacket_def parse_frag1 handle_sequenced_def netchan_receive_def
      netchan_fragment_def connected0_def client0_def new_client_def)

lemma receive_frag_late:
  "handleServerPacket inflate depth 0 frag_late
       (connected0\<lparr>fragmentSequence := 7, fragmentBuffer := [1, 2]\<rparr>)
     = Handled (connected0\<lparr>fragmentSequence := 7, fragmentBuffer := [1, 2]\<rparr>)"
  by (simp add: handleServerPacket_def parse_frag_late handle_sequenced_def netchan_receive_def
      netchan_fragment_def connected0_def client0_def new_client_def)

text \<open>
  C2 as the code has it. For a run of fragments of one sequence that starts a new
  sequence, all marked more-to-come, followed by a final fragment of that sequence whose
  offset is the length accepted so far, the payload handed to the decoder is the
  concatenation of the accepted payloads in the order of their offsets. A fragment whose
  offset is not the length of the buffer of its sequence is dropped, and the buffer stays
  as it is: the reassembly in progress is kept.
\<close>

theorem fragments_reassembled:
  "((\<forall>p \<in> set ps. fragmented p \<and> sequence p = s \<and> moreFragments p)
      \<and> fragmented q \<and> sequence q = s \<and> \<not> moreFragments q
      \<and> fragmentSequence c \<noteq> s
      \<and> fragmentOffset q = length (concat (accepted 0 ps))
    \<longrightarrow> snd (netchan_receive q (feed ps c))
          = Some (Some (concat (accepted 0 (ps @ [q]))), concat (accepted 0 (ps @ [q])) \<noteq> []))
   \<and> (fragmented p \<and> fragmentSequence c = sequence p
        \<and> fragmentOffset p \<noteq> length (fragmentBuffer c)
    \<longrightarrow> snd (netchan_receive p c) = None
        \<and> fragmentBuffer (fst (netchan_receive p c)) = fragmentBuffer c)"
proof (intro conjI impI)
  assume h: "(\<forall>p \<in> set ps. fragmented p \<and> sequence p = s \<and> moreFragments p)
      \<and> fragmented q \<and> sequence q = s \<and> \<not> moreFragments q
      \<and> fragmentSequence c \<noteq> s
      \<and> fragmentOffset q = length (concat (accepted 0 ps))"
  then have all: "\<forall>p \<in> set ps. fragmented p \<and> sequence p = s \<and> moreFragments p"
    and q: "fragmented q" "\<not> moreFragments q" and qs: "sequence q = s"
    and new: "fragmentSequence c \<noteq> s"
    and off: "fragmentOffset q = length (concat (accepted 0 ps))"
    by auto
  have snoc: "concat (accepted 0 (ps @ [q])) = concat (accepted 0 ps) @ payload q"
    using off by (simp add: accepted_snoc)
  let ?c = "feed ps c"
  have buf: "(if fragmentSequence ?c = sequence q then fragmentBuffer ?c else [])
               = concat (accepted 0 ps)"
  proof (cases "ps = []")
    case True
    then show ?thesis using new qs by (simp add: feed_def)
  next
    case False
    from feed_new_sequence [OF all new False] qs show ?thesis by simp
  qed
  have "fragmentOffset q
          = length (if fragmentSequence ?c = sequence q then fragmentBuffer ?c else [])"
    using off buf by simp
  from netchan_receive_final [OF q this] buf snoc
  show "snd (netchan_receive q (feed ps c))
          = Some (Some (concat (accepted 0 (ps @ [q]))), concat (accepted 0 (ps @ [q])) \<noteq> [])"
    by simp
next
  assume h: "fragmented p \<and> fragmentSequence c = sequence p
        \<and> fragmentOffset p \<noteq> length (fragmentBuffer c)"
  then have ne: "fragmentOffset p
      \<noteq> length (if fragmentSequence c = sequence p then fragmentBuffer c else [])"
    by simp
  from netchan_receive_out_of_order [OF _ ne] h
  show "snd (netchan_receive p c) = None" by simp
  from netchan_receive_out_of_order [OF _ ne] h
  show "fragmentBuffer (fst (netchan_receive p c)) = fragmentBuffer c" by simp
qed

theorem fragments_reassembled_witness:
  "list_all (\<lambda>p. fragmented p \<and> sequence p = 7 \<and> moreFragments p)
     [\<lparr>sequence = 7, reliable = False, fragmented = True, fragmentOffset = 0,
       moreFragments = True, ack = 0, reliableAck = False, hasData = True,
       pdata = Some [1, 2]\<rparr>]
   \<and> fragmentSequence connected0 \<noteq> 7
   \<and> snd (netchan_receive
        \<lparr>sequence = 7, reliable = False, fragmented = True, fragmentOffset = 2,
          moreFragments = False, ack = 0, reliableAck = False, hasData = True,
          pdata = Some [6]\<rparr>
        (feed [\<lparr>sequence = 7, reliable = False, fragmented = True, fragmentOffset = 0,
                 moreFragments = True, ack = 0, reliableAck = False, hasData = True,
                 pdata = Some [1, 2]\<rparr>] connected0))
       = Some (Some [1, 2, 6], True)
   \<and> fragmentSequence (connected0\<lparr>fragmentSequence := 7, fragmentBuffer := [1, 2]\<rparr>) = 7
   \<and> snd (netchan_receive
        \<lparr>sequence = 7, reliable = False, fragmented = True, fragmentOffset = 5,
          moreFragments = False, ack = 0, reliableAck = False, hasData = True,
          pdata = Some [9]\<rparr>
        (connected0\<lparr>fragmentSequence := 7, fragmentBuffer := [1, 2]\<rparr>)) = None
   \<and> fragmentBuffer (fst (netchan_receive
        \<lparr>sequence = 7, reliable = False, fragmented = True, fragmentOffset = 5,
          moreFragments = False, ack = 0, reliableAck = False, hasData = True,
          pdata = Some [9]\<rparr>
        (connected0\<lparr>fragmentSequence := 7, fragmentBuffer := [1, 2]\<rparr>))) = [1, 2]"
  using fragments_reassembled [of
      "[\<lparr>sequence = 7, reliable = False, fragmented = True, fragmentOffset = 0,
         moreFragments = True, ack = 0, reliableAck = False, hasData = True,
         pdata = Some [1, 2]\<rparr>]" 7
      "\<lparr>sequence = 7, reliable = False, fragmented = True, fragmentOffset = 2,
        moreFragments = False, ack = 0, reliableAck = False, hasData = True,
        pdata = Some [6]\<rparr>" connected0
      "\<lparr>sequence = 7, reliable = False, fragmented = True, fragmentOffset = 5,
        moreFragments = False, ack = 0, reliableAck = False, hasData = True,
        pdata = Some [9]\<rparr>"]
    fragments_reassembled [of "[]" 7
      "\<lparr>sequence = 7, reliable = False, fragmented = True, fragmentOffset = 2,
        moreFragments = False, ack = 0, reliableAck = False, hasData = True,
        pdata = Some [6]\<rparr>" "connected0\<lparr>fragmentSequence := 7, fragmentBuffer := [1, 2]\<rparr>"
      "\<lparr>sequence = 7, reliable = False, fragmented = True, fragmentOffset = 5,
        moreFragments = False, ack = 0, reliableAck = False, hasData = True,
        pdata = Some [9]\<rparr>"]
  by (simp add: payload_def connected0_def client0_def new_client_def)

text \<open>
  After the first fragment of sequence 7, a fragment of the same sequence with offset 5
  leaves the two buffered bytes in place.
\<close>

theorem out_of_order_counterexample:
  "map_option fragmentBuffer
     (handled_state (receive_all no_inflate 1 0 [frag1, frag_late] connected0)) = Some [1, 2]"
  by (simp add: receive_frag1 receive_frag_late)

subsection \<open>The decoder touches only its own fields and never throws\<close>

lemma keeps_more_simps [simp]:
  "keeps_more c (Next i m c') = (dstate.more c' = dstate.more c)"
  "keeps_more c (Stop (Return m c')) = (dstate.more c' = dstate.more c)"
  "keeps_more c (Stop Throw)" "keeps_more c (Stop OutOfFuel)"
  by (simp_all add: keeps_more_def)

lemma svc_temp_entity_frame: "keeps_more c (svc_temp_entity d i m c)"
  by (simp add: svc_temp_entity_def Let_def)

lemma serverdata_tail_frame:
  "serverdata_tail p d i c = Some (i', c') \<Longrightarrow> dstate.more c' = dstate.more c"
  by (auto simp: serverdata_tail_def Let_def split: if_splits option.splits)

lemma svc_serverdata_frame: "keeps_more c (svc_serverdata d i m c)"
  by (auto simp: svc_serverdata_def Let_def split: if_splits option.splits prod.splits
      dest!: serverdata_tail_frame)

lemma svc_configstring_frame: "keeps_more c (svc_configstring d i m c)"
  by (simp add: svc_configstring_def Let_def split: option.splits prod.splits)

lemma svc_spawnbaseline_frame: "keeps_more c (svc_spawnbaseline d i m c)"
  by (simp add: svc_spawnbaseline_def Let_def split: prod.splits)

lemma svc_print_frame: "keeps_more c (svc_print d i m c)"
  by (simp add: svc_print_def Let_def split: prod.splits)

lemma svc_centerprint_frame: "keeps_more c (svc_centerprint d i m c)"
  by (simp add: svc_centerprint_def Let_def split: prod.splits)

lemma svc_stufftext_frame: "keeps_more c (svc_stufftext d i m c)"
  by (simp add: svc_stufftext_def Let_def split: prod.splits)

lemma svc_sound_frame: "keeps_more c (svc_sound d i m c)"
  by (simp add: svc_sound_def Let_def)

lemma frame_rest_frame: "frame_rest d i c = Some (i', f, c') \<Longrightarrow> c' = c"
  by (auto simp: frame_rest_def Let_def split: if_splits)

lemma frame_head_frame:
  "frame_head d i c = Some (i', f, c') \<Longrightarrow> dstate.more c' = dstate.more c"
  by (auto simp: frame_head_def Let_def split: if_splits option.splits dest!: frame_rest_frame)

lemma svc_frame_frame: "keeps_more c (svc_frame d i m c)"
proof (cases "frame_head d i c")
  case None
  then show ?thesis by (simp add: svc_frame_def)
next
  case (Some r)
  obtain i' f c' where r: "r = (i', f, c')" by (cases r)
  from frame_head_frame [of d i c i' f c'] Some r have "dstate.more c' = dstate.more c" by simp
  with Some r show ?thesis
    by (simp add: svc_frame_def Let_def split: prod.splits)
qed

lemma svc_download_frame: "keeps_more c (svc_download d i m c)"
  by (simp add: svc_download_def Let_def split: option.splits)

lemma svc_zpacket_frame:
  assumes "\<And>b x ms x'. nst b x = Return ms x' \<Longrightarrow> dstate.more x' = dstate.more x"
  shows "keeps_more c (svc_zpacket infl nst d i m c)"
  using assms
  by (auto simp: svc_zpacket_def Let_def split: if_splits option.splits outcome.splits)

lemma svc_gamestate_frame: "keeps_more c (svc_gamestate d i m c)"
  by (simp add: svc_gamestate_def split: option.splits)

lemma svc_setting_frame: "keeps_more c (svc_setting d i m c)"
  by (simp add: svc_setting_def)

lemma svc_dispatch_frame:
  assumes "\<And>b x ms x'. nst b x = Return ms x' \<Longrightarrow> dstate.more x' = dstate.more x"
  shows "keeps_more c (svc_dispatch infl nst d isN cmd i m c)"
  unfolding svc_dispatch_def
  by (simp add: svc_temp_entity_frame svc_serverdata_frame svc_configstring_frame
          svc_spawnbaseline_frame svc_print_frame svc_centerprint_frame svc_stufftext_frame
          svc_sound_frame svc_frame_frame svc_download_frame svc_zpacket_frame [OF assms]
          svc_gamestate_frame svc_setting_frame)

lemma parse_step_frame:
  assumes "\<And>b x ms x'. nst b x = Return ms x' \<Longrightarrow> dstate.more x' = dstate.more x"
  shows "keeps_more c (parse_step infl nst d isN i m c)"
  by (simp add: parse_step_def Let_def svc_dispatch_frame [OF assms] split: prod.splits)

lemma parse_loop_frame:
  assumes "\<And>b x ms x'. nst b x = Return ms x' \<Longrightarrow> dstate.more x' = dstate.more x"
    "parse_loop infl nst d isN i m c = Return m' c'"
  shows "dstate.more c' = dstate.more c"
  using assms
proof (induction infl nst d isN i m c rule: parse_loop.induct)
  case (1 inflate nested data isNested idx msgs c)
  note nst = 1(2)
  note run = 1(3)
  show ?case
  proof (cases "idx < length data")
    case False
    with run show ?thesis by simp
  next
    case True
    have k: "keeps_more c (parse_step inflate nested data isNested idx msgs c)"
      by (rule parse_step_frame) (rule nst)
    show ?thesis
    proof (cases "parse_step inflate nested data isNested idx msgs c")
      case (Stop r)
      with True run have "r = Return m' c'" by simp
      with Stop k show ?thesis by simp
    next
      case (Next i2 m2 c2)
      with True run have "parse_loop inflate nested data isNested i2 m2 c2 = Return m' c'"
        by simp
      from 1(1) [OF True Next nst this] have "dstate.more c' = dstate.more c2" .
      moreover from Next k have "dstate.more c2 = dstate.more c" by simp
      ultimately show ?thesis by simp
    qed
  qed
qed

lemma parseGameMessage_frame:
  "parseGameMessage infl depth d isN c = Return m' c' \<Longrightarrow> dstate.more c' = dstate.more c"
proof (induction depth arbitrary: d isN c m' c')
  case 0
  then show ?case by simp
next
  case (Suc depth)
  from Suc.prems show ?case
    by (simp only: parseGameMessage.simps) (erule parse_loop_frame [rotated], erule Suc.IH)
qed

lemma processServerData_frame:
  "processServerData infl depth d c = Return m' c' \<Longrightarrow> dstate.more c' = dstate.more c"
  by (auto simp: processServerData_def try_inflated_def Let_def
      split: if_splits option.splits outcome.splits prod.splits
      dest: parseGameMessage_frame)


lemma serverdata_tail_Some: "serverdata_tail p d i c \<noteq> None"
  by (simp add: serverdata_tail_def readUInt16LE_def Let_def)

lemma svc_serverdata_no_throw: "svc_serverdata d i m c \<noteq> Stop Throw"
  by (auto simp: svc_serverdata_def readInt32LE_def readUInt32LE_def serverdata_tail_Some Let_def
      split: prod.splits option.splits)

lemma svc_configstring_no_throw: "svc_configstring d i m c \<noteq> Stop Throw"
  by (simp add: svc_configstring_def readUInt16LE_def Let_def split: prod.splits)

lemma svc_spawnbaseline_no_throw: "svc_spawnbaseline d i m c \<noteq> Stop Throw"
  by (simp add: svc_spawnbaseline_def Let_def split: prod.splits)

lemma svc_print_no_throw: "svc_print d i m c \<noteq> Stop Throw"
  by (simp add: svc_print_def Let_def split: prod.splits)

lemma svc_centerprint_no_throw: "svc_centerprint d i m c \<noteq> Stop Throw"
  by (simp add: svc_centerprint_def Let_def split: prod.splits)

lemma svc_stufftext_no_throw: "svc_stufftext d i m c \<noteq> Stop Throw"
  by (simp add: svc_stufftext_def Let_def split: prod.splits)

lemma svc_sound_no_throw: "svc_sound d i m c \<noteq> Stop Throw"
  by (simp add: svc_sound_def Let_def)

lemma svc_temp_entity_no_throw: "svc_temp_entity d i m c \<noteq> Stop Throw"
  by (simp add: svc_temp_entity_def Let_def)

lemma frame_rest_Some: "\<exists>i' f c'. frame_rest d i c = Some (i', f, c')"
  by (simp add: frame_rest_def readUInt16LE_def Let_def)

lemma frame_head_Some: "i + 4 \<le> length d \<Longrightarrow> frame_head d i c \<noteq> None"
  by (simp add: frame_head_def readUInt32LE_def readInt32LE_def frame_rest_Some Let_def)

lemma svc_frame_no_throw: "svc_frame d i m c \<noteq> Stop Throw"
proof (cases "i + 4 > length d")
  case True
  then show ?thesis by (simp add: svc_frame_def)
next
  case False
  then have "frame_head d i c \<noteq> None" by (intro frame_head_Some) simp
  then show ?thesis
    by (auto simp: svc_frame_def Let_def split: prod.splits if_splits)
qed

lemma svc_download_no_throw: "svc_download d i m c \<noteq> Stop Throw"
  by (simp add: svc_download_def readInt16LE_def readUInt16LE_def Let_def)

lemma svc_zpacket_no_throw:
  assumes "\<And>b x. nst b x \<noteq> Throw"
  shows "svc_zpacket infl nst d i m c \<noteq> Stop Throw"
  using assms
  by (auto simp: svc_zpacket_def readUInt16LE_def Let_def split: option.splits outcome.splits)

lemma gamestate_loop_Some: "gamestate_loop d i m \<noteq> None"
proof (induction d i m rule: gamestate_loop.induct)
  case (1 data idx msgs)
  show ?case
  proof (cases "idx + 2 \<le> length data")
    case False
    then show ?thesis by (subst gamestate_loop.simps) simp
  next
    case True
    then have r: "readUInt16LE data idx = Some (u16_at data idx)" by (simp add: readUInt16LE_def)
    show ?thesis
    proof (cases "u16_at data idx = 0x7fff \<or> unat (u16_at data idx) \<ge> 2080")
      case stop: True
      with True r show ?thesis by (subst gamestate_loop.simps) auto
    next
      case False
      from 1 [OF True r False refl refl] True r False show ?thesis
        by (subst gamestate_loop.simps)
           (auto simp add: Let_def simp del: gamestate_loop.simps split: if_splits)
    qed
  qed
qed

lemma svc_gamestate_no_throw: "svc_gamestate d i m c \<noteq> Stop Throw"
  using gamestate_loop_Some [of d i m] by (auto simp: svc_gamestate_def split: option.splits)

lemma svc_setting_no_throw: "svc_setting d i m c \<noteq> Stop Throw"
  by (simp add: svc_setting_def)

lemma svc_dispatch_no_throw:
  assumes "\<And>b x. nst b x \<noteq> Throw"
  shows "svc_dispatch infl nst d isN cmd i m c \<noteq> Stop Throw"
  unfolding svc_dispatch_def
  by (simp add: svc_temp_entity_no_throw svc_serverdata_no_throw svc_configstring_no_throw
          svc_spawnbaseline_no_throw svc_print_no_throw svc_centerprint_no_throw
          svc_stufftext_no_throw svc_sound_no_throw svc_frame_no_throw svc_download_no_throw
          svc_zpacket_no_throw [OF assms] svc_gamestate_no_throw svc_setting_no_throw)

lemma parse_step_no_throw:
  assumes "\<And>b x. nst b x \<noteq> Throw"
  shows "parse_step infl nst d isN i m c \<noteq> Stop Throw"
  by (simp add: parse_step_def Let_def svc_dispatch_no_throw [OF assms] split: prod.splits)

lemma parse_loop_no_throw:
  assumes "\<And>b x. nst b x \<noteq> Throw"
  shows "parse_loop infl nst d isN i m c \<noteq> Throw"
  using assms
proof (induction infl nst d isN i m c rule: parse_loop.induct)
  case (1 inflate nested data isNested idx msgs c)
  note nst = 1(2)
  show ?case
  proof (cases "idx < length data")
    case False
    then show ?thesis by simp
  next
    case True
    have k: "parse_step inflate nested data isNested idx msgs c \<noteq> Stop Throw"
      by (rule parse_step_no_throw) (rule nst)
    show ?thesis
    proof (cases "parse_step inflate nested data isNested idx msgs c")
      case (Stop r)
      with True k show ?thesis by simp
    next
      case (Next i2 m2 c2)
      from 1(1) [OF True Next nst] True Next show ?thesis by simp
    qed
  qed
qed

lemma parseGameMessage_no_throw: "parseGameMessage infl depth d isN c \<noteq> Throw"
proof (induction depth arbitrary: d isN c)
  case 0
  show ?case by simp
next
  case (Suc depth)
  show ?case
    by (simp only: parseGameMessage.simps) (rule parse_loop_no_throw, rule Suc.IH)
qed

lemma processServerData_no_throw: "processServerData infl depth d c \<noteq> Throw"
  by (auto simp: processServerData_def try_inflated_def readUInt16LE_def Let_def
        parseGameMessage_no_throw
      split: option.splits outcome.splits)



subsection \<open>C3: the incoming reliable bit\<close>

lemma irs_emitEvent [simp]:
  "incomingReliableSequence (emitEvent t e c) = incomingReliableSequence c"
  by (simp add: emitEvent_def)

lemma irs_setTimeout [simp]:
  "incomingReliableSequence (setTimeout a n c) = incomingReliableSequence c"
  by (simp add: setTimeout_def)

lemma irs_socket_send [simp]:
  "incomingReliableSequence (socket_send b c) = incomingReliableSequence c"
  by (simp add: socket_send_def)

lemma irs_createSequencedPacket':
  "createSequencedPacket d r c = (x1, x2) \<Longrightarrow> incomingReliableSequence x2 = incomingReliableSequence c"
  by (auto simp: createSequencedPacket_def Let_def split: prod.splits if_splits)

lemma irs_createSequencedPacket [simp]:
  "incomingReliableSequence (snd (createSequencedPacket d r c)) = incomingReliableSequence c"
  by (simp add: createSequencedPacket_def Let_def split: prod.splits)

lemma irs_sendSequencedResponse [simp]:
  "incomingReliableSequence (sendSequencedResponse d r c) = incomingReliableSequence c"
  by (auto simp: sendSequencedResponse_def split: prod.splits dest: irs_createSequencedPacket')

lemma irs_sendStringCmd [simp]:
  "incomingReliableSequence (sendStringCmd s c) = incomingReliableSequence c"
  by (auto simp: sendStringCmd_def Let_def split: prod.splits dest: irs_createSequencedPacket')

lemma irs_fold_sendStringCmd [simp]:
  "incomingReliableSequence (fold sendStringCmd cmds c) = incomingReliableSequence c"
  by (induction cmds arbitrary: c) simp_all

lemma irs_processPendingCommands [simp]:
  "incomingReliableSequence (processPendingCommands c) = incomingReliableSequence c"
  by (simp add: processPendingCommands_def Let_def)

lemma irs_precache_done [simp]:
  "incomingReliableSequence (precache_done c) = incomingReliableSequence c"
  by (simp add: precache_done_def)

lemma irs_resetConnectionState [simp]:
  "incomingReliableSequence (resetConnectionState c) = 0"
  by (simp add: resetConnectionState_def)

lemma rel_kept_handleDisconnect: "rel_kept v c \<Longrightarrow> rel_kept v (handleDisconnect r c)"
  by (simp add: handleDisconnect_def rel_kept_def Let_def)

lemma rel_kept_if:
  "rel_kept v (fst a) \<Longrightarrow> rel_kept v (fst b) \<Longrightarrow> rel_kept v (fst (if t then a else b))"
  by simp

lemma rel_kept_stufftext_cmd:
  assumes "rel_kept v c"
  shows "rel_kept v (fst (stufftext_cmd cmd c))"
  unfolding stufftext_cmd_def Let_def
  by (intro rel_kept_if)
     (use assms rel_kept_handleDisconnect [OF assms, of "''server_request''"] in
       \<open>simp_all add: rel_kept_def split: option.splits\<close>)

lemma rel_kept_stufftext_lines: "rel_kept v c \<Longrightarrow> rel_kept v (fst (stufftext_lines ls c))"
proof (induction ls arbitrary: c)
  case Nil
  then show ?case by simp
next
  case (Cons l ls)
  show ?case
  proof (cases "trim l = []")
    case True
    with Cons show ?thesis by simp
  next
    case False
    obtain c1 b where r: "stufftext_cmd (trim l) c = (c1, b)" by (cases "stufftext_cmd (trim l) c")
    from rel_kept_stufftext_cmd [OF Cons.prems, of "trim l"] r have "rel_kept v c1" by simp
    with Cons.IH [of c1] False r show ?thesis by (cases b) (simp_all add: Let_def)
  qed
qed

lemma rel_kept_handleStufftext: "rel_kept v c \<Longrightarrow> rel_kept v (handleStufftext t c)"
proof -
  assume a: "rel_kept v c"
  obtain c1 b where r: "stufftext_lines (split_on CHR 0x0A t) c = (c1, b)"
    by (cases "stufftext_lines (split_on CHR 0x0A t) c")
  from rel_kept_stufftext_lines [OF a, of "split_on CHR 0x0A t"] r have "rel_kept v c1" by simp
  with r show ?thesis by (cases b) (simp_all add: handleStufftext_def rel_kept_def)
qed

lemma rel_kept_handle_message: "rel_kept v c \<Longrightarrow> rel_kept v (fst (handle_message m c))"
proof (cases m)
  case (M_stufftext t)
  assume "rel_kept v c"
  with M_stufftext show ?thesis by (simp add: rel_kept_handleStufftext)
next
  case M_server_disconnect
  assume "rel_kept v c"
  with M_server_disconnect show ?thesis by (simp add: rel_kept_handleDisconnect)
qed (simp_all add: rel_kept_def Let_def)

lemma rel_kept_handle_messages: "rel_kept v c \<Longrightarrow> rel_kept v (fst (handle_messages ms c))"
proof (induction ms arbitrary: c)
  case Nil
  then show ?case by simp
next
  case (Cons m ms)
  obtain c1 b where r: "handle_message m c = (c1, b)" by (cases "handle_message m c")
  from rel_kept_handle_message [OF Cons.prems, of m] r have "rel_kept v c1" by simp
  with Cons.IH [of c1] r show ?case by (cases b) simp_all
qed

lemma more_irs:
  "dstate.more c' = dstate.more c \<Longrightarrow> incomingReliableSequence c' = incomingReliableSequence c"
  for c c' :: client
  by (cases c, cases c') simp

lemma handle_sequenced_rel_kept:
  assumes "handle_sequenced infl depth p c = Handled c'"
  shows "rel_kept (incomingReliableSequence (fst (netchan_receive p c))) c'"
proof -
  obtain c1 r where n: "netchan_receive p c = (c1, r)" by (cases "netchan_receive p c")
  have k1: "rel_kept (incomingReliableSequence c1) c1" by (simp add: rel_kept_def)
  show ?thesis
  proof (cases r)
    case None
    with assms n k1 show ?thesis by (simp add: handle_sequenced_def)
  next
    case (Some pl)
    obtain payload has where pl: "pl = (payload, has)" by (cases pl)
    show ?thesis
    proof (cases "if has then payload else None")
      case None
      with assms n Some pl show ?thesis by (auto simp: handle_sequenced_def rel_kept_def)
    next
      case (Some d)
      note d = Some
      show ?thesis
      proof (cases "processServerData infl depth d c1")
        case (Return msgs c2)
        from processServerData_frame [OF Return] have "incomingReliableSequence c2 = incomingReliableSequence c1"
          by (rule more_irs)
        then have k2: "rel_kept (incomingReliableSequence c1) c2" by (simp add: rel_kept_def)
        obtain c3 b where h: "handle_messages msgs c2 = (c3, b)" by (cases "handle_messages msgs c2")
        from rel_kept_handle_messages [OF k2, of msgs] h have k3: "rel_kept (incomingReliableSequence c1) c3"
          by simp
        from assms n \<open>r = Some pl\<close> pl d Return h k3 show ?thesis
          by (cases b) (auto simp: handle_sequenced_def rel_kept_def)
      next
        case Throw
        with assms n \<open>r = Some pl\<close> pl d show ?thesis by (simp add: handle_sequenced_def)
      next
        case OutOfFuel
        with assms n \<open>r = Some pl\<close> pl d show ?thesis by (simp add: handle_sequenced_def)
      qed
    qed
  qed
qed

lemma parse_pkt_rel_disconnect:
  "parseOOBPacket pkt_rel_disconnect = Some (Sequenced \<lparr>sequence = 1, reliable = True,
     fragmented = False, fragmentOffset = 0, moreFragments = False, ack = 0,
     reliableAck = False, hasData = True, pdata = Some [7]\<rparr>)"
  by code_simp

lemma parse_pkt_rel_nop:
  "parseOOBPacket pkt_rel_nop = Some (Sequenced \<lparr>sequence = 1, reliable = True,
     fragmented = False, fragmentOffset = 0, moreFragments = False, ack = 0,
     reliableAck = False, hasData = True, pdata = Some [6]\<rparr>)"
  by code_simp

lemmas svc_numbers = SVCMD_MASK_def SVC_EXTEND_def SVC_NOP_def SVC_MUZZLEFLASH_def
  SVC_MUZZLEFLASH2_def SVC_TEMP_ENTITY_def SVC_LAYOUT_def SVC_INVENTORY_def SVC_SERVERDATA_def
  SVC_CONFIGSTRING_def SVC_SPAWNBASELINE_def SVC_PRINT_def SVC_CENTERPRINT_def
  SVC_STUFFTEXT_def SVC_SOUND_def SVC_DISCONNECT_def SVC_RECONNECT_def SVC_FRAME_def
  SVC_PLAYERINFO_def SVC_PACKETENTITIES_def SVC_DELTAPACKETENTITIES_def SVC_DOWNLOAD_def
  SVC_ZPACKET_def SVC_GAMESTATE_def SVC_SETTING_def SVC_CONFIGSTRINGSTREAM_def
  SVC_BASELINESTREAM_def SVC_CVARSYNC_def

lemma decode_disconnect:
  "processServerData infl (Suc n) [7] c = Return [M_server_disconnect] c"
  by (simp add: processServerData_def parse_step_def svc_dispatch_def svc_numbers)

lemma decode_nop:
  "processServerData infl (Suc n) [6] c = Return [] c"
  by (simp add: processServerData_def parse_step_def svc_dispatch_def svc_numbers)

text \<open>
  The reliable bit after a handler is 0 when the handler reset the connection and the
  value before otherwise.
\<close>

lemma reset_tracked_if:
  "reset_tracked c a x \<Longrightarrow> reset_tracked c b y
   \<Longrightarrow> reset_tracked c (if t then a else b) (if t then x else y)"
  by simp

lemma irs_handleDisconnect:
  "incomingReliableSequence (handleDisconnect r c)
     = (if reconnectAttempts c < maxReconnectAttempts c then 0 else incomingReliableSequence c)"
  by (simp add: handleDisconnect_def Let_def)

lemma reset_tracked_stufftext_cmd: "reset_tracked c (stufftext_cmd cmd c) (cmd_resets cmd c)"
  unfolding stufftext_cmd_def cmd_resets_def Let_def
  by (intro reset_tracked_if)
     (simp_all add: reset_tracked_def irs_handleDisconnect split: option.splits)

lemma irs_stufftext_lines:
  "incomingReliableSequence (fst (stufftext_lines ls c))
     = (if lines_reset ls c then 0 else incomingReliableSequence c)"
proof (induction ls arbitrary: c)
  case Nil
  show ?case by simp
next
  case (Cons l ls)
  show ?case
  proof (cases "trim l = []")
    case True
    with Cons.IH [of c] show ?thesis by simp
  next
    case False
    obtain c1 b where r: "stufftext_cmd (trim l) c = (c1, b)" by (cases "stufftext_cmd (trim l) c")
    from reset_tracked_stufftext_cmd [of c "trim l"] r
    have t: "incomingReliableSequence c1
               = (if cmd_resets (trim l) c then 0 else incomingReliableSequence c)"
      "cmd_resets (trim l) c \<longrightarrow> b"
      by (simp_all add: reset_tracked_def)
    show ?thesis
    proof (cases b)
      case True
      with False r t show ?thesis by (simp add: Let_def)
    next
      case b: False
      with t have "\<not> cmd_resets (trim l) c" by simp
      with t have "incomingReliableSequence c1 = incomingReliableSequence c" by simp
      with Cons.IH [of c1] False r b show ?thesis by (simp add: Let_def)
    qed
  qed
qed

lemma irs_handleStufftext:
  "incomingReliableSequence (handleStufftext t c)
     = (if lines_reset (split_on CHR 0x0A t) c then 0 else incomingReliableSequence c)"
proof -
  obtain c1 b where r: "stufftext_lines (split_on CHR 0x0A t) c = (c1, b)"
    by (cases "stufftext_lines (split_on CHR 0x0A t) c")
  from irs_stufftext_lines [of "split_on CHR 0x0A t" c] r
  have "incomingReliableSequence c1
          = (if lines_reset (split_on CHR 0x0A t) c then 0 else incomingReliableSequence c)"
    by simp
  with r show ?thesis by (cases b) (simp_all add: handleStufftext_def)
qed

lemma irs_handle_message:
  "incomingReliableSequence (fst (handle_message m c))
     = (if message_resets m c then 0 else incomingReliableSequence c)"
proof (cases m)
  case (M_stufftext t)
  then show ?thesis by (simp add: irs_handleStufftext)
next
  case M_server_disconnect
  then show ?thesis by (simp add: irs_handleDisconnect)
qed (simp_all add: Let_def)

lemma irs_handle_messages:
  "incomingReliableSequence (fst (handle_messages ms c))
     = (if messages_reset ms c then 0 else incomingReliableSequence c)"
proof (induction ms arbitrary: c)
  case Nil
  show ?case by simp
next
  case (Cons m ms)
  obtain c1 b where r: "handle_message m c = (c1, b)" by (cases "handle_message m c")
  from irs_handle_message [of m c] r
  have t: "incomingReliableSequence c1
             = (if message_resets m c then 0 else incomingReliableSequence c)"
    by simp
  show ?case
  proof (cases b)
    case True
    with r t show ?thesis by simp
  next
    case False
    with Cons.IH [of c1] r t show ?thesis by simp
  qed
qed

lemma handle_sequenced_irs:
  assumes "handle_sequenced infl depth p c = Handled c'"
  shows "incomingReliableSequence c'
           = (if packet_resets infl depth p c then 0
              else incomingReliableSequence (fst (netchan_receive p c)))"
proof -
  obtain c1 r where n: "netchan_receive p c = (c1, r)" by (cases "netchan_receive p c")
  show ?thesis
  proof (cases r)
    case None
    with assms n show ?thesis by (simp add: handle_sequenced_def packet_resets_def)
  next
    case (Some pl)
    obtain body has where pl: "pl = (body, has)" by (cases pl)
    show ?thesis
    proof (cases "if has then body else None")
      case None
      with assms n Some pl show ?thesis
        by (auto simp: handle_sequenced_def packet_resets_def)
    next
      case (Some d)
      note d = Some
      show ?thesis
      proof (cases "processServerData infl depth d c1")
        case (Return msgs c2)
        from processServerData_frame [OF Return]
        have k2: "incomingReliableSequence c2 = incomingReliableSequence c1"
          by (rule more_irs)
        obtain c3 b where h: "handle_messages msgs c2 = (c3, b)"
          by (cases "handle_messages msgs c2")
        from irs_handle_messages [of msgs c2] h k2
        have k3: "incomingReliableSequence c3
                    = (if messages_reset msgs c2 then 0 else incomingReliableSequence c1)"
          by simp
        have pr: "packet_resets infl depth p c = messages_reset msgs c2"
          using n \<open>r = Some pl\<close> pl d Return by (simp add: packet_resets_def)
        from assms n \<open>r = Some pl\<close> pl d Return h k3 pr show ?thesis
          by (cases b) (auto simp: handle_sequenced_def)
      next
        case Throw
        with assms n \<open>r = Some pl\<close> pl d show ?thesis by (simp add: handle_sequenced_def)
      next
        case OutOfFuel
        with assms n \<open>r = Some pl\<close> pl d show ?thesis by (simp add: handle_sequenced_def)
      qed
    qed
  qed
qed

lemma nop_no_reset:
  "\<not> packet_resets no_inflate 1
     \<lparr>sequence = 1, reliable = True, fragmented = False, fragmentOffset = 0,
       moreFragments = False, ack = 0, reliableAck = False, hasData = True, pdata = Some [6]\<rparr>
     connected0"
  by (simp add: packet_resets_def netchan_receive_def decode_nop
      connected0_def client0_def new_client_def Let_def)

lemma disconnect_resets:
  "packet_resets no_inflate 1
     \<lparr>sequence = 1, reliable = True, fragmented = False, fragmentOffset = 0,
       moreFragments = False, ack = 0, reliableAck = False, hasData = True, pdata = Some [7]\<rparr>
     connected0"
  by (simp add: packet_resets_def netchan_receive_def decode_disconnect
      connected0_def client0_def new_client_def Let_def)

text \<open>
  C3 as the code has it. When the netchan stage commits a packet that carries the
  reliable flag (the packet is not dropped as a duplicate or as an out-of-order fragment,
  and is not held back as a fragment with more to come), \<open>incomingReliableSequence\<close>
  is toggled exactly once at the commit, before the payload is decoded. A packet that is
  dropped or held back leaves the bit as it was. After the whole packet is handled the
  bit is 0 when handling a message of the payload reset the connection, and has the
  toggled value otherwise.
\<close>

theorem reliable_toggle:
  "(reliable p \<and> snd (netchan_receive p c) \<noteq> None
      \<longrightarrow> incomingReliableSequence (fst (netchan_receive p c))
            = incomingReliableSequence c XOR 1)
   \<and> (snd (netchan_receive p c) = None
      \<longrightarrow> incomingReliableSequence (fst (netchan_receive p c)) = incomingReliableSequence c)
   \<and> (reliable p \<and> snd (netchan_receive p c) \<noteq> None
        \<and> handle_sequenced inflate depth p c = Handled c'
      \<longrightarrow> incomingReliableSequence c'
            = (if packet_resets inflate depth p c then 0
               else incomingReliableSequence c XOR 1))"
proof (intro conjI impI)
  assume "reliable p \<and> snd (netchan_receive p c) \<noteq> None"
  then show "incomingReliableSequence (fst (netchan_receive p c))
               = incomingReliableSequence c XOR 1"
    by (auto simp: netchan_receive_def netchan_fragment_def Let_def
        split: option.splits prod.splits if_splits)
next
  assume "snd (netchan_receive p c) = None"
  then show "incomingReliableSequence (fst (netchan_receive p c)) = incomingReliableSequence c"
    by (auto simp: netchan_receive_def netchan_fragment_def Let_def
        split: option.splits prod.splits if_splits)
next
  assume h: "reliable p \<and> snd (netchan_receive p c) \<noteq> None
        \<and> handle_sequenced inflate depth p c = Handled c'"
  then have "incomingReliableSequence (fst (netchan_receive p c))
               = incomingReliableSequence c XOR 1"
    by (auto simp: netchan_receive_def netchan_fragment_def Let_def
        split: option.splits prod.splits if_splits)
  with handle_sequenced_irs [of inflate depth p c c'] h
  show "incomingReliableSequence c'
          = (if packet_resets inflate depth p c then 0
             else incomingReliableSequence c XOR 1)"
    by simp
qed

lemma handle_rel_nop:
  "handle_sequenced no_inflate 1
     \<lparr>sequence = 1, reliable = True, fragmented = False, fragmentOffset = 0,
       moreFragments = False, ack = 0, reliableAck = False, hasData = True, pdata = Some [6]\<rparr>
     connected0
   = Handled (connected0\<lparr>incomingSequence := 1, incomingReliableSequence := 1,
                outgoingSequence := 2,
                sent := [[1, 0, 0, 0, 1, 0, 0, 0x80, 7, 0]]\<rparr>)"
  by (simp add: handle_sequenced_def netchan_receive_def decode_nop
      sendSequencedResponse_def createSequencedPacket_def socket_send_def
      connected0_def client0_def new_client_def le32_bytes_def le16_bytes_def
      VERSION_DEFAULT_def VERSION_R1Q2_def)

theorem reliable_toggle_witness:
  "snd (netchan_receive
      \<lparr>sequence = 1, reliable = True, fragmented = False, fragmentOffset = 0,
        moreFragments = False, ack = 0, reliableAck = False, hasData = True, pdata = Some [6]\<rparr>
      connected0) \<noteq> None
   \<and> incomingReliableSequence connected0 = 0
   \<and> incomingReliableSequence (fst (netchan_receive
      \<lparr>sequence = 1, reliable = True, fragmented = False, fragmentOffset = 0,
        moreFragments = False, ack = 0, reliableAck = False, hasData = True, pdata = Some [6]\<rparr>
      connected0)) = 1
   \<and> snd (netchan_receive
      \<lparr>sequence = 7, reliable = True, fragmented = True, fragmentOffset = 0,
        moreFragments = True, ack = 0, reliableAck = False, hasData = True,
        pdata = Some [1, 2]\<rparr> connected0) = None
   \<and> incomingReliableSequence (fst (netchan_receive
      \<lparr>sequence = 7, reliable = True, fragmented = True, fragmentOffset = 0,
        moreFragments = True, ack = 0, reliableAck = False, hasData = True,
        pdata = Some [1, 2]\<rparr> connected0)) = 0
   \<and> incomingReliableSequence (connected0\<lparr>incomingSequence := 1,
        incomingReliableSequence := 1, outgoingSequence := 2,
        sent := [[1, 0, 0, 0, 1, 0, 0, 0x80, 7, 0]]\<rparr>) = 1"
proof -
  let ?p = "\<lparr>sequence = 1, reliable = True, fragmented = False, fragmentOffset = 0,
        moreFragments = False, ack = 0, reliableAck = False, hasData = True, pdata = Some [6]\<rparr>"
  let ?q = "\<lparr>sequence = 7, reliable = True, fragmented = True, fragmentOffset = 0,
        moreFragments = True, ack = 0, reliableAck = False, hasData = True,
        pdata = Some [1, 2]\<rparr>"
  have z: "incomingReliableSequence connected0 = 0"
    by (simp add: connected0_def client0_def new_client_def)
  have a: "snd (netchan_receive ?p connected0) \<noteq> None"
    by (simp add: netchan_receive_def connected0_def client0_def new_client_def)
  have b: "snd (netchan_receive ?q connected0) = None"
    by (simp add: netchan_receive_def netchan_fragment_def connected0_def client0_def
        new_client_def)
  from reliable_toggle [of ?p connected0 no_inflate 1] a z
  have 1: "incomingReliableSequence (fst (netchan_receive ?p connected0)) = 1"
    by simp
  from reliable_toggle [of ?q connected0 no_inflate 1] b z
  have 2: "incomingReliableSequence (fst (netchan_receive ?q connected0)) = 0"
    by simp
  from reliable_toggle [of ?p connected0 no_inflate 1 "connected0\<lparr>incomingSequence := 1,
        incomingReliableSequence := 1, outgoingSequence := 2,
        sent := [[1, 0, 0, 0, 1, 0, 0, 0x80, 7, 0]]\<rparr>"] a z handle_rel_nop nop_no_reset
  have 3: "incomingReliableSequence (connected0\<lparr>incomingSequence := 1,
        incomingReliableSequence := 1, outgoingSequence := 2,
        sent := [[1, 0, 0, 0, 1, 0, 0, 0x80, 7, 0]]\<rparr>) = 1"
    by simp
  from a z b 1 2 3 show ?thesis by blast
qed

text \<open>
  A reliable fragment with more to come is taken into the buffer and the bit stays 0;
  a reliable packet that carries a server disconnect is committed, and after it is handled
  the bit is 0, the value it had before.
\<close>

theorem reliable_toggle_counterexample:
  "incomingReliableSequence connected0 = 0
   \<and> map_option (\<lambda>c. (fragmentBuffer c, incomingReliableSequence c))
        (handled_state (handleServerPacket no_inflate 1 0 frag_rel connected0))
       = Some ([1, 2], 0)
   \<and> map_option incomingReliableSequence
        (handled_state (handleServerPacket no_inflate 1 0 pkt_rel_disconnect connected0))
       = Some 0"
  by (simp add: handleServerPacket_def parse_frag_rel parse_pkt_rel_disconnect
      handle_sequenced_def netchan_receive_def netchan_fragment_def decode_disconnect
      handleDisconnect_def resetConnectionState_def emitEvent_def setTimeout_def
      connected0_def client0_def new_client_def Let_def)

subsection \<open>C4: CONFIGSTRING records\<close>

lemma le16_roundtrip: "(ucast (ucast w :: byte) :: 16 word) OR push_bit 8 (ucast (ucast (drop_bit 8 w) :: byte)) = w"
  by (rule bit_word_eqI) (auto simp: bit_simps)

lemma u16_at_le16:
  "u16_at (pre @ le16_bytes w @ rest) (length pre) = w"
  by (simp add: u16_at_def le16_bytes_def nth_append le16_roundtrip)

lemma latin1_ascii: "latin1 (ascii_bytes s) = s"
  by (induction s) (simp_all add: latin1_def ascii_bytes_def unat_of_nat)

lemma ascii_byte_zero: "(of_nat (of_char ch) :: byte) = 0 \<longleftrightarrow> ch = CHR 0x00"
proof
  assume "(of_nat (of_char ch) :: byte) = 0"
  then have "unat (of_nat (of_char ch) :: byte) = 0" by simp
  then have "(of_char ch :: nat) = of_char (CHR 0x00)" by (simp add: unat_of_nat)
  then show "ch = CHR 0x00" by (simp only: of_char_eq_iff)
next
  assume "ch = CHR 0x00"
  then show "(of_nat (of_char ch) :: byte) = 0" by simp
qed

lemma length_ascii_bytes [simp]: "length (ascii_bytes s) = length s"
  by (simp add: ascii_bytes_def)

lemma ascii_bytes_nonzero:
  "\<forall>ch \<in> set s. ch \<noteq> CHR 0x00 \<Longrightarrow> \<forall>b \<in> set (ascii_bytes s). b \<noteq> 0"
  by (auto simp: ascii_bytes_def ascii_byte_zero)

lemma readCString_exact:
  assumes "\<forall>b \<in> set bs. b \<noteq> 0"
  shows "readCString (pre @ bs @ 0 # rest) (length pre) = (latin1 bs, length pre + length bs + 1)"
  using assms
  by (simp add: readCString_def slice_def Let_def takeWhile_tail)

lemma parse_loop_end: "parse_loop infl nst d isN (length d) m c = Return m c"
  by simp

lemma decode_configstring_record:
  assumes "index < 65536" "\<forall>ch \<in> set s. ch \<noteq> CHR 0x00"
  shows "parseGameMessage infl (Suc depth) (encode_configstring index s) isN c
         = Return (if cleanQuakeString s \<noteq> []
                   then [M_configstring index (cleanQuakeString s)] else []) c"
proof -
  let ?w = "word_of_nat index :: 16 word"
  let ?bs = "ascii_bytes s"
  let ?d = "encode_configstring index s"
  let ?nst = "\<lambda>d c'. parseGameMessage infl depth d True c'"
  let ?ms = "if cleanQuakeString s \<noteq> [] then [M_configstring index (cleanQuakeString s)] else []"
  have d: "?d = [13] @ le16_bytes ?w @ ?bs @ 0 # []" by (simp add: encode_configstring_def)
  have len: "length ?d = length s + 4"
    by (simp add: encode_configstring_def le16_bytes_def)
  have w: "unat ?w = index" using assms(1) by (simp add: unat_of_nat)
  have u: "readUInt16LE ?d 1 = Some ?w"
    using u16_at_le16 [of "[13]" ?w "?bs @ [0]"] len
    by (simp add: readUInt16LE_def d)
  have "readCString (([13] @ le16_bytes ?w) @ ?bs @ 0 # []) (length ([13] @ le16_bytes ?w))
          = (latin1 ?bs, length ([13] @ le16_bytes ?w) + length ?bs + 1)"
    by (rule readCString_exact) (rule ascii_bytes_nonzero [OF assms(2)])
  then have r: "readCString ?d 3 = (s, length s + 4)"
    by (simp add: d le16_bytes_def latin1_ascii numeral_3_eq_3)
  have c: "svc_configstring ?d 1 [] c = Next (length ?d) ?ms c"
    using u r [unfolded numeral_3_eq_3] w len by (simp add: svc_configstring_def Let_def)
  have h: "?d ! 0 = 13" by (simp add: encode_configstring_def)
  have st: "parse_step infl ?nst ?d isN 0 [] c = Next (length ?d) ?ms c"
    using c h len
    by (simp add: parse_step_def svc_dispatch_def svc_numbers Let_def)
  have "parse_loop infl ?nst ?d isN 0 [] c = parse_loop infl ?nst ?d isN (length ?d) ?ms c"
    using len by (subst parse_loop.simps) (simp add: st del: parse_loop.simps)
  then show ?thesis by (simp add: parse_loop_end del: parse_loop.simps)
qed

lemma clean_printable: "\<forall>ch \<in> set s. printable ch \<Longrightarrow> concat (map clean_char s) = s"
  by (induction s) (auto simp: clean_char_def printable_def Let_def)

lemma ws_printable: "printable ch \<Longrightarrow> js_ws ch \<longleftrightarrow> ch = CHR '' ''"
proof -
  assume p: "printable ch"
  have "ch = CHR '' '' \<longleftrightarrow> (of_char ch :: nat) = of_char (CHR '' '')"
    by (simp only: of_char_eq_iff)
  also have "\<dots> \<longleftrightarrow> (of_char ch :: nat) = 32" by simp
  finally show ?thesis using p by (auto simp: js_ws_def printable_def Let_def)
qed

lemma trim_id:
  assumes "s \<noteq> []" "\<not> js_ws (hd s)" "\<not> js_ws (last s)"
  shows "trim s = s"
proof -
  from assms have 1: "dropWhile js_ws s = s" by (cases s) auto
  from assms have "dropWhile js_ws (rev s) = rev s" by (cases "rev s") (auto simp: hd_rev)
  with 1 show ?thesis by (simp add: trim_def)
qed


text \<open>
  C4 as the code has it. For an index that fits a u16 and a non-empty string of
  printable ASCII characters that neither starts nor ends with a space, decoding the
  encoded CONFIGSTRING record yields exactly one configstring message with that index and
  that string, and leaves the state as it was. Other strings go through
  \<open>cleanQuakeString\<close> (lemma \<open>decode_configstring_record\<close>), which is not
  the identity on them.
\<close>

theorem configstring_roundtrip:
  assumes "index < 65536" "s \<noteq> []" "\<forall>ch \<in> set s. printable ch"
    "hd s \<noteq> CHR '' ''" "last s \<noteq> CHR '' ''"
  shows "parseGameMessage infl (Suc depth) (encode_configstring index s) isN c
         = Return [M_configstring index s] c"
proof -
  have nz: "\<forall>ch \<in> set s. ch \<noteq> CHR 0x00" using assms(3) by (auto simp: printable_def)
  have "printable (hd s)" "printable (last s)" using assms(2,3) by auto
  with assms(4,5) have "\<not> js_ws (hd s)" "\<not> js_ws (last s)" by (simp_all add: ws_printable)
  from trim_id [OF assms(2) this] clean_printable [OF assms(3)]
  have "cleanQuakeString s = s" by (simp add: cleanQuakeString_def)
  with decode_configstring_record [OF assms(1) nz, of infl depth isN c] assms(2)
  show ?thesis by simp
qed


theorem configstring_roundtrip_witness:
  "(5 :: nat) < 65536 \<and> ''q2dm1'' \<noteq> [] \<and> list_all printable ''q2dm1''
   \<and> hd ''q2dm1'' \<noteq> CHR '' '' \<and> last ''q2dm1'' \<noteq> CHR '' ''
   \<and> parseGameMessage no_inflate 1 (encode_configstring 5 ''q2dm1'') False client0
       = Return [M_configstring 5 ''q2dm1''] client0"
proof -
  have p: "\<forall>ch \<in> set ''q2dm1''. printable ch" by (simp add: printable_def)
  have h: "hd ''q2dm1'' \<noteq> CHR '' ''" "last ''q2dm1'' \<noteq> CHR '' ''" "''q2dm1'' \<noteq> []"
    by simp_all
  have i: "(5 :: nat) < 65536" by simp
  from configstring_roundtrip [OF i h(3) p h(1) h(2), of no_inflate 0 False client0] p h i
  show ?thesis by (simp add: list_all_iff)
qed

text \<open>
  The latin-1 string made of the one character 0xE9 comes back as the letter i: the
  high bit is stripped.
\<close>

theorem configstring_lossy_counterexample:
  "parseGameMessage no_inflate 1 (encode_configstring 5 [CHR 0xE9]) False client0
     = Return [M_configstring 5 ''i''] client0"
proof -
  have c: "cleanQuakeString [CHR 0xE9] = ''i''" by code_simp
  have "\<forall>ch \<in> set [CHR 0xE9]. ch \<noteq> CHR 0x00" by simp
  from decode_configstring_record [OF _ this, of 5 no_inflate 0 False client0] c
  show ?thesis by simp
qed

subsection \<open>C5: what a packet-entities delta is applied to\<close>

lemmas u_bits = U_ORIGIN1_def U_ORIGIN2_def U_ANGLE2_def U_ANGLE3_def U_FRAME8_def U_EVENT_def
  U_REMOVE_def U_MOREBITS1_def U_NUMBER16_def U_ORIGIN3_def U_ANGLE1_def U_MODEL_def
  U_RENDERFX8_def U_EFFECTS8_def U_MOREBITS2_def U_SKIN8_def U_FRAME16_def U_RENDERFX16_def
  U_EFFECTS16_def U_MODEL2_def U_MODEL3_def U_MODEL4_def U_MOREBITS3_def U_OLDORIGIN_def
  U_SKIN16_def U_SOUND_def U_SOLID_def

lemmas es_defs = es_model_def es_frame_def es_skin_def es_effects_def es_renderfx_def
  es_origin_def es_angles_def es_old_origin_def es_tail_def

lemma bits1: "parseEntityBits [0x80, 0x08, 5, 9] 0 = (0x0880, 2)"
  by (simp add: parseEntityBits_def u_bits Let_def)

lemma bits2: "parseEntityBits [0x10, 5, 7] 0 = (0x10, 1)"
  by (simp add: parseEntityBits_def u_bits Let_def)

lemma state1:
  "parseEntityStateFromBits [0x80, 0x08, 5, 9] 3 0x0880 b 5 t
     = \<lparr>ent = b\<lparr>number := 5, modelindex := 9, active := True\<rparr>, pos = 4, trk = t\<rparr>"
  by (simp add: parseEntityStateFromBits_def es_defs u_bits set_byte_def byte_or0_def byte_at_def Let_def)

lemma state2:
  "parseEntityStateFromBits [0x10, 5, 7] 2 0x10 b 5 t
     = \<lparr>ent = b\<lparr>number := 5, frame := 7, active := True\<rparr>, pos = 3, trk = t\<rparr>"
  by (simp add: parseEntityStateFromBits_def es_defs u_bits set_byte_def byte_or0_def byte_at_def Let_def)

lemma entity1:
  assumes "5 < length (baselines t)"
  shows "packetEntity [0x80, 0x08, 5, 9] 0 ups t
     = Inr (4, ups @ [5], snd (updateEntity 5 ((baselines t ! 5)\<lparr>number := 5, modelindex := 9, active := True\<rparr>) t))"
  using assms
  by (simp add: packetEntity_def bits1 readEntityNum_def u_bits byte_or0_def byte_at_def
      state1 MAX_EDICTS_def updateEntity_def Let_def)

lemma entity2:
  assumes "5 < length (baselines t)"
  shows "packetEntity [0x10, 5, 7] 0 ups t
     = Inr (3, ups @ [5], snd (updateEntity 5 ((baselines t ! 5)\<lparr>number := 5, frame := 7, active := True\<rparr>) t))"
  using assms
  by (simp add: packetEntity_def bits2 readEntityNum_def u_bits byte_or0_def byte_at_def
      state2 [unfolded numeral_2_eq_2] MAX_EDICTS_def updateEntity_def Let_def)

lemma parse1:
  assumes "5 < length (baselines t)"
  shows "parsePacketEntities [0x80, 0x08, 5, 9] 0 t
     = ([5], 4, snd (updateEntity 5 ((baselines t ! 5)\<lparr>number := 5, modelindex := 9, active := True\<rparr>) t))"
  by (simp add: parsePacketEntities_def entity1 [OF assms])

lemma parse2:
  assumes "5 < length (baselines t)"
  shows "parsePacketEntities [0x10, 5, 7] 0 t
     = ([5], 3, snd (updateEntity 5 ((baselines t ! 5)\<lparr>number := 5, frame := 7, active := True\<rparr>) t))"
  by (simp add: parsePacketEntities_def entity2 [OF assms])


lemma fresh_table_modelindex:
  "\<forall>e \<in> set (fst (fresh_table n t)). modelindex e = 0"
proof (induction n arbitrary: t)
  case 0
  show ?case by simp
next
  case (Suc n)
  obtain e u1 where c: "createEmptyEntity t = (e, u1)" by (cases "createEmptyEntity t")
  obtain r u2 where f: "fresh_table n u1 = (r, u2)" by (cases "fresh_table n u1")
  from c have "modelindex e = 0"
    by (auto simp: createEmptyEntity_def Let_def split: prod.splits)
  with Suc [of u1] f c show ?case by simp
qed

lemma alloc_baselines: "baselines (snd (alloc v u)) = baselines u"
  by (simp add: alloc_def)

lemma createEmptyEntity_baselines: "baselines (snd (createEmptyEntity u)) = baselines u"
  by (simp add: createEmptyEntity_def alloc_def Let_def split: prod.splits)

lemma fresh_table_baselines: "baselines (snd (fresh_table n u)) = baselines u"
proof (induction n arbitrary: u)
  case 0
  show ?case by simp
next
  case (Suc n)
  obtain e u1 where c: "createEmptyEntity u = (e, u1)" by (cases "createEmptyEntity u")
  obtain r u2 where f: "fresh_table n u1 = (r, u2)" by (cases "fresh_table n u1")
  from Suc [of u1] f createEmptyEntity_baselines [of u] c show ?case by simp
qed

lemma baselines_tracker_reset:
  "baselines (tracker_reset t) = fst (fresh_table MAX_EDICTS t)"
proof -
  obtain bs t1 where 1: "fresh_table MAX_EDICTS t = (bs, t1)"
    by (cases "fresh_table MAX_EDICTS t")
  obtain es t2 where 2: "fresh_table MAX_EDICTS (t1\<lparr>baselines := bs\<rparr>) = (es, t2)"
    by (cases "fresh_table MAX_EDICTS (t1\<lparr>baselines := bs\<rparr>)")
  from 1 2 fresh_table_baselines [of MAX_EDICTS "t1\<lparr>baselines := bs\<rparr>"]
  show ?thesis by (simp add: tracker_reset_def Let_def)
qed

lemma new_tracker_baseline5:
  "5 < length (baselines new_tracker) \<and> 5 < length (entities new_tracker)
   \<and> modelindex (baselines new_tracker ! 5) = 0"
proof -
  let ?t0 = "\<lparr>baselines = [], entities = [], cells = (\<lambda>_. zero_vec), fresh = 0\<rparr>"
  have b: "baselines new_tracker = fst (fresh_table MAX_EDICTS ?t0)"
    by (simp add: new_tracker_def baselines_tracker_reset)
  have l: "length (baselines new_tracker) = MAX_EDICTS" "length (entities new_tracker) = MAX_EDICTS"
    by (simp_all add: new_tracker_def tracker_reset_lengths)
  then have 5: "5 < length (baselines new_tracker)" "5 < length (entities new_tracker)"
    by (simp_all add: MAX_EDICTS_def)
  from 5(1) have "baselines new_tracker ! 5 \<in> set (baselines new_tracker)" by (rule nth_mem)
  with fresh_table_modelindex [of MAX_EDICTS ?t0] b
  have "modelindex (baselines new_tracker ! 5) = 0" by simp
  with 5 show ?thesis by simp
qed


text \<open>
  C5 fails on the code. Entity 5 has an untouched baseline (model index 0). A first
  delta selects the model index and sets it to 9. A second delta selects only the frame:
  after it the model index of the entity is 0 again, the value of the baseline, and not
  the 9 of the entity's current state.
\<close>

theorem delta_reverts_to_baseline:
  "modelindex (entities (entities_after [[0x80, 0x08, 5, 9]] new_tracker) ! 5) = 9
   \<and> modelindex (entities (entities_after [[0x80, 0x08, 5, 9], [0x10, 5, 7]] new_tracker) ! 5) = 0
   \<and> frame (entities (entities_after [[0x80, 0x08, 5, 9], [0x10, 5, 7]] new_tracker) ! 5) = 7"
proof -
  note n = new_tracker_baseline5
  let ?e1 = "(baselines new_tracker ! 5)\<lparr>number := 5, modelindex := 9, active := True\<rparr>"
  let ?t1 = "snd (updateEntity 5 ?e1 new_tracker)"
  have p1: "parsePacketEntities [0x80, 0x08, 5, 9] 0 new_tracker = ([5], 4, ?t1)"
    using n by (intro parse1) simp
  have b1: "baselines ?t1 = baselines new_tracker"
    by (simp add: updateEntity_def Let_def)
  have l1: "5 < length (entities ?t1)" using n by (simp add: updateEntity_def Let_def)
  let ?e2 = "(baselines ?t1 ! 5)\<lparr>number := 5, frame := 7, active := True\<rparr>"
  let ?t2 = "snd (updateEntity 5 ?e2 ?t1)"
  have p2: "parsePacketEntities [0x10, 5, 7] 0 ?t1 = ([5], 3, ?t2)"
    using n b1 by (intro parse2) simp
  have m1: "modelindex (entities ?t1 ! 5) = 9"
    using n by (simp add: updateEntity_def MAX_EDICTS_def Let_def)
  have m2: "modelindex (entities ?t2 ! 5) = 0 \<and> frame (entities ?t2 ! 5) = 7"
    using n l1 b1 by (simp add: updateEntity_def MAX_EDICTS_def Let_def)
  show ?thesis using p1 p2 m1 m2 by (simp add: entities_after_def)
qed


subsection \<open>C6: SERVERDATA records\<close>

lemma le32_roundtrip:
  "(ucast (ucast w :: byte) :: 32 word) OR push_bit 8 (ucast (ucast (drop_bit 8 w) :: byte))
     OR push_bit 16 (ucast (ucast (drop_bit 16 w) :: byte))
     OR push_bit 24 (ucast (ucast (drop_bit 24 w) :: byte)) = w" (is "?l = w")
proof (rule bit_word_eqI)
  fix k :: nat
  assume k: "k < LENGTH(32)"
  consider "k < 8" | "8 \<le> k" "k < 16" | "16 \<le> k" "k < 24" | "24 \<le> k" by linarith
  then show "bit ?l k = bit w k" using k by cases (auto simp: bit_simps)
qed

lemma u32_at_le32: "u32_at (pre @ le32_bytes w @ rest) (length pre) = w"
  by (simp add: u32_at_def le32_bytes_def nth_append le32_roundtrip)

lemma length_le32 [simp]: "length (le32_bytes w) = 4" by (simp add: le32_bytes_def)
lemma length_le16 [simp]: "length (le16_bytes w) = 2" by (simp add: le16_bytes_def)

lemma readInt32LE_le32:
  "readInt32LE (pre @ le32_bytes w @ rest) (length pre) = Some (sint w)"
  by (simp add: readInt32LE_def readUInt32LE_def u32_at_le32)

lemma readUInt16LE_le16:
  "readUInt16LE (pre @ le16_bytes w @ rest) (length pre) = Some w"
  by (simp add: readUInt16LE_def u16_at_le16)

lemma readInt16_le16:
  "readInt16 (pre @ le16_bytes w @ rest) (length pre) = (sint w, length pre + 2)"
  by (simp add: readInt16_def u16_at_le16)

lemma svc_serverdata_steps:
  assumes "idx + 9 \<le> length d" "readInt32LE d idx = Some p" "readInt32LE d (idx + 4) = Some n"
    "readCString d (idx + 4 + 4 + 1) = (gd, i1)"
    "readInt16 d i1 = (cn, i2)" "readCString d i2 = (mn, i3)"
  shows "svc_serverdata d idx msgs c
         = (case serverdata_tail p d i3 (c\<lparr>serverProtocol := p\<rparr>) of
              None \<Rightarrow> Stop Throw
            | Some (idx', c') \<Rightarrow>
                Next idx' (msgs @ [M_serverdata p n (unat (d ! (idx + 4 + 4))) gd cn
                                    (cleanQuakeString mn)]) c')"
  using assms by (simp add: svc_serverdata_def Let_def cong: option.case_cong prod.case_cong)

lemma length_encode_serverdata:
  "length (encode_serverdata p n a gameDir cn mapName) = 14 + length gameDir + length mapName"
  by (simp add: encode_serverdata_def)

lemma svc_serverdata_record:
  assumes "\<forall>ch \<in> set gameDir. ch \<noteq> CHR 0x00" "\<forall>ch \<in> set mapName. ch \<noteq> CHR 0x00"
  shows "svc_serverdata (encode_serverdata p n a gameDir cn mapName @ rest) 1 msgs c
         = (case serverdata_tail (sint p) (encode_serverdata p n a gameDir cn mapName @ rest)
                  (length (encode_serverdata p n a gameDir cn mapName))
                  (c\<lparr>serverProtocol := sint p\<rparr>) of
              None \<Rightarrow> Stop Throw
            | Some (idx, c') \<Rightarrow>
                Next idx (msgs @ [M_serverdata (sint p) (sint n) (unat a) gameDir (sint cn)
                                   (cleanQuakeString mapName)]) c')"
proof -
  let ?gd = "ascii_bytes gameDir" and ?mn = "ascii_bytes mapName"
  let ?d = "encode_serverdata p n a gameDir cn mapName @ rest"
  let ?p1 = "[12 :: byte]"
  let ?p2 = "?p1 @ le32_bytes p"
  let ?p3 = "?p2 @ le32_bytes n"
  let ?p4 = "?p3 @ [a]"
  let ?p5 = "?p4 @ ?gd @ [0]"
  let ?p6 = "?p5 @ le16_bytes cn"
  have d2: "?d = ?p1 @ le32_bytes p @ (le32_bytes n @ [a] @ ?gd @ [0] @ le16_bytes cn @ ?mn @ [0] @ rest)"
    by (simp add: encode_serverdata_def)
  have d3: "?d = ?p2 @ le32_bytes n @ ([a] @ ?gd @ [0] @ le16_bytes cn @ ?mn @ [0] @ rest)"
    by (simp add: encode_serverdata_def)
  have d4: "?d = ?p3 @ a # (?gd @ [0] @ le16_bytes cn @ ?mn @ [0] @ rest)"
    by (simp add: encode_serverdata_def)
  have d5: "?d = ?p4 @ ?gd @ 0 # (le16_bytes cn @ ?mn @ [0] @ rest)"
    by (simp add: encode_serverdata_def)
  have d6: "?d = ?p5 @ le16_bytes cn @ (?mn @ [0] @ rest)"
    by (simp add: encode_serverdata_def)
  have d7: "?d = ?p6 @ ?mn @ 0 # rest"
    by (simp add: encode_serverdata_def)
  have r1: "readInt32LE ?d (length ?p1) = Some (sint p)"
    unfolding d2 by (rule readInt32LE_le32)
  have r2: "readInt32LE ?d (length ?p2) = Some (sint n)"
    unfolding d3 by (rule readInt32LE_le32)
  have r3: "?d ! (length ?p3) = a"
    unfolding d4 by (rule nth_append_length)
  have r4: "readCString ?d (length ?p4) = (latin1 ?gd, length ?p4 + length ?gd + 1)"
    unfolding d5 by (rule readCString_exact) (rule ascii_bytes_nonzero [OF assms(1)])
  have r5: "readInt16 ?d (length ?p5) = (sint cn, length ?p5 + 2)"
    unfolding d6 by (rule readInt16_le16)
  have r6: "readCString ?d (length ?p6) = (latin1 ?mn, length ?p6 + length ?mn + 1)"
    unfolding d7 by (rule readCString_exact) (rule ascii_bytes_nonzero [OF assms(2)])
  have a1: "1 + 9 \<le> length ?d" by (simp add: encode_serverdata_def)
  have a2: "readInt32LE ?d 1 = Some (sint p)" using r1 by simp
  have a3: "readInt32LE ?d (1 + 4) = Some (sint n)" using r2 by simp
  have a4: "?d ! (1 + 4 + 4) = a" using r3 by simp
  have a5: "readCString ?d (1 + 4 + 4 + 1) = (gameDir, length ?p5)"
    using r4 by (simp add: latin1_ascii)
  have a6: "readInt16 ?d (length ?p5) = (sint cn, length ?p6)" using r5 by simp
  have a7: "readCString ?d (length ?p6)
              = (mapName, length (encode_serverdata p n a gameDir cn mapName))"
    using r6 by (simp add: latin1_ascii length_encode_serverdata)
  show ?thesis using svc_serverdata_steps [OF a1 a2 a3 a5 a6 a7, of msgs c] a4
    by (simp cong: option.case_cong prod.case_cong)
qed

text \<open>Each tail is consumed whole.\<close>

lemma tail_none:
  "p \<noteq> VERSION_R1Q2 \<Longrightarrow> p \<noteq> VERSION_Q2PRO \<Longrightarrow> p \<noteq> VERSION_AQTION
   \<Longrightarrow> serverdata_tail p d i c = Some (i, c)"
  by (simp add: serverdata_tail_def)

lemma tail_r1q2_consumed:
  "serverdata_tail VERSION_R1Q2 (pre @ tail_r1q2 e minor ad sj @ rest) (length pre) c
     = Some (length pre + length (tail_r1q2 e minor ad sj), c\<lparr>serverProtocolMinor := uint minor\<rparr>)"
proof -
  have "readUInt16LE ((pre @ [e]) @ le16_bytes minor @ ([ad, sj] @ rest)) (length (pre @ [e]))
          = Some minor"
    by (rule readUInt16LE_le16)
  then show ?thesis
    by (simp add: serverdata_tail_def tail_r1q2_def Let_def)
qed

lemma tail_aqtion_consumed:
  "serverdata_tail VERSION_AQTION (pre @ tail_aqtion minor st sj qw wj @ rest) (length pre) c
     = Some (length pre + length (tail_aqtion minor st sj qw wj),
             c\<lparr>serverProtocolMinor := uint minor\<rparr>)"
proof -
  have "readUInt16LE (pre @ le16_bytes minor @ ([st, sj, qw, wj] @ rest)) (length pre)
          = Some minor"
    by (rule readUInt16LE_le16)
  then show ?thesis
    by (simp add: serverdata_tail_def tail_aqtion_def Let_def VERSION_AQTION_def
        VERSION_R1Q2_def VERSION_Q2PRO_def)
qed

lemma tail_q2pro_consumed:
  "serverdata_tail VERSION_Q2PRO (pre @ tail_q2pro minor st fl sj qw wj @ rest) (length pre) c
     = Some (length pre + length (tail_q2pro minor st fl sj qw wj),
             c\<lparr>serverProtocolMinor := uint minor\<rparr>)"
proof -
  have "readUInt16LE (pre @ le16_bytes minor
           @ ([st] @ (if uint minor \<ge> 1024 then le16_bytes fl else [sj, qw, wj]) @ rest))
          (length pre) = Some minor"
    by (rule readUInt16LE_le16)
  then show ?thesis
    by (simp add: serverdata_tail_def tail_q2pro_def Let_def VERSION_AQTION_def
        VERSION_R1Q2_def VERSION_Q2PRO_def)
qed


lemma parse_step_serverdata:
  assumes "\<forall>ch \<in> set gameDir. ch \<noteq> CHR 0x00" "\<forall>ch \<in> set mapName. ch \<noteq> CHR 0x00"
  shows "parse_step infl nst (encode_serverdata p n a gameDir cn mapName @ rest) isN 0 msgs c
         = (case serverdata_tail (sint p) (encode_serverdata p n a gameDir cn mapName @ rest)
                  (length (encode_serverdata p n a gameDir cn mapName))
                  (c\<lparr>serverProtocol := sint p\<rparr>) of
              None \<Rightarrow> Stop Throw
            | Some (idx, c') \<Rightarrow>
                Next idx (msgs @ [M_serverdata (sint p) (sint n) (unat a) gameDir (sint cn)
                                   (cleanQuakeString mapName)]) c')"
proof -
  let ?d = "encode_serverdata p n a gameDir cn mapName @ rest"
  have h: "?d ! 0 = 12" by (simp add: encode_serverdata_def)
  have l: "encode_serverdata p n a gameDir cn mapName \<noteq> []"
    by (simp add: encode_serverdata_def)
  have "parse_step infl nst ?d isN 0 msgs c = svc_serverdata ?d 1 msgs c"
    using h l by (simp add: parse_step_def svc_dispatch_def svc_numbers Let_def)
  then show ?thesis by (simp only: svc_serverdata_record [OF assms])
qed

lemma serverdata_r1q2:
  assumes "\<forall>ch \<in> set gameDir. ch \<noteq> CHR 0x00" "\<forall>ch \<in> set mapName. ch \<noteq> CHR 0x00"
  shows "parse_step infl nst
           (encode_serverdata 35 n a gameDir cn mapName @ tail_r1q2 e minor ad sj @ rest)
           isN 0 msgs c
         = Next (length (encode_serverdata 35 n a gameDir cn mapName @ tail_r1q2 e minor ad sj))
             (msgs @ [M_serverdata 35 (sint n) (unat a) gameDir (sint cn)
                        (cleanQuakeString mapName)])
             (c\<lparr>serverProtocol := 35, serverProtocolMinor := uint minor\<rparr>)"
  using parse_step_serverdata [OF assms, of infl nst 35 n a cn "tail_r1q2 e minor ad sj @ rest"
      isN msgs c]
    tail_r1q2_consumed [of "encode_serverdata 35 n a gameDir cn mapName" e minor ad sj rest
      "c\<lparr>serverProtocol := 35\<rparr>"]
  by (simp add: VERSION_R1Q2_def)

lemma serverdata_q2pro:
  assumes "\<forall>ch \<in> set gameDir. ch \<noteq> CHR 0x00" "\<forall>ch \<in> set mapName. ch \<noteq> CHR 0x00"
  shows "parse_step infl nst
           (encode_serverdata 36 n a gameDir cn mapName @ tail_q2pro minor st fl sj qw wj @ rest)
           isN 0 msgs c
         = Next (length (encode_serverdata 36 n a gameDir cn mapName
                          @ tail_q2pro minor st fl sj qw wj))
             (msgs @ [M_serverdata 36 (sint n) (unat a) gameDir (sint cn)
                        (cleanQuakeString mapName)])
             (c\<lparr>serverProtocol := 36, serverProtocolMinor := uint minor\<rparr>)"
  using parse_step_serverdata [OF assms, of infl nst 36 n a cn
      "tail_q2pro minor st fl sj qw wj @ rest" isN msgs c]
    tail_q2pro_consumed [of "encode_serverdata 36 n a gameDir cn mapName" minor st fl sj qw wj
      rest "c\<lparr>serverProtocol := 36\<rparr>"]
  by (simp add: VERSION_Q2PRO_def)

lemma serverdata_aqtion:
  assumes "\<forall>ch \<in> set gameDir. ch \<noteq> CHR 0x00" "\<forall>ch \<in> set mapName. ch \<noteq> CHR 0x00"
  shows "parse_step infl nst
           (encode_serverdata 38 n a gameDir cn mapName @ tail_aqtion minor st sj qw wj @ rest)
           isN 0 msgs c
         = Next (length (encode_serverdata 38 n a gameDir cn mapName
                          @ tail_aqtion minor st sj qw wj))
             (msgs @ [M_serverdata 38 (sint n) (unat a) gameDir (sint cn)
                        (cleanQuakeString mapName)])
             (c\<lparr>serverProtocol := 38, serverProtocolMinor := uint minor\<rparr>)"
  using parse_step_serverdata [OF assms, of infl nst 38 n a cn
      "tail_aqtion minor st sj qw wj @ rest" isN msgs c]
    tail_aqtion_consumed [of "encode_serverdata 38 n a gameDir cn mapName" minor st sj qw wj
      rest "c\<lparr>serverProtocol := 38\<rparr>"]
  by (simp add: VERSION_AQTION_def)

lemma vanilla_is_encoded:
  "vanilla_serverdata = encode_serverdata 34 1 0 ''baseq2'' 5 ''q2dm1''"
  by code_simp

lemma decode_vanilla:
  "parseGameMessage infl (Suc depth) vanilla_serverdata isN c
     = Return [M_serverdata 34 1 0 ''baseq2'' 5 ''q2dm1''] (c\<lparr>serverProtocol := 34\<rparr>)"
proof -
  let ?d = "encode_serverdata 34 1 0 ''baseq2'' 5 ''q2dm1''"
  let ?nst = "\<lambda>d c'. parseGameMessage infl depth d True c'"
  let ?m = "M_serverdata 34 1 0 ''baseq2'' 5 ''q2dm1''"
  have cl: "cleanQuakeString ''q2dm1'' = ''q2dm1''" by code_simp
  have n: "\<forall>ch \<in> set ''baseq2''. ch \<noteq> CHR 0x00" "\<forall>ch \<in> set ''q2dm1''. ch \<noteq> CHR 0x00"
    by simp_all
  have t: "serverdata_tail 34 (?d @ []) (length ?d) (c\<lparr>serverProtocol := 34\<rparr>)
             = Some (length ?d, c\<lparr>serverProtocol := 34\<rparr>)"
    by (rule tail_none) (simp_all add: VERSION_R1Q2_def VERSION_Q2PRO_def VERSION_AQTION_def)
  have st: "parse_step infl ?nst ?d isN 0 [] c = Next (length ?d) [?m] (c\<lparr>serverProtocol := 34\<rparr>)"
    using parse_step_serverdata [OF n, of infl ?nst 34 1 0 5 "[]" isN "[]" c] t
    by (simp add: cl)
  have "0 < length ?d" by (simp add: length_encode_serverdata)
  then have "parse_loop infl ?nst ?d isN 0 [] c
          = parse_loop infl ?nst ?d isN (length ?d) [?m] (c\<lparr>serverProtocol := 34\<rparr>)"
    by (subst parse_loop.simps) (simp add: st del: parse_loop.simps)
  then show ?thesis by (simp add: vanilla_is_encoded parse_loop_end del: parse_loop.simps)
qed

lemma parse_vanilla_packet:
  "parseOOBPacket vanilla_packet = Some (Sequenced \<lparr>sequence = 1, reliable = False,
     fragmented = False, fragmentOffset = 0, moreFragments = False, ack = 0,
     reliableAck = False, hasData = True, pdata = Some vanilla_serverdata\<rparr>)"
  by code_simp

lemma process_vanilla:
  "processServerData infl (Suc depth) vanilla_serverdata c
     = Return [M_serverdata 34 1 0 ''baseq2'' 5 ''q2dm1''] (c\<lparr>serverProtocol := 34\<rparr>)"
proof -
  have "vanilla_serverdata ! 0 = 12" "\<not> length vanilla_serverdata < 5"
    by (simp_all add: vanilla_serverdata_def)
  then have "processServerData infl (Suc depth) vanilla_serverdata c
     = parseGameMessage infl (Suc depth) vanilla_serverdata False c"
    by (simp add: processServerData_def Let_def svc_numbers del: parseGameMessage.simps)
  then show ?thesis by (simp only: decode_vanilla)
qed

lemma emitted_sendSequencedResponse:
  "emitted (sendSequencedResponse d r c) = emitted c"
  "currentMapName (sendSequencedResponse d r c) = currentMapName c"
  by (simp_all add: sendSequencedResponse_def createSequencedPacket_def socket_send_def Let_def
      split: prod.splits)

lemma handle_vanilla:
  assumes "currentMapName c = [] \<or> currentMapName c = ''q2dm1''" "incomingSequence c = 0"
  shows "\<exists>c'. handleServerPacket infl (Suc depth) now vanilla_packet c = Handled c'
           \<and> emitted c' = emitted c
                @ [(''server_info'', EvConnected ''q2dm1'' ''baseq2'' 34)]
                @ (if debug c then [(''raw_message'', EvConnected ''q2dm1'' ''baseq2'' 34)]
                   else [])
           \<and> currentMapName c' = ''q2dm1''"
  using assms
  by (auto simp add: handleServerPacket_def parse_vanilla_packet handle_sequenced_def
      netchan_receive_def process_vanilla emitted_sendSequencedResponse emitEvent_def Let_def
      simp del: processServerData_def)


text \<open>
  C6. On a client that has no current map (or has q2dm1 already) and has received no
  sequenced packet yet, the datagram carrying the vanilla SERVERDATA payload is decoded
  to one serverdata message, the handler emits the \<open>server_info\<close> event
  \<open>connected\<close> with map q2dm1, game directory baseq2 and protocol 34, and the current
  map name is q2dm1 afterwards. For the protocols 35, 36 and 38 a round of the opcode loop
  over a SERVERDATA record with its tail, followed by any bytes, goes on at the first
  byte after the tail.
\<close>

theorem serverdata_decoded:
  assumes "currentMapName c = [] \<or> currentMapName c = ''q2dm1''" "incomingSequence c = 0"
    "\<forall>ch \<in> set gameDir. ch \<noteq> CHR 0x00" "\<forall>ch \<in> set mapName. ch \<noteq> CHR 0x00"
  shows "processServerData infl (Suc depth) vanilla_serverdata c
           = Return [M_serverdata 34 1 0 ''baseq2'' 5 ''q2dm1''] (c\<lparr>serverProtocol := 34\<rparr>)
       \<and> (\<exists>c'. handleServerPacket infl (Suc depth) now vanilla_packet c = Handled c'
             \<and> emitted c' = emitted c
                  @ [(''server_info'', EvConnected ''q2dm1'' ''baseq2'' 34)]
                  @ (if debug c then [(''raw_message'', EvConnected ''q2dm1'' ''baseq2'' 34)]
                     else [])
             \<and> currentMapName c' = ''q2dm1'')
       \<and> parse_step infl nst
            (encode_serverdata 35 n a gameDir cn mapName @ tail_r1q2 e minor ad sj @ rest)
            isN 0 msgs c
          = Next (length (encode_serverdata 35 n a gameDir cn mapName @ tail_r1q2 e minor ad sj))
              (msgs @ [M_serverdata 35 (sint n) (unat a) gameDir (sint cn)
                         (cleanQuakeString mapName)])
              (c\<lparr>serverProtocol := 35, serverProtocolMinor := uint minor\<rparr>)
       \<and> parse_step infl nst
            (encode_serverdata 36 n a gameDir cn mapName @ tail_q2pro minor st fl sj qw wj @ rest)
            isN 0 msgs c
          = Next (length (encode_serverdata 36 n a gameDir cn mapName
                           @ tail_q2pro minor st fl sj qw wj))
              (msgs @ [M_serverdata 36 (sint n) (unat a) gameDir (sint cn)
                         (cleanQuakeString mapName)])
              (c\<lparr>serverProtocol := 36, serverProtocolMinor := uint minor\<rparr>)
       \<and> parse_step infl nst
            (encode_serverdata 38 n a gameDir cn mapName @ tail_aqtion minor st sj qw wj @ rest)
            isN 0 msgs c
          = Next (length (encode_serverdata 38 n a gameDir cn mapName
                           @ tail_aqtion minor st sj qw wj))
              (msgs @ [M_serverdata 38 (sint n) (unat a) gameDir (sint cn)
                         (cleanQuakeString mapName)])
              (c\<lparr>serverProtocol := 38, serverProtocolMinor := uint minor\<rparr>)"
proof (intro conjI)
  show "processServerData infl (Suc depth) vanilla_serverdata c
          = Return [M_serverdata 34 1 0 ''baseq2'' 5 ''q2dm1''] (c\<lparr>serverProtocol := 34\<rparr>)"
    by (rule process_vanilla)
qed (rule handle_vanilla [OF assms(1,2)] serverdata_r1q2 [OF assms(3,4)]
      serverdata_q2pro [OF assms(3,4)] serverdata_aqtion [OF assms(3,4)])+

theorem serverdata_decoded_witness:
  "(currentMapName client0 = [] \<or> currentMapName client0 = ''q2dm1'')
   \<and> incomingSequence client0 = 0
   \<and> list_all (\<lambda>ch. ch \<noteq> CHR 0x00) ''baseq2'' \<and> list_all (\<lambda>ch. ch \<noteq> CHR 0x00) ''q2dm1''
   \<and> (\<exists>c'. handleServerPacket no_inflate (Suc 0) 0 vanilla_packet client0 = Handled c'
         \<and> emitted c' = [(''server_info'', EvConnected ''q2dm1'' ''baseq2'' 34)]
         \<and> currentMapName c' = ''q2dm1'')
   \<and> parse_step no_inflate (\<lambda>d c'. OutOfFuel)
        (encode_serverdata 36 1 0 ''baseq2'' 5 ''q2dm1'' @ tail_q2pro 1024 2 0 0 0 0 @ [6])
        False 0 [] client0
      = Next (length (encode_serverdata 36 1 0 ''baseq2'' 5 ''q2dm1''
                       @ tail_q2pro 1024 2 0 0 0 0))
          [M_serverdata 36 1 0 ''baseq2'' 5 (cleanQuakeString ''q2dm1'')]
          (client0\<lparr>serverProtocol := 36, serverProtocolMinor := 1024\<rparr>)"
proof -
  have h: "currentMapName client0 = [] \<or> currentMapName client0 = ''q2dm1''"
    "incomingSequence client0 = 0" "debug client0 = False" "emitted client0 = []"
    by (simp_all add: client0_def new_client_def)
  have n: "\<forall>ch \<in> set ''baseq2''. ch \<noteq> CHR 0x00" "\<forall>ch \<in> set ''q2dm1''. ch \<noteq> CHR 0x00"
    by simp_all
  note t = serverdata_decoded [OF h(1,2) n, where infl = no_inflate and depth = 0 and now = 0
      and nst = "\<lambda>d c'. OutOfFuel" and n = 1 and a = 0 and cn = 5 and minor = 1024
      and st = 2 and fl = 0 and sj = 0 and qw = 0 and wj = 0 and rest = "[6]"
      and isN = False and msgs = "[]" and e = 0 and ad = 0]
  have e: "\<exists>c'. handleServerPacket no_inflate (Suc 0) 0 vanilla_packet client0 = Handled c'
         \<and> emitted c' = [(''server_info'', EvConnected ''q2dm1'' ''baseq2'' 34)]
         \<and> currentMapName c' = ''q2dm1''"
    using t h(3,4) by simp
  have q: "parse_step no_inflate (\<lambda>d c'. OutOfFuel)
        (encode_serverdata 36 1 0 ''baseq2'' 5 ''q2dm1'' @ tail_q2pro 1024 2 0 0 0 0 @ [6])
        False 0 [] client0
      = Next (length (encode_serverdata 36 1 0 ''baseq2'' 5 ''q2dm1''
                       @ tail_q2pro 1024 2 0 0 0 0))
          [M_serverdata 36 1 0 ''baseq2'' 5 (cleanQuakeString ''q2dm1'')]
          (client0\<lparr>serverProtocol := 36, serverProtocolMinor := 1024\<rparr>)"
    using t by simp
  have n': "list_all (\<lambda>ch. ch \<noteq> CHR 0x00) ''baseq2''"
    "list_all (\<lambda>ch. ch \<noteq> CHR 0x00) ''q2dm1''"
    by simp_all
  from h(1,2) n' e q show ?thesis by blast
qed

subsection \<open>C7: truncated payloads\<close>








































subsection \<open>C8: the protocol chosen at the challenge\<close>

text \<open>
  Code equations for the two split functions that evaluate the recursive call once.
\<close>

lemma split_on_nonempty: "split_on sep s \<noteq> []"
  by (induction s) auto

lemma split_ws_nonempty: "split_ws s \<noteq> []"
  by (induction s rule: split_ws.induct) auto

lemma split_on_code [code]:
  "split_on sep [] = [[]]"
  "split_on sep (c # cs) =
     (if c = sep then [] # split_on sep cs
      else (case split_on sep cs of x # xs \<Rightarrow> (c # x) # xs | [] \<Rightarrow> [[c]]))"
  using split_on_nonempty [of sep cs] by (simp_all split: list.splits)

lemma split_ws_code [code]:
  "split_ws [] = [[]]"
  "split_ws (c # cs) =
     (if js_ws c then [] # split_ws (dropWhile js_ws cs)
      else (case split_ws cs of x # xs \<Rightarrow> (c # x) # xs | [] \<Rightarrow> [[c]]))"
  using split_ws_nonempty [of cs] by (simp_all split: list.splits)

lemma parse_challenge_packet:
  "parseOOBPacket challenge_packet
     = Some (Challenge (Some 12345) [Some 34, Some 35, Some 36, Some 38])"
  by code_simp

lemma parse_challenge_p36:
  "parseOOBPacket challenge_p36 = Some (Challenge (Some 12345) [Some 36])"
  by code_simp

lemma parse_challenge_p37:
  "parseOOBPacket challenge_p37 = Some (Challenge (Some 12345) [Some 37])"
  by code_simp

lemma handle_challenge_protocol:
  "serverProtocol (handle_challenge cid ps c)
     = (if Some 38 \<in> set ps then 38 else if Some 36 \<in> set ps then 36
        else if Some 35 \<in> set ps then 35 else if Some 34 \<in> set ps then 34
        else serverProtocol c)"
  by (auto simp: handle_challenge_def setTimeout_def Let_def VERSION_AQTION_def VERSION_Q2PRO_def
      VERSION_R1Q2_def VERSION_DEFAULT_def)

lemma handle_challenge_rest:
  "timers (handle_challenge cid ps c) = timers c @ [(100, T_connectToServer cid)]"
  "sent (handle_challenge cid ps c) = sent c"
  "clientQport (handle_challenge cid ps c) = clientQport c"
  by (simp_all add: handle_challenge_def setTimeout_def Let_def)



lemma show_38: "show_int 38 = ''38''"
proof -
  have "show_int 38 = [char_of (51 :: nat), char_of (56 :: nat)]"
    by (simp add: show_int_def)
  also have "\<dots> = ''38''" by code_simp
  finally show ?thesis .
qed

lemma show_12345: "show_int 12345 = ''12345''"
proof -
  have "show_int 12345 = [char_of (49 :: nat), char_of (50 :: nat), char_of (51 :: nat),
      char_of (52 :: nat), char_of (53 :: nat)]"
    by (simp add: show_int_def)
  also have "\<dots> = ''12345''" by code_simp
  finally show ?thesis .
qed


lemma ascii_bytes_append: "ascii_bytes (a @ b) = ascii_bytes a @ ascii_bytes b"
  by (simp add: ascii_bytes_def)

lemma connect_packet_head:
  "\<exists>rest. createConnectPacket ch c
     = [0xff, 0xff, 0xff, 0xff]
       @ ascii_bytes (''connect ''
           @ show_int (if serverProtocol c \<noteq> 0 then serverProtocol c else 34) @ '' ''
           @ show_int (clientQport c) @ '' ''
           @ show_int (if ch \<noteq> 0 then ch else clientChallengeId c) @ '' '' @ [CHR 0x22])
       @ rest"
proof -
  define p where "p = ''connect ''
           @ show_int (if serverProtocol c \<noteq> 0 then serverProtocol c else 34) @ '' ''
           @ show_int (clientQport c) @ '' ''
           @ show_int (if ch \<noteq> 0 then ch else clientChallengeId c) @ '' '' @ [CHR 0x22]"
  define hd' where "hd' = p @ userinfo c @ [CHR 0x22]"
  define protocol where "protocol = (if serverProtocol c \<noteq> 0 then serverProtocol c else 34)"
  have h: "''connect '' @ show_int protocol @ '' '' @ show_int (clientQport c) @ '' ''
             @ show_int (if ch \<noteq> 0 then ch else clientChallengeId c) @ '' ''
             @ [CHR 0x22] @ userinfo c @ [CHR 0x22] = hd'"
    by (simp only: hd'_def p_def protocol_def append_assoc)
  have "createConnectPacket ch c
     = createOOBPacket
         (if protocol = VERSION_Q2PRO
          then hd' @ '' 1390 '' @ show_int (netchanType c) @ '' 1 1024''
          else if protocol = VERSION_AQTION
          then hd' @ '' 1390 '' @ show_int (netchanType c) @ '' 1 3015''
          else if protocol = VERSION_R1Q2 then hd' @ '' 1390 1905'' else hd')"
    unfolding createConnectPacket_def Let_def VERSION_DEFAULT_def
    by (simp only: h protocol_def [symmetric])
  moreover have "\<exists>t. (if protocol = VERSION_Q2PRO
          then hd' @ '' 1390 '' @ show_int (netchanType c) @ '' 1 1024''
          else if protocol = VERSION_AQTION
          then hd' @ '' 1390 '' @ show_int (netchanType c) @ '' 1 3015''
          else if protocol = VERSION_R1Q2 then hd' @ '' 1390 1905'' else hd') = hd' @ t"
    by (simp only: if_distrib [of "\<lambda>x. x = hd' @ _"] same_append_eq split: if_splits) auto
  ultimately obtain t where "createConnectPacket ch c = createOOBPacket (hd' @ t)" by auto
  then have "createConnectPacket ch c
     = [0xff, 0xff, 0xff, 0xff] @ ascii_bytes p
         @ ascii_bytes (userinfo c @ [CHR 0x22] @ t @ [CHR 0x0A])"
    by (simp only: createOOBPacket_def hd'_def ascii_bytes_append append_assoc)
  then show ?thesis unfolding p_def by blast
qed


lemma connectToServer_sent:
  "\<exists>rest. sent (connectToServer cid c)
     = sent c @ [[0xff, 0xff, 0xff, 0xff]
       @ ascii_bytes (''connect ''
           @ show_int (if serverProtocol c \<noteq> 0 then serverProtocol c else 34) @ '' ''
           @ show_int (clientQport c) @ '' ''
           @ show_int (case cid of Some n \<Rightarrow> if n \<noteq> 0 then n else clientChallengeId c
                       | None \<Rightarrow> clientChallengeId c) @ '' '' @ [CHR 0x22])
       @ rest]"
proof -
  define c1 where "c1 = (case cid of Some n \<Rightarrow> if n \<noteq> 0 then c\<lparr>clientChallengeId := n\<rparr> else c
             | None \<Rightarrow> c)\<lparr>connectionState := ''connecting''\<rparr>"
  have s: "sent (connectToServer cid c) = sent c @ [createConnectPacket (clientChallengeId c1) c1]"
    by (simp add: connectToServer_def socket_send_def Let_def c1_def split: option.splits)
  have p: "serverProtocol c1 = serverProtocol c" "clientQport c1 = clientQport c"
    by (simp_all add: c1_def split: option.splits)
  have k: "(if clientChallengeId c1 \<noteq> 0 then clientChallengeId c1 else clientChallengeId c1)
      = (case cid of Some n \<Rightarrow> if n \<noteq> 0 then n else clientChallengeId c
                       | None \<Rightarrow> clientChallengeId c)"
    by (simp add: c1_def split: option.splits)
  from connect_packet_head [of "clientChallengeId c1" c1] show ?thesis
    unfolding s p k by blast
qed


lemma handle_challenge_packet:
  assumes "parseOOBPacket buffer = Some (Challenge cid ps)"
  shows "handleServerPacket infl depth now buffer c
           = Handled (handle_challenge cid ps (c\<lparr>lastPacketTime := now\<rparr>))"
  using assms by (simp add: handleServerPacket_def)

lemma challenge_general:
  assumes "parseOOBPacket buffer = Some (Challenge cid ps)"
  shows "\<exists>c' rest. handleServerPacket infl depth now buffer c = Handled c'
       \<and> serverProtocol c'
           = (if Some 38 \<in> set ps then 38 else if Some 36 \<in> set ps then 36
              else if Some 35 \<in> set ps then 35 else if Some 34 \<in> set ps then 34
              else serverProtocol c)
       \<and> timers c' = timers c @ [(100, T_connectToServer cid)]
       \<and> sent (run_timer (T_connectToServer cid) c')
           = sent c @ [[0xff, 0xff, 0xff, 0xff]
               @ ascii_bytes (''connect ''
                   @ show_int (if serverProtocol c' \<noteq> 0 then serverProtocol c' else 34) @ '' '')
               @ rest]"
proof -
  define c' where "c' = handle_challenge cid ps (c\<lparr>lastPacketTime := now\<rparr>)"
  have 1: "handleServerPacket infl depth now buffer c = Handled c'"
    unfolding c'_def by (rule handle_challenge_packet [OF assms])
  have 2: "serverProtocol c'
           = (if Some 38 \<in> set ps then 38 else if Some 36 \<in> set ps then 36
              else if Some 35 \<in> set ps then 35 else if Some 34 \<in> set ps then 34
              else serverProtocol c)"
    unfolding c'_def by (simp only: handle_challenge_protocol) simp
  have 3: "timers c' = timers c @ [(100, T_connectToServer cid)]" "sent c' = sent c"
    unfolding c'_def by (simp_all add: handle_challenge_rest)
  from connectToServer_sent [of cid c'] obtain r where
    "sent (connectToServer cid c')
       = sent c' @ [[0xff, 0xff, 0xff, 0xff]
       @ ascii_bytes ((''connect ''
           @ show_int (if serverProtocol c' \<noteq> 0 then serverProtocol c' else 34) @ '' '')
           @ (show_int (clientQport c') @ '' ''
           @ show_int (case cid of Some n \<Rightarrow> if n \<noteq> 0 then n else clientChallengeId c'
                       | None \<Rightarrow> clientChallengeId c') @ '' '' @ [CHR 0x22]))
       @ r]"
    by (auto simp only: append_assoc)
  then have 4: "sent (run_timer (T_connectToServer cid) c')
           = sent c @ [[0xff, 0xff, 0xff, 0xff]
               @ ascii_bytes (''connect ''
                   @ show_int (if serverProtocol c' \<noteq> 0 then serverProtocol c' else 34) @ '' '')
               @ (ascii_bytes (show_int (clientQport c') @ '' ''
           @ show_int (case cid of Some n \<Rightarrow> if n \<noteq> 0 then n else clientChallengeId c'
                       | None \<Rightarrow> clientChallengeId c') @ '' '' @ [CHR 0x22]) @ r)]"
    by (simp only: run_timer.simps 3 ascii_bytes_append append_assoc)
  from 1 2 3(1) 4 show ?thesis by blast
qed

lemma challenge_golden:
  "\<exists>c' rest. handleServerPacket infl depth now challenge_packet c = Handled c'
       \<and> serverProtocol c' = 38
       \<and> timers c' = timers c @ [(100, T_connectToServer (Some 12345))]
       \<and> sent (run_timer (T_connectToServer (Some 12345)) c')
           = sent c @ [[0xff, 0xff, 0xff, 0xff]
               @ ascii_bytes (''connect 38 '' @ show_int (clientQport c) @ '' 12345 ''
                               @ [CHR 0x22])
               @ rest]"
proof -
  define c' where "c' = handle_challenge (Some 12345) [Some 34, Some 35, Some 36, Some 38]
      (c\<lparr>lastPacketTime := now\<rparr>)"
  have 1: "handleServerPacket infl depth now challenge_packet c = Handled c'"
    unfolding c'_def by (rule handle_challenge_packet [OF parse_challenge_packet])
  have 2: "serverProtocol c' = 38"
    unfolding c'_def by (simp only: handle_challenge_protocol) simp
  have 3: "timers c' = timers c @ [(100, T_connectToServer (Some 12345))]" "sent c' = sent c"
    "clientQport c' = clientQport c"
    unfolding c'_def by (simp_all add: handle_challenge_rest)
  from connectToServer_sent [of "Some 12345" c'] obtain r where
    "sent (connectToServer (Some 12345) c')
       = sent c' @ [[0xff, 0xff, 0xff, 0xff]
       @ ascii_bytes (''connect ''
           @ show_int (if serverProtocol c' \<noteq> 0 then serverProtocol c' else 34) @ '' ''
           @ show_int (clientQport c') @ '' ''
           @ show_int (case Some (12345 :: int) of
                         Some n \<Rightarrow> if n \<noteq> 0 then n else clientChallengeId c'
                       | None \<Rightarrow> clientChallengeId c') @ '' '' @ [CHR 0x22])
       @ r]"
    by blast
  then have 4: "sent (run_timer (T_connectToServer (Some 12345)) c')
           = sent c @ [[0xff, 0xff, 0xff, 0xff]
               @ ascii_bytes (''connect 38 '' @ show_int (clientQport c) @ '' 12345 ''
                               @ [CHR 0x22])
               @ r]"
    by (simp add: 2 3 show_38 show_12345)
  from 1 2 3(1) 4 show ?thesis by blast
qed


text \<open>
  C8 as the code has it. A challenge whose list holds 38 selects 38, else 36 if the list
  holds it, else 35, else 34 if the list holds it; a list with none of the four leaves
  the protocol as it was. The handler schedules \<open>connectToServer\<close> after 100 ms, and the
  connect command that call sends begins with \<open>connect\<close> and the selected protocol. For
  the list 34,35,36,38 and challenge 12345 the protocol is 38 and the command begins
  with \<open>connect 38\<close>, the qport, 12345 and a double quote.
\<close>

theorem protocol_selected:
  assumes "parseOOBPacket buffer = Some (Challenge cid ps)"
  shows "(\<exists>c' rest. handleServerPacket infl depth now buffer c = Handled c'
       \<and> serverProtocol c'
           = (if Some 38 \<in> set ps then 38 else if Some 36 \<in> set ps then 36
              else if Some 35 \<in> set ps then 35 else if Some 34 \<in> set ps then 34
              else serverProtocol c)
       \<and> timers c' = timers c @ [(100, T_connectToServer cid)]
       \<and> sent (run_timer (T_connectToServer cid) c')
           = sent c @ [[0xff, 0xff, 0xff, 0xff]
               @ ascii_bytes (''connect ''
                   @ show_int (if serverProtocol c' \<noteq> 0 then serverProtocol c' else 34) @ '' '')
               @ rest])
     \<and> (\<exists>c' rest. handleServerPacket infl depth now challenge_packet c = Handled c'
       \<and> serverProtocol c' = 38
       \<and> timers c' = timers c @ [(100, T_connectToServer (Some 12345))]
       \<and> sent (run_timer (T_connectToServer (Some 12345)) c')
           = sent c @ [[0xff, 0xff, 0xff, 0xff]
               @ ascii_bytes (''connect 38 '' @ show_int (clientQport c) @ '' 12345 ''
                               @ [CHR 0x22])
               @ rest])"
  by (intro conjI) (rule challenge_general [OF assms], rule challenge_golden)

theorem protocol_selected_witness:
  "parseOOBPacket challenge_p36 = Some (Challenge (Some 12345) [Some 36])
   \<and> (\<exists>c'. handleServerPacket no_inflate 1 0 challenge_p36 client0 = Handled c'
         \<and> serverProtocol c' = 36
         \<and> timers c' = [(100, T_connectToServer (Some 12345))])"
proof -
  have t: "timers client0 = []" by (simp add: client0_def new_client_def)
  from protocol_selected [OF parse_challenge_p36, of no_inflate 1 0 client0] t
  have "\<exists>c'. handleServerPacket no_inflate 1 0 challenge_p36 client0 = Handled c'
         \<and> serverProtocol c' = 36
         \<and> timers c' = [(100, T_connectToServer (Some 12345))]"
    by auto
  with parse_challenge_p36 show ?thesis by blast
qed

text \<open>
  A fresh client receives a challenge with the list 36 and then one with the list 37:
  the protocol stays 36.
\<close>

theorem unlisted_protocol_counterexample:
  "map_option serverProtocol
     (handled_state (receive_all no_inflate 1 0 [challenge_p36, challenge_p37] client0))
   = Some 36"
proof -
  have "serverProtocol (handle_challenge (Some 12345) [Some 37]
          ((handle_challenge (Some 12345) [Some 36] (client0\<lparr>lastPacketTime := 0\<rparr>))
             \<lparr>lastPacketTime := 0\<rparr>)) = 36"
    by (simp add: handle_challenge_protocol)
  then show ?thesis
    by (simp add: handle_challenge_packet [OF parse_challenge_p36]
        handle_challenge_packet [OF parse_challenge_p37])
qed


end
